(* ===== verification/Prelude.thy ===== *)
theory Prelude
  imports Complex_Main "HOL-Library.Word" "HOL-Library.Multiset" "HOL-Library.AList"
begin

text \<open>
  Shared vocabulary of the development: the machine types of the source, failing
  computations as values of a sum type, the reading of C arithmetic, and the generic
  facts on lists and words that the component theories use.

  The source reports a violated \<^verbatim>\<open>CHECK\<close> by aborting the process; here that is the
  value \<open>Inl (Check msg)\<close>. \<open>Undefined\<close> marks executions that leave the C++
  standard (a read outside a buffer, a division by zero), and \<open>Blocked\<close> a thread that is still blocked
  when the moves of the other threads it is run against are used up.
\<close>

subsection \<open>Machine types\<close>

type_synonym key = "64 word"
type_synonym bytes = "8 word list"
type_synonym f32 = "32 word"

subsection \<open>Failing computations\<close>

datatype err = Check string | Fatal string | Undefined string | Blocked string

type_synonym 'a res = "err + 'a"

text \<open>\<open>chk b m r\<close> is the statement \<^verbatim>\<open>CHECK(b) << m\<close> followed by \<open>r\<close>.\<close>

definition chk :: "bool \<Rightarrow> string \<Rightarrow> 'a res \<Rightarrow> 'a res" where
  "chk b m r = (if b then r else Inl (Check m))"

text \<open>\<open>defined b m r\<close> guards a step whose behaviour the language leaves undefined.\<close>

definition defined :: "bool \<Rightarrow> string \<Rightarrow> 'a res \<Rightarrow> 'a res" where
  "defined b m r = (if b then r else Inl (Undefined m))"

definition rbind :: "'a res \<Rightarrow> ('a \<Rightarrow> 'b res) \<Rightarrow> 'b res" where
  "rbind r f = (case r of Inl e \<Rightarrow> Inl e | Inr x \<Rightarrow> f x)"

named_theorems res_simps \<open>rewriting of failing computations\<close>

lemma chk_Inr [res_simps]: "chk b m r = Inr x \<longleftrightarrow> b \<and> r = Inr x"
  by (simp add: chk_def)

lemma defined_Inr [res_simps]: "defined b m r = Inr x \<longleftrightarrow> b \<and> r = Inr x"
  by (simp add: defined_def)

lemma rbind_Inr [res_simps]: "rbind r f = Inr y \<longleftrightarrow> (\<exists>x. r = Inr x \<and> f x = Inr y)"
  by (simp add: rbind_def split: sum.splits)

lemma chk_True [simp]: "chk True m r = r"
  by (simp add: chk_def)

lemma chk_False [simp]: "chk False m r = Inl (Check m)"
  by (simp add: chk_def)

lemma defined_True [simp]: "defined True m r = r"
  by (simp add: defined_def)

lemma defined_False [simp]: "defined False m r = Inl (Undefined m)"
  by (simp add: defined_def)

lemma rbind_simps [simp]: "rbind (Inl e) f = Inl e" "rbind (Inr x) f = f x"
  by (simp_all add: rbind_def)

lemma rbind_cong [fundef_cong]:
  "r = r' \<Longrightarrow> (\<And>x. r' = Inr x \<Longrightarrow> f x = g x) \<Longrightarrow> rbind r f = rbind r' g"
  by (simp add: rbind_def split: sum.splits)

lemma chk_cong [fundef_cong]:
  "b = b' \<Longrightarrow> m = m' \<Longrightarrow> (b' \<Longrightarrow> r = r') \<Longrightarrow> chk b m r = chk b' m' r'"
  by (simp add: chk_def)

subsection \<open>C arithmetic\<close>

text \<open>Signed division and remainder of C truncate towards zero.\<close>

definition cdiv :: "int \<Rightarrow> int \<Rightarrow> int" where
  "cdiv a b = sgn a * sgn b * (\<bar>a\<bar> div \<bar>b\<bar>)"

definition cmod :: "int \<Rightarrow> int \<Rightarrow> int" where
  "cmod a b = a - b * cdiv a b"

lemma cdiv_nonneg: "0 \<le> a \<Longrightarrow> 0 < b \<Longrightarrow> cdiv a b = a div b"
  by (cases "a = 0") (simp_all add: cdiv_def)

lemma cmod_nonneg: "0 \<le> a \<Longrightarrow> 0 < b \<Longrightarrow> cmod a b = a mod b"
  by (simp add: cmod_def cdiv_nonneg minus_mult_div_eq_mod)

text \<open>\<open>std::numeric_limits<int>::max()\<close>, the empty value of ids and timestamps.\<close>

definition kEmpty :: int where
  "kEmpty = 2147483647"

subsection \<open>Generic facts\<close>

lemma unat_of_nat_small: "i < 2 ^ 64 \<Longrightarrow> unat (of_nat i :: 64 word) = i"
  by (simp only: unat_of_nat) simp

lemma unat_mult_small: "unat a * unat b < 2 ^ 64 \<Longrightarrow> unat (a * b :: 64 word) = unat a * unat b"
  by (simp only: unat_word_ariths) simp

lemma keys_update: "fst ` set (AList.update k v al) = insert k (fst ` set al)"
  by (induction al) auto

lemma length_keys: "distinct (map fst al) \<Longrightarrow> length al = card (fst ` set al)"
  using distinct_card[of "map fst al"] by simp

lemma concat_map_if:
  "(\<And>x. x \<in> set xs \<Longrightarrow> P x = b) \<Longrightarrow>
   concat (map (\<lambda>x. if P x then [h x] else []) xs) = (if b then map h xs else [])"
  by (induction xs) auto

lemma concat_select:
  assumes "\<And>x. x \<in> set xs \<Longrightarrow> P x \<longleftrightarrow> x = y" "distinct xs" "y \<in> set xs"
  shows "concat (map (\<lambda>x. if P x then [h x] else []) xs) = [h y]"
  using assms
proof (induction xs)
  case (Cons a xs)
  show ?case
  proof (cases "a = y")
    case True
    have "concat (map (\<lambda>x. if P x then [h x] else []) xs) = []"
      using Cons.prems True by auto
    with Cons.prems True show ?thesis by simp
  qed (use Cons in auto)
qed simp

lemma div_unique_slot:
  fixes q k n :: nat
  assumes "k < q * n"
  shows "\<exists>!i. i < n \<and> q * i \<le> k \<and> k < q * (i + 1)"
proof -
  have q: "0 < q" using assms by (cases q) auto
  show ?thesis
  proof (intro ex1I[of _ "k div q"] conjI)
    show "k div q < n" using assms q by (simp add: div_less_iff_less_mult mult.commute)
    show "q * (k div q) \<le> k" by simp
    show "k < q * (k div q + 1)" using q by (simp add: dividend_less_times_div)
    fix i assume i: "i < n \<and> q * i \<le> k \<and> k < q * (i + 1)"
    then have "i \<le> k div q" using q by (simp add: less_eq_div_iff_mult_less_eq mult.commute)
    moreover have "k div q < i + 1" using i q by (simp add: div_less_iff_less_mult mult.commute)
    ultimately show "i = k div q" by simp
  qed
qed

end
