(* ===== verification/Messages.thy ===== *)
theory Messages
  imports Prelude
begin

text \<open>
  The messages of ps-lite (\<^verbatim>\<open>include/ps/internal/message.h\<close>) and their wire format: the
  records \<open>Node\<close>, \<open>Control\<close>, \<open>Meta\<close> and \<open>Message\<close>, and \<open>PackMeta\<close>/\<open>UnpackMeta\<close>
  of \<^verbatim>\<open>src/van.cc\<close>. The protocol-buffer structures of \<^verbatim>\<open>src/meta.proto\<close> are records whose
  optional fields are \<open>option\<close> values; the protobuf runtime that turns such a structure
  into bytes is a pair of parameters.
\<close>

subsection \<open>Enumerations\<close>

text \<open>An \<open>Other\<close> constructor stands for an enum variable that holds no named value.\<close>

datatype DataType = CHAR_T | INT8 | INT16 | INT32 | INT64 | UINT8 | UINT16 | UINT32 | UINT64
  | FLOAT | DOUBLE | OTHER | OtherType int

fun int_of_DataType :: "DataType \<Rightarrow> int" where
  "int_of_DataType CHAR_T = 0"
| "int_of_DataType INT8 = 1"
| "int_of_DataType INT16 = 2"
| "int_of_DataType INT32 = 3"
| "int_of_DataType INT64 = 4"
| "int_of_DataType UINT8 = 5"
| "int_of_DataType UINT16 = 6"
| "int_of_DataType UINT32 = 7"
| "int_of_DataType UINT64 = 8"
| "int_of_DataType FLOAT = 9"
| "int_of_DataType DOUBLE = 10"
| "int_of_DataType OTHER = 11"
| "int_of_DataType (OtherType i) = i"

definition DataType_of_int :: "int \<Rightarrow> DataType" where
  "DataType_of_int i =
     (if i = 0 then CHAR_T else if i = 1 then INT8 else if i = 2 then INT16
      else if i = 3 then INT32 else if i = 4 then INT64 else if i = 5 then UINT8
      else if i = 6 then UINT16 else if i = 7 then UINT32 else if i = 8 then UINT64
      else if i = 9 then FLOAT else if i = 10 then DOUBLE else if i = 11 then OTHER
      else OtherType i)"

datatype Role = SERVER | WORKER | SCHEDULER | GLOBAL_SERVER | GLOBAL_SCHEDULER | OtherRole int

fun int_of_Role :: "Role \<Rightarrow> int" where
  "int_of_Role SERVER = 0"
| "int_of_Role WORKER = 1"
| "int_of_Role SCHEDULER = 2"
| "int_of_Role GLOBAL_SERVER = 3"
| "int_of_Role GLOBAL_SCHEDULER = 4"
| "int_of_Role (OtherRole i) = i"

definition Role_of_int :: "int \<Rightarrow> Role" where
  "Role_of_int i =
     (if i = 0 then SERVER else if i = 1 then WORKER else if i = 2 then SCHEDULER
      else if i = 3 then GLOBAL_SERVER else if i = 4 then GLOBAL_SCHEDULER else OtherRole i)"

datatype Command = EMPTY | TERMINATE | ADD_NODE | ADD_GLOBAL_NODE | BARRIER | BARRIER_GLOBAL
  | ACK | HEARTBEAT | AUTOPULLREPLY | ASKPULL | ASKPUSH | REPLY | OtherCommand int

fun int_of_Command :: "Command \<Rightarrow> int" where
  "int_of_Command EMPTY = 0"
| "int_of_Command TERMINATE = 1"
| "int_of_Command ADD_NODE = 2"
| "int_of_Command ADD_GLOBAL_NODE = 3"
| "int_of_Command BARRIER = 4"
| "int_of_Command BARRIER_GLOBAL = 5"
| "int_of_Command ACK = 6"
| "int_of_Command HEARTBEAT = 7"
| "int_of_Command AUTOPULLREPLY = 8"
| "int_of_Command ASKPULL = 9"
| "int_of_Command ASKPUSH = 10"
| "int_of_Command REPLY = 11"
| "int_of_Command (OtherCommand i) = i"

definition Command_of_int :: "int \<Rightarrow> Command" where
  "Command_of_int i =
     (if i = 0 then EMPTY else if i = 1 then TERMINATE else if i = 2 then ADD_NODE
      else if i = 3 then ADD_GLOBAL_NODE else if i = 4 then BARRIER
      else if i = 5 then BARRIER_GLOBAL else if i = 6 then ACK else if i = 7 then HEARTBEAT
      else if i = 8 then AUTOPULLREPLY else if i = 9 then ASKPULL else if i = 10 then ASKPUSH
      else if i = 11 then REPLY else OtherCommand i)"

text \<open>
  The enum values a C++ program can name: an \<open>Other\<close> value never carries the number of a
  named one.
\<close>

definition wf_DataType :: "DataType \<Rightarrow> bool" where
  "wf_DataType d \<longleftrightarrow> (case d of OtherType i \<Rightarrow> i < 0 \<or> 11 < i | _ \<Rightarrow> True)"

definition wf_Role :: "Role \<Rightarrow> bool" where
  "wf_Role r \<longleftrightarrow> (case r of OtherRole i \<Rightarrow> i < 0 \<or> 4 < i | _ \<Rightarrow> True)"

definition wf_Command :: "Command \<Rightarrow> bool" where
  "wf_Command c \<longleftrightarrow> (case c of OtherCommand i \<Rightarrow> i < 0 \<or> 11 < i | _ \<Rightarrow> True)"

lemma DataType_of_int_inverse [simp]: "wf_DataType d \<Longrightarrow> DataType_of_int (int_of_DataType d) = d"
  by (cases d) (auto simp: DataType_of_int_def wf_DataType_def)

lemma Role_of_int_inverse [simp]: "wf_Role r \<Longrightarrow> Role_of_int (int_of_Role r) = r"
  by (cases r) (auto simp: Role_of_int_def wf_Role_def)

lemma Command_of_int_inverse [simp]: "wf_Command c \<Longrightarrow> Command_of_int (int_of_Command c) = c"
  by (cases c) (auto simp: Command_of_int_def wf_Command_def)

subsection \<open>Node, Control, Meta, Message\<close>

record Node =
  n_role :: Role
  n_id :: int
  n_customer_id :: int
  n_hostname :: string
  n_port :: int
  n_udp_port :: "int list"
  n_is_recovery :: bool

text \<open>Fields the constructor leaves uninitialised (role, customer id) are set to 0.\<close>

definition empty_Node :: Node where
  "empty_Node = \<lparr>n_role = SERVER, n_id = kEmpty, n_customer_id = 0, n_hostname = [],
     n_port = kEmpty, n_udp_port = [], n_is_recovery = False\<rparr>"

record Control =
  c_cmd :: Command
  c_node :: "Node list"
  c_barrier_group :: int
  c_msg_sig :: "64 word"

definition empty_Control :: Control where
  "empty_Control = \<lparr>c_cmd = EMPTY, c_node = [], c_barrier_group = 0, c_msg_sig = 0\<rparr>"

definition control_empty :: "Control \<Rightarrow> bool" where
  "control_empty c \<longleftrightarrow> c_cmd c = EMPTY"

record Meta =
  m_head :: int
  m_app_id :: int
  m_customer_id :: int
  m_timestamp :: int
  m_first_key :: int
  m_seq :: int
  m_seq_begin :: int
  m_seq_end :: int
  m_msg_type :: int
  m_push_op_num :: int
  m_val_bytes :: int
  m_total_bytes :: int
  m_channel :: int
  m_keys_len :: int
  m_vals_len :: int
  m_lens_len :: int
  m_tos :: int
  m_compr :: "f32 list"
  m_bits_num :: int
  m_priority :: int
  m_sender :: int
  m_recver :: int
  m_request :: bool
  m_push :: bool
  m_key :: int
  m_version :: int
  m_iters :: int
  m_simple_app :: bool
  m_body :: string
  m_data_type :: "DataType list"
  m_control :: Control

definition empty_Meta :: Meta where
  "empty_Meta = \<lparr>m_head = kEmpty, m_app_id = kEmpty, m_customer_id = kEmpty,
     m_timestamp = kEmpty, m_first_key = 0, m_seq = 0, m_seq_begin = 0, m_seq_end = 0,
     m_msg_type = 0, m_push_op_num = 0, m_val_bytes = 0, m_total_bytes = 0, m_channel = 0,
     m_keys_len = 0, m_vals_len = 0, m_lens_len = 0, m_tos = 0, m_compr = [], m_bits_num = 32,
     m_priority = 0, m_sender = kEmpty, m_recver = kEmpty, m_request = False, m_push = False,
     m_key = kEmpty, m_version = kEmpty, m_iters = kEmpty, m_simple_app = False, m_body = [],
     m_data_type = [], m_control = empty_Control\<rparr>"

record Message =
  msg_contribution :: f32
  msg_meta :: Meta
  msg_data :: "bytes list"

definition empty_Message :: Message where
  "empty_Message = \<lparr>msg_contribution = 0, msg_meta = empty_Meta, msg_data = []\<rparr>"

text \<open>
  \<open>AddData\<close> appends an array, viewed as bytes, together with the tag of its element type
  (the template argument \<open>GetDataType<V>()\<close>).
\<close>

definition AddData :: "DataType \<Rightarrow> bytes \<Rightarrow> Message \<Rightarrow> Message res" where
  "AddData ty val m =
     chk (length (msg_data m) = length (m_data_type (msg_meta m))) ''data.size() == data_type.size()''
       (Inr (m\<lparr>msg_meta := (msg_meta m)\<lparr>m_data_type := m_data_type (msg_meta m) @ [ty]\<rparr>,
               msg_data := msg_data m @ [val]\<rparr>))"

definition wf_Message :: "Message \<Rightarrow> bool" where
  "wf_Message m \<longleftrightarrow> length (msg_data m) = length (m_data_type (msg_meta m))"

lemma AddData_wf: "AddData ty val m = Inr m' \<Longrightarrow> wf_Message m'"
  by (auto simp: AddData_def wf_Message_def res_simps)

lemma AddData_succeeds:
  "wf_Message m \<Longrightarrow>
   AddData ty val m = Inr (m\<lparr>msg_meta := (msg_meta m)\<lparr>m_data_type := m_data_type (msg_meta m) @ [ty]\<rparr>,
     msg_data := msg_data m @ [val]\<rparr>)"
  by (simp add: AddData_def wf_Message_def)

subsection \<open>Protocol-buffer structures\<close>

text \<open>
  The messages of \<^verbatim>\<open>meta.proto\<close>. An optional field is an option; \<open>getdef\<close> is the
  generated accessor, which returns the field's default when it is not set.
\<close>

definition getdef :: "'a \<Rightarrow> 'a option \<Rightarrow> 'a" where
  "getdef d x = (case x of None \<Rightarrow> d | Some v \<Rightarrow> v)"

lemma getdef_simps [simp]: "getdef d None = d" "getdef d (Some v) = v"
  by (simp_all add: getdef_def)

record PBNode =
  pbn_role :: int
  pbn_id :: "int option"
  pbn_hostname :: "string option"
  pbn_port :: "int option"
  pbn_udp_port :: "int list"
  pbn_is_recovery :: "bool option"
  pbn_customer_id :: "int option"

record PBControl =
  pbc_cmd :: int
  pbc_node :: "PBNode list"
  pbc_barrier_group :: "int option"
  pbc_msg_sig :: "64 word option"

record PBMeta =
  pb_head :: "int option"
  pb_body :: "string option"
  pb_control :: "PBControl option"
  pb_request :: "bool option"
  pb_app_id :: "int option"
  pb_timestamp :: "int option"
  pb_data_type :: "int list"
  pb_customer_id :: "int option"
  pb_push :: "bool option"
  pb_simple_app :: "bool option"
  pb_sender :: "int option"
  pb_recver :: "int option"
  pb_first_key :: "int option"
  pb_seq :: "int option"
  pb_seq_begin :: "int option"
  pb_seq_end :: "int option"
  pb_channel :: "int option"
  pb_msg_type :: "int option"
  pb_push_op :: "int option"
  pb_val_bytes :: "int option"
  pb_total_bytes :: "int option"
  pb_keys_len :: "int option"
  pb_vals_len :: "int option"
  pb_lens_len :: "int option"
  pb_compr :: "f32 list"
  pb_bits_num :: "int option"
  pb_priority :: "int option"
  pb_key :: "int option"
  pb_version :: "int option"
  pb_iters :: "int option"

text \<open>A field written only when it does not hold the empty value.\<close>

definition unless_empty :: "int \<Rightarrow> int option" where
  "unless_empty i = (if i \<noteq> kEmpty then Some i else None)"

definition pack_node :: "Node \<Rightarrow> PBNode" where
  "pack_node n = \<lparr>pbn_role = int_of_Role (n_role n), pbn_id = Some (n_id n),
     pbn_hostname = Some (n_hostname n), pbn_port = Some (n_port n), pbn_udp_port = n_udp_port n,
     pbn_is_recovery = Some (n_is_recovery n), pbn_customer_id = Some (n_customer_id n)\<rparr>"

definition pack_control :: "Control \<Rightarrow> PBControl" where
  "pack_control c = \<lparr>pbc_cmd = int_of_Command (c_cmd c), pbc_node = map pack_node (c_node c),
     pbc_barrier_group =
       (if c_cmd c = BARRIER \<or> c_cmd c = BARRIER_GLOBAL then Some (c_barrier_group c) else None),
     pbc_msg_sig =
       (if c_cmd c = BARRIER \<or> c_cmd c = BARRIER_GLOBAL then None
        else if c_cmd c = ACK then Some (c_msg_sig c) else None)\<rparr>"

text \<open>
  \<open>my_id\<close> is the id of this node in the scope of the message: \<open>my_node_global_.id\<close> for a
  global message, \<open>my_node_.id\<close> otherwise. It replaces the sender of the meta.
\<close>

definition pack_meta :: "int \<Rightarrow> Meta \<Rightarrow> PBMeta" where
  "pack_meta my_id m = \<lparr>pb_head = Some (m_head m),
     pb_body = (if m_body m \<noteq> [] then Some (m_body m) else None),
     pb_control =
       (if \<not> control_empty (m_control m) then Some (pack_control (m_control m)) else None),
     pb_request = Some (m_request m),
     pb_app_id = unless_empty (m_app_id m), pb_timestamp = unless_empty (m_timestamp m),
     pb_data_type = map int_of_DataType (m_data_type m),
     pb_customer_id = Some (m_customer_id m), pb_push = Some (m_push m),
     pb_simple_app = Some (m_simple_app m), pb_sender = Some my_id,
     pb_recver = Some (m_recver m), pb_first_key = Some (m_first_key m),
     pb_seq = Some (m_seq m), pb_seq_begin = Some (m_seq_begin m),
     pb_seq_end = Some (m_seq_end m), pb_channel = Some (m_channel m),
     pb_msg_type = Some (m_msg_type m), pb_push_op = Some (m_push_op_num m),
     pb_val_bytes = Some (m_val_bytes m), pb_total_bytes = Some (m_total_bytes m),
     pb_keys_len = Some (m_keys_len m), pb_vals_len = Some (m_vals_len m),
     pb_lens_len = Some (m_lens_len m), pb_compr = m_compr m,
     pb_bits_num = Some (m_bits_num m), pb_priority = Some (m_priority m),
     pb_key = unless_empty (m_key m), pb_version = unless_empty (m_version m),
     pb_iters = unless_empty (m_iters m)\<rparr>"

definition PackMeta :: "(PBMeta \<Rightarrow> bytes option) \<Rightarrow> int \<Rightarrow> Meta \<Rightarrow> bytes res" where
  "PackMeta serialize my_id m =
     (case serialize (pack_meta my_id m) of
        None \<Rightarrow> Inl (Check ''failed to serialize protbuf'')
      | Some buf \<Rightarrow> Inr buf)"

definition unpack_node :: "PBNode \<Rightarrow> Node" where
  "unpack_node p = \<lparr>n_role = Role_of_int (pbn_role p), n_id = getdef kEmpty (pbn_id p),
     n_customer_id = getdef 0 (pbn_customer_id p), n_hostname = getdef [] (pbn_hostname p),
     n_port = getdef 0 (pbn_port p), n_udp_port = pbn_udp_port p,
     n_is_recovery = getdef False (pbn_is_recovery p)\<rparr>"

text \<open>\<open>unpack_meta\<close> fills in a meta structure that may already hold nodes and codes.\<close>

definition unpack_meta :: "PBMeta \<Rightarrow> Meta \<Rightarrow> Meta" where
  "unpack_meta p m = \<lparr>m_head = getdef 0 (pb_head p), m_app_id = getdef kEmpty (pb_app_id p),
     m_customer_id = getdef 0 (pb_customer_id p), m_timestamp = getdef kEmpty (pb_timestamp p),
     m_first_key = getdef 0 (pb_first_key p), m_seq = getdef 0 (pb_seq p),
     m_seq_begin = getdef 0 (pb_seq_begin p), m_seq_end = getdef 0 (pb_seq_end p),
     m_msg_type = getdef 0 (pb_msg_type p), m_push_op_num = getdef 0 (pb_push_op p),
     m_val_bytes = getdef 0 (pb_val_bytes p), m_total_bytes = getdef 0 (pb_total_bytes p),
     m_channel = getdef 0 (pb_channel p), m_keys_len = getdef 0 (pb_keys_len p),
     m_vals_len = getdef 0 (pb_vals_len p), m_lens_len = getdef 0 (pb_lens_len p),
     m_tos = m_tos m, m_compr = m_compr m @ pb_compr p, m_bits_num = getdef 0 (pb_bits_num p),
     m_priority = getdef 0 (pb_priority p), m_sender = getdef 0 (pb_sender p),
     m_recver = getdef 0 (pb_recver p), m_request = getdef False (pb_request p),
     m_push = getdef False (pb_push p), m_key = getdef kEmpty (pb_key p),
     m_version = getdef kEmpty (pb_version p), m_iters = getdef kEmpty (pb_iters p),
     m_simple_app = getdef False (pb_simple_app p), m_body = getdef [] (pb_body p),
     m_data_type = map DataType_of_int (pb_data_type p),
     m_control =
       (case pb_control p of
          None \<Rightarrow> (m_control m)\<lparr>c_cmd := EMPTY\<rparr>
        | Some c \<Rightarrow>
            \<lparr>c_cmd = Command_of_int (pbc_cmd c),
             c_node = c_node (m_control m) @ map unpack_node (pbc_node c),
             c_barrier_group = getdef 0 (pbc_barrier_group c),
             c_msg_sig = getdef 0 (pbc_msg_sig c)\<rparr>)\<rparr>"

definition UnpackMeta :: "(bytes \<Rightarrow> PBMeta option) \<Rightarrow> bytes \<Rightarrow> Meta \<Rightarrow> Meta res" where
  "UnpackMeta parse buf m =
     (case parse buf of
        None \<Rightarrow> Inl (Check ''failed to parse string into protobuf'')
      | Some p \<Rightarrow> Inr (unpack_meta p m))"

subsection \<open>What the wire preserves\<close>

definition wf_Meta :: "Meta \<Rightarrow> bool" where
  "wf_Meta m \<longleftrightarrow> (\<forall>d \<in> set (m_data_type m). wf_DataType d) \<and> wf_Command (c_cmd (m_control m)) \<and>
     (\<forall>n \<in> set (c_node (m_control m)). wf_Role (n_role n))"

text \<open>
  The part of a control block that travels: nothing for an empty block, the barrier group of
  barrier commands and the signature of acknowledgements otherwise.
\<close>

definition wire_control :: "Control \<Rightarrow> Control" where
  "wire_control c =
     (if c_cmd c = EMPTY then empty_Control
      else c\<lparr>c_barrier_group := (if c_cmd c = BARRIER \<or> c_cmd c = BARRIER_GLOBAL then c_barrier_group c else 0),
             c_msg_sig := (if c_cmd c = ACK then c_msg_sig c else 0)\<rparr>)"

lemma getdef_unless_empty [simp]: "getdef kEmpty (unless_empty i) = i"
  by (simp add: unless_empty_def)

lemma unpack_pack_node [simp]: "wf_Role (n_role n) \<Longrightarrow> unpack_node (pack_node n) = n"
  by (simp add: unpack_node_def pack_node_def)

lemma unpack_pack_nodes [simp]:
  "\<forall>n \<in> set ns. wf_Role (n_role n) \<Longrightarrow> map (unpack_node \<circ> pack_node) ns = ns"
  by (simp add: map_idI)

lemma data_types_roundtrip [simp]:
  "\<forall>d \<in> set ds. wf_DataType d \<Longrightarrow> map (DataType_of_int \<circ> int_of_DataType) ds = ds"
  by (simp add: map_idI)

lemma unpack_pack_meta:
  assumes "wf_Meta m"
  shows "unpack_meta (pack_meta my_id m) empty_Meta =
           m\<lparr>m_sender := my_id, m_tos := 0, m_control := wire_control (m_control m)\<rparr>"
proof -
  have "m_control (unpack_meta (pack_meta my_id m) empty_Meta) = wire_control (m_control m)"
    using assms
    by (auto simp: unpack_meta_def pack_meta_def wf_Meta_def wire_control_def pack_control_def
        control_empty_def empty_Meta_def empty_Control_def)
  with assms show ?thesis
    by (simp add: unpack_meta_def pack_meta_def empty_Meta_def wf_Meta_def)
qed

text \<open>
  C13: a meta structure survives the wire. For every protobuf runtime whose parser inverts its
  serializer, unpacking what \<open>PackMeta\<close> wrote gives the meta back, except that the sender is
  this node's id, \<open>tos\<close> is not transmitted, and of the control block only the parts its
  command uses travel.
\<close>

theorem PackMeta_UnpackMeta:
  assumes "wf_Meta m" and "\<forall>p b. serialize p = Some b \<longrightarrow> parse b = Some p"
    and "PackMeta serialize my_id m = Inr buf"
  shows "UnpackMeta parse buf empty_Meta =
    Inr (m\<lparr>m_sender := my_id, m_tos := 0, m_control := wire_control (m_control m)\<rparr>)"
proof -
  from assms(3) have "serialize (pack_meta my_id m) = Some buf"
    by (simp add: PackMeta_def split: option.splits)
  then have "parse buf = Some (pack_meta my_id m)" using assms(2) by blast
  then show ?thesis using unpack_pack_meta[OF assms(1)] by (simp add: UnpackMeta_def)
qed

definition sample_meta :: Meta where
  "sample_meta = empty_Meta\<lparr>m_head := 0, m_timestamp := 7, m_recver := 101, m_tos := 32,
     m_data_type := [UINT64, CHAR_T], m_control := empty_Control\<lparr>c_cmd := BARRIER, c_barrier_group := 6\<rparr>\<rparr>"

theorem PackMeta_UnpackMeta_witness:
  "UnpackMeta (\<lambda>b. if b = [1] then Some (pack_meta 100 sample_meta) else None) [1] empty_Meta =
     Inr (sample_meta\<lparr>m_sender := 100, m_tos := 0\<rparr>)"
proof -
  have "wf_Meta sample_meta"
    by (simp add: wf_Meta_def sample_meta_def empty_Meta_def empty_Control_def wf_DataType_def wf_Command_def)
  moreover have "wire_control (m_control sample_meta) = m_control sample_meta"
    by (simp add: wire_control_def sample_meta_def empty_Control_def)
  ultimately show ?thesis
    using PackMeta_UnpackMeta[of sample_meta "\<lambda>p. if p = pack_meta 100 sample_meta then Some [1] else None"
      "\<lambda>b. if b = [1] then Some (pack_meta 100 sample_meta) else None" 100 "[1]"]
    by (auto simp: PackMeta_def split: if_split_asm)
qed

end
