(* ===== verification/Postoffices.thy ===== *)
theory Postoffices
  imports Messages
begin

text \<open>
  The postoffice of ps-lite (\<^verbatim>\<open>include/ps/internal/postoffice.h\<close>, \<^verbatim>\<open>src/postoffice.cc\<close>): the
  identity of this node, the numbering of nodes and node groups of the two layers (the
  party of one data centre and the global layer), the key ranges of the servers, the
  registered customers, the barrier flags and the heartbeat records. Mutexes are elided:
  every operation below is one critical section of the source.
\<close>

unbundle bit_operations_syntax

subsection \<open>Constants of base.h\<close>

definition kMaxKey :: key where "kMaxKey = - 1"
definition kScheduler :: int where "kScheduler = 1"
definition kServerGroup :: int where "kServerGroup = 2"
definition kWorkerGroup :: int where "kWorkerGroup = 4"
definition kSchedulerGlobal :: int where "kSchedulerGlobal = 1"
definition kServerGroupGlobal :: int where "kServerGroupGlobal = 2"
definition kWorkerGroupGlobal :: int where "kWorkerGroupGlobal = 4"
definition kOffset :: int where "kOffset = 100"

lemmas group_consts = kScheduler_def kServerGroup_def kWorkerGroup_def kSchedulerGlobal_def
  kServerGroupGlobal_def kWorkerGroupGlobal_def

subsection \<open>Ranges\<close>

record Range =
  range_begin :: "64 word"
  range_end :: "64 word"

definition mk_Range :: "64 word \<Rightarrow> 64 word \<Rightarrow> Range" where
  "mk_Range b e = \<lparr>range_begin = b, range_end = e\<rparr>"

definition range_size :: "Range \<Rightarrow> 64 word" where
  "range_size r = range_end r - range_begin r"

lemma range_sel [simp]: "range_begin (mk_Range b e) = b" "range_end (mk_Range b e) = e"
  by (simp_all add: mk_Range_def)

subsection \<open>State\<close>

record Postoffice =
  po_is_worker :: bool
  po_is_server :: bool
  po_is_scheduler :: bool
  po_is_master_worker :: bool
  po_is_global_server :: bool
  po_is_global_scheduler :: bool
  po_enable_central_workers :: bool
  po_num_servers :: int
  po_num_workers :: int
  po_num_global_servers :: int
  po_num_global_workers :: int
  po_num_all_workers :: int
  po_verbose :: int
  po_customers :: "int \<rightharpoonup> (int \<times> nat) list"
  po_node_ids :: "int \<rightharpoonup> int list"
  po_node_global_ids :: "int \<rightharpoonup> int list"
  po_server_key_ranges :: "Range list"
  po_server_key_ranges_global :: "Range list"
  po_barrier_done :: "int \<Rightarrow> (int \<times> bool) list"
  po_barrier_global_done :: "int \<Rightarrow> (int \<times> bool) list"
  po_init_stage :: int
  po_heartbeats :: "int \<rightharpoonup> int"
  po_start_time :: int

definition empty_Postoffice :: Postoffice where
  "empty_Postoffice = \<lparr>po_is_worker = False, po_is_server = False, po_is_scheduler = False,
     po_is_master_worker = False, po_is_global_server = False, po_is_global_scheduler = False,
     po_enable_central_workers = False, po_num_servers = 0, po_num_workers = 0,
     po_num_global_servers = 0, po_num_global_workers = 0, po_num_all_workers = 0,
     po_verbose = 0, po_customers = Map.empty, po_node_ids = Map.empty,
     po_node_global_ids = Map.empty, po_server_key_ranges = [], po_server_key_ranges_global = [],
     po_barrier_done = (\<lambda>_. []), po_barrier_global_done = (\<lambda>_. []), po_init_stage = 0,
     po_heartbeats = Map.empty, po_start_time = 0\<rparr>"

subsection \<open>Environment\<close>

text \<open>The C library's \<open>atoi\<close>: leading blanks, an optional sign, the digits that follow.\<close>

definition is_digit :: "char \<Rightarrow> bool" where
  "is_digit c \<longleftrightarrow> 48 \<le> (of_char c :: nat) \<and> (of_char c :: nat) \<le> 57"

definition is_blank :: "char \<Rightarrow> bool" where
  "is_blank c \<longleftrightarrow> (of_char c :: nat) = 32 \<or> (9 \<le> (of_char c :: nat) \<and> (of_char c :: nat) \<le> 13)"

definition digits_value :: "string \<Rightarrow> int" where
  "digits_value s = foldl (\<lambda>a c. 10 * a + (of_char c - 48)) 0 (takeWhile is_digit s)"

definition atoi :: "string \<Rightarrow> int" where
  "atoi s = (case dropWhile is_blank s of
       [] \<Rightarrow> 0
     | c # cs \<Rightarrow> if c = CHR ''-'' then - digits_value cs
                else if c = CHR ''+'' then digits_value cs else digits_value (c # cs))"

type_synonym env = "string \<rightharpoonup> string"

definition GetEnv :: "env \<Rightarrow> string \<Rightarrow> int \<Rightarrow> int" where
  "GetEnv env k d = (case env k of None \<Rightarrow> d | Some v \<Rightarrow> atoi v)"

definition GetEnvBool :: "env \<Rightarrow> string \<Rightarrow> bool \<Rightarrow> bool" where
  "GetEnvBool env k d = (case env k of None \<Rightarrow> d | Some v \<Rightarrow> atoi v \<noteq> 0)"

definition env_notnull :: "env \<Rightarrow> string \<Rightarrow> int res" where
  "env_notnull env k = (case env k of None \<Rightarrow> Inl (Check k) | Some v \<Rightarrow> Inr (atoi v))"

definition init_role :: "env \<Rightarrow> Postoffice \<Rightarrow> Postoffice res" where
  "init_role env po =
     (case env ''DMLC_ROLE'' of
        None \<Rightarrow> Inr po
      | Some role \<Rightarrow>
          rbind (env_notnull env ''DMLC_NUM_WORKER'') (\<lambda>nw.
          rbind (env_notnull env ''DMLC_NUM_SERVER'') (\<lambda>ns.
            let master = GetEnvBool env ''DMLC_ROLE_MASTER_WORKER'' False in
            chk (master \<longrightarrow> role = ''worker'') ''is_worker_''
              (Inr (po\<lparr>po_is_worker := (role = ''worker''), po_is_server := (role = ''server''),
                 po_is_scheduler := (role = ''scheduler''), po_num_workers := nw,
                 po_num_servers := ns, po_is_master_worker := master\<rparr>)))))"

definition init_role_global :: "env \<Rightarrow> Postoffice \<Rightarrow> Postoffice" where
  "init_role_global env po =
     (case env ''DMLC_ROLE_GLOBAL'' of
        None \<Rightarrow> po
      | Some role \<Rightarrow>
          let gs = (role = ''global_server'') in
          po\<lparr>po_is_global_scheduler := (role = ''global_scheduler''), po_is_global_server := gs,
             po_is_server := (gs \<or> po_is_server po)\<rparr>)"

definition init_global_counts :: "env \<Rightarrow> Postoffice \<Rightarrow> Postoffice res" where
  "init_global_counts env po =
     (if po_is_server po \<or> po_is_global_scheduler po
      then rbind (env_notnull env ''DMLC_NUM_GLOBAL_WORKER'') (\<lambda>gw.
           rbind (env_notnull env ''DMLC_NUM_GLOBAL_SERVER'') (\<lambda>gs.
             Inr (po\<lparr>po_num_global_workers := gw, po_num_global_servers := gs\<rparr>)))
      else Inr po)"

definition init_all_workers :: "env \<Rightarrow> Postoffice \<Rightarrow> Postoffice res" where
  "init_all_workers env po =
     (if po_is_worker po \<or> po_is_global_server po
      then rbind (env_notnull env ''DMLC_NUM_ALL_WORKER'') (\<lambda>n.
             Inr (po\<lparr>po_num_all_workers := n\<rparr>))
      else Inr po)"

definition InitEnvironment :: "env \<Rightarrow> Postoffice \<Rightarrow> Postoffice res" where
  "InitEnvironment env po0 =
     rbind (init_role env (po0\<lparr>po_verbose := GetEnv env ''PS_VERBOSE'' 0\<rparr>)) (\<lambda>po1.
     rbind (init_global_counts env (init_role_global env po1)) (\<lambda>po2.
     rbind (init_all_workers env po2) (\<lambda>po3.
       let po4 = (if po_is_global_server po3
                  then po3\<lparr>po_enable_central_workers := GetEnvBool env ''DMLC_ENABLE_CENTRAL_WORKER'' False\<rparr>
                  else po3) in
       if po_is_server po4 \<and> \<not> po_is_global_server po4
       then chk (po_num_servers po4 = 1) ''load balance at the first layer is not supported.'' (Inr po4)
       else Inr po4)))"

subsection \<open>Ranks and ids\<close>

definition WorkerRankToID :: "int \<Rightarrow> bool \<Rightarrow> int" where
  "WorkerRankToID rank is_global = (if is_global then rank * 2 + 9 else kOffset + rank * 2 + 1)"

definition ServerRankToID :: "int \<Rightarrow> bool \<Rightarrow> int" where
  "ServerRankToID rank is_global = (if is_global then rank * 2 + 8 else kOffset + rank * 2)"

definition IDtoRank :: "int \<Rightarrow> int" where
  "IDtoRank i = (if i < kOffset then max (cdiv (i - 8) 2) 0 else max (cdiv (i - kOffset) 2) 0)"

subsection \<open>Node groups\<close>

definition push_node :: "int \<Rightarrow> int \<Rightarrow> (int \<rightharpoonup> int list) \<Rightarrow> (int \<rightharpoonup> int list)" where
  "push_node g i m = m(g \<mapsto> (case m g of None \<Rightarrow> [i] | Some xs \<Rightarrow> xs @ [i]))"

definition push_groups :: "int list \<Rightarrow> int \<Rightarrow> (int \<rightharpoonup> int list) \<Rightarrow> (int \<rightharpoonup> int list)" where
  "push_groups gs i m = fold (\<lambda>g m. push_node g i m) gs m"

definition push_nodes :: "(int \<Rightarrow> int) \<Rightarrow> int list \<Rightarrow> int \<Rightarrow> (int \<rightharpoonup> int list) \<Rightarrow> (int \<rightharpoonup> int list)" where
  "push_nodes rank_to_id groups n m =
     fold (\<lambda>i m. push_groups (rank_to_id (int i) # groups) (rank_to_id (int i)) m) [0..<nat n] m"

text \<open>The node table of \<open>Start\<close>: workers, then servers, then the scheduler.\<close>

definition start_node_ids :: "int \<Rightarrow> int \<Rightarrow> (int \<rightharpoonup> int list) \<Rightarrow> (int \<rightharpoonup> int list)" where
  "start_node_ids num_workers num_servers m =
     push_groups [kScheduler, kScheduler + kServerGroup + kWorkerGroup, kScheduler + kWorkerGroup,
                  kScheduler + kServerGroup] kScheduler
       (push_nodes (\<lambda>i. ServerRankToID i False)
          [kServerGroup, kWorkerGroup + kServerGroup, kServerGroup + kScheduler,
           kWorkerGroup + kServerGroup + kScheduler] num_servers
         (push_nodes (\<lambda>i. WorkerRankToID i False)
            [kWorkerGroup, kWorkerGroup + kServerGroup, kWorkerGroup + kScheduler,
             kWorkerGroup + kServerGroup + kScheduler] num_workers m))"

definition Start_init :: "env \<Rightarrow> Postoffice \<Rightarrow> Postoffice res" where
  "Start_init env po =
     (if po_init_stage po = 0
      then rbind (InitEnvironment env po) (\<lambda>po1.
             Inr (po1\<lparr>po_node_ids := start_node_ids (po_num_workers po1) (po_num_servers po1) (po_node_ids po1),
                      po_init_stage := po_init_stage po1 + 1\<rparr>))
      else Inr po)"

definition Start_time :: "int \<Rightarrow> Postoffice \<Rightarrow> Postoffice" where
  "Start_time now po =
     (if po_init_stage po = 1
      then po\<lparr>po_start_time := now, po_init_stage := po_init_stage po + 1\<rparr> else po)"

definition StartGlobal_nodes :: "Postoffice \<Rightarrow> Postoffice" where
  "StartGlobal_nodes po =
     po\<lparr>po_node_global_ids :=
       push_groups [kSchedulerGlobal, kSchedulerGlobal + kWorkerGroupGlobal,
                    kSchedulerGlobal + kServerGroupGlobal,
                    kSchedulerGlobal + kWorkerGroupGlobal + kServerGroupGlobal] kSchedulerGlobal
         (push_nodes (\<lambda>i. ServerRankToID i True)
            [kServerGroupGlobal, kWorkerGroupGlobal + kServerGroupGlobal,
             kServerGroupGlobal + kSchedulerGlobal,
             kWorkerGroupGlobal + kServerGroupGlobal + kSchedulerGlobal] (po_num_global_servers po)
           (push_nodes (\<lambda>i. WorkerRankToID i True)
              [kWorkerGroupGlobal, kWorkerGroupGlobal + kServerGroupGlobal,
               kWorkerGroupGlobal + kSchedulerGlobal,
               kWorkerGroupGlobal + kServerGroupGlobal + kSchedulerGlobal] (po_num_global_workers po)
              (po_node_global_ids po)))\<rparr>"

definition GetNodeIDs :: "Postoffice \<Rightarrow> int \<Rightarrow> bool \<Rightarrow> int list res" where
  "GetNodeIDs po node_id is_global =
     (case (if is_global then po_node_global_ids po else po_node_ids po) node_id of
        None \<Rightarrow> Inl (Check ''node doesn't exist'')
      | Some ids \<Rightarrow> Inr ids)"

subsection \<open>Key ranges\<close>

definition GetServerKeyRanges :: "Postoffice \<Rightarrow> bool \<Rightarrow> Postoffice \<times> Range list" where
  "GetServerKeyRanges po is_global =
     (let cached = (if is_global then po_server_key_ranges_global po else po_server_key_ranges po);
          num_servers = (if is_global then po_num_global_servers po else po_num_servers po);
          q = kMaxKey div word_of_int num_servers;
          ranges = (if cached = []
                    then map (\<lambda>i. mk_Range (q * of_nat i) (q * of_nat (i + 1))) [0..<nat num_servers]
                    else cached)
      in (if is_global then po\<lparr>po_server_key_ranges_global := ranges\<rparr>
          else po\<lparr>po_server_key_ranges := ranges\<rparr>, ranges))"

subsection \<open>Customers\<close>

text \<open>Customer objects are named by numbers; the table maps an app to its customers.\<close>

definition app_customers :: "Postoffice \<Rightarrow> int \<Rightarrow> (int \<times> nat) list" where
  "app_customers po app = (case po_customers po app of None \<Rightarrow> [] | Some cs \<Rightarrow> cs)"

definition AddCustomer :: "int \<Rightarrow> int \<Rightarrow> nat \<Rightarrow> Postoffice \<Rightarrow> Postoffice res" where
  "AddCustomer app_id customer_id customer po =
     chk (map_of (app_customers po app_id) customer_id = None) ''customer_id already exists''
       (Inr (po\<lparr>po_customers := (po_customers po)(app_id \<mapsto> AList.update customer_id customer (app_customers po app_id)),
                po_barrier_done := (po_barrier_done po)(app_id :=
                  (case map_of (po_barrier_done po app_id) customer_id of
                     None \<Rightarrow> AList.update customer_id False (po_barrier_done po app_id)
                   | Some _ \<Rightarrow> po_barrier_done po app_id))\<rparr>))"

definition RemoveCustomer :: "int \<Rightarrow> int \<Rightarrow> Postoffice \<Rightarrow> Postoffice" where
  "RemoveCustomer app_id customer_id po =
     (let cs = AList.delete customer_id (app_customers po app_id) in
      po\<lparr>po_customers := (po_customers po)(app_id := (if cs = [] then None else Some cs))\<rparr>)"

text \<open>
  One poll of \<open>GetCustomer\<close>: \<open>None\<close> means the application is not registered yet (sleep and
  retry); \<open>Some c\<close> ends the loop with \<open>c\<close>, which is null when the customer is missing.
\<close>

definition GetCustomer_poll :: "Postoffice \<Rightarrow> int \<Rightarrow> int \<Rightarrow> nat option option" where
  "GetCustomer_poll po app_id customer_id = map_option (\<lambda>cs. map_of cs customer_id) (po_customers po app_id)"

text \<open>
  The polling loop over the states the postoffice goes through, one per millisecond, at
  most \<open>timeout * 1000 + 1\<close> of them.
\<close>

fun GetCustomer_loop :: "Postoffice list \<Rightarrow> int \<Rightarrow> int \<Rightarrow> nat option" where
  "GetCustomer_loop [] app_id customer_id = None"
| "GetCustomer_loop (po # pos) app_id customer_id =
     (case GetCustomer_poll po app_id customer_id of
        None \<Rightarrow> GetCustomer_loop pos app_id customer_id
      | Some c \<Rightarrow> c)"

definition GetCustomer :: "Postoffice list \<Rightarrow> int \<Rightarrow> int \<Rightarrow> int \<Rightarrow> nat option" where
  "GetCustomer states app_id customer_id timeout =
     GetCustomer_loop (take (nat (timeout * 1000 + 1)) states) app_id customer_id"

subsection \<open>Barriers\<close>

definition barrier_role_ok :: "Role \<Rightarrow> int \<Rightarrow> bool \<Rightarrow> bool" where
  "barrier_role_ok role grp is_global =
     (case role of
        SCHEDULER \<Rightarrow> grp AND kScheduler \<noteq> 0
      | WORKER \<Rightarrow> grp AND kWorkerGroup \<noteq> 0
      | GLOBAL_SCHEDULER \<Rightarrow> grp AND kSchedulerGlobal \<noteq> 0
      | GLOBAL_SERVER \<Rightarrow> grp AND kServerGroupGlobal \<noteq> 0
      | SERVER \<Rightarrow> (if is_global then grp AND kWorkerGroupGlobal \<noteq> 0 else grp AND kServerGroup \<noteq> 0)
      | OtherRole _ \<Rightarrow> True)"

text \<open>The request \<open>Barrier\<close> sends; \<open>None\<close> when the group has at most one member.\<close>

definition Barrier_request :: "Postoffice \<Rightarrow> Role \<Rightarrow> int \<Rightarrow> int \<Rightarrow> bool \<Rightarrow> int \<Rightarrow> Message option res" where
  "Barrier_request po role customer_id node_group is_global ts =
     rbind (GetNodeIDs po node_group is_global) (\<lambda>ids.
       if length ids \<le> 1 then Inr None
       else chk (barrier_role_ok role node_group is_global) ''node_group''
         (Inr (Some (empty_Message\<lparr>msg_meta := empty_Meta\<lparr>
            m_recver := (if is_global then kSchedulerGlobal else kScheduler),
            m_request := True,
            m_app_id := 0,
            m_customer_id := customer_id,
            m_timestamp := ts,
            m_control := empty_Control\<lparr>c_cmd := (if is_global then BARRIER_GLOBAL else BARRIER),
                                       c_barrier_group := node_group\<rparr>\<rparr>\<rparr>))))"

text \<open>After the send, \<open>Barrier\<close> clears its flag and waits until it is set.\<close>

definition Barrier_clear :: "int \<Rightarrow> bool \<Rightarrow> Postoffice \<Rightarrow> Postoffice" where
  "Barrier_clear customer_id is_global po =
     (if is_global
      then po\<lparr>po_barrier_global_done := (po_barrier_global_done po)(0 :=
                AList.update customer_id False (po_barrier_global_done po 0))\<rparr>
      else po\<lparr>po_barrier_done := (po_barrier_done po)(0 :=
                AList.update customer_id False (po_barrier_done po 0))\<rparr>)"

definition Barrier_passed :: "int \<Rightarrow> bool \<Rightarrow> Postoffice \<Rightarrow> bool" where
  "Barrier_passed customer_id is_global po =
     (map_of ((if is_global then po_barrier_global_done po else po_barrier_done po) 0) customer_id = Some True)"

text \<open>
  The loop of \<open>Manage\<close> over the customer indices. Its bound is the size of the table it
  writes to, and writing a missing index inserts it, so the loop may extend its own bound.
\<close>

partial_function (option) manage_loop :: "nat \<Rightarrow> (int \<times> bool) list \<Rightarrow> (int \<times> bool) list option" where
  "manage_loop customer_id flags =
     (if customer_id < length flags
      then manage_loop (Suc customer_id) (AList.update (int customer_id) True flags)
      else Some flags)"

definition Manage :: "Message \<Rightarrow> bool \<Rightarrow> Postoffice \<Rightarrow> Postoffice option res" where
  "Manage recv is_global po =
     (let meta = msg_meta recv; ctrl = m_control meta in
      chk (\<not> control_empty ctrl) ''!recv.meta.control.empty()''
        (if c_cmd ctrl = (if is_global then BARRIER_GLOBAL else BARRIER) \<and> \<not> m_request meta
         then Inr (if is_global
           then map_option (\<lambda>t. po\<lparr>po_barrier_global_done := (po_barrier_global_done po)(m_app_id meta := t)\<rparr>)
                  (manage_loop 0 (po_barrier_global_done po (m_app_id meta)))
           else map_option (\<lambda>t. po\<lparr>po_barrier_done := (po_barrier_done po)(m_app_id meta := t)\<rparr>)
                  (manage_loop 0 (po_barrier_done po (m_app_id meta))))
         else Inr (Some po)))"

subsection \<open>Shutdown\<close>

datatype finalize_action = FinBarrier int int bool | FinStop bool | FinCallback

definition Finalize :: "Postoffice \<Rightarrow> int \<Rightarrow> bool \<Rightarrow> bool \<Rightarrow> bool \<Rightarrow> finalize_action list" where
  "Finalize po customer_id do_barrier is_global has_callback =
     (let barrier_group = (if is_global then kWorkerGroupGlobal + kServerGroupGlobal + kSchedulerGlobal
                           else kWorkerGroup + kServerGroup + kScheduler) in
      (if do_barrier then [FinBarrier customer_id barrier_group is_global] else []) @
      (if (is_global \<and> (po_is_server po \<or> po_is_global_server po \<or> po_is_global_scheduler po) \<and> customer_id = 0)
          \<or> (\<not> is_global \<and> (po_is_worker po \<or> po_is_scheduler po) \<and> customer_id = 0)
       then FinStop is_global # (if has_callback then [FinCallback] else []) else []))"

subsection \<open>Heartbeats\<close>

definition UpdateHeartbeat :: "int \<Rightarrow> int \<Rightarrow> Postoffice \<Rightarrow> Postoffice" where
  "UpdateHeartbeat node_id t po = po\<lparr>po_heartbeats := (po_heartbeats po)(node_id \<mapsto> t)\<rparr>"

definition node_dead :: "Postoffice \<Rightarrow> int \<Rightarrow> int \<Rightarrow> int \<Rightarrow> bool" where
  "node_dead po t curr_time r \<longleftrightarrow>
     (case po_heartbeats po r of None \<Rightarrow> True | Some h \<Rightarrow> h + t < curr_time) \<and> po_start_time po + t < curr_time"

definition GetDeadNodes :: "Postoffice \<Rightarrow> bool \<Rightarrow> int \<Rightarrow> int \<Rightarrow> int list res" where
  "GetDeadNodes po van_ready t curr_time =
     (if \<not> van_ready \<or> t = 0 then Inr []
      else rbind (if po_is_scheduler po then GetNodeIDs po (kWorkerGroup + kServerGroup) False
                  else GetNodeIDs po kScheduler False)
             (\<lambda>nodes. Inr (filter (node_dead po t curr_time) nodes)))"

subsection \<open>Membership of node groups\<close>

definition ids_of :: "(int \<rightharpoonup> int list) \<Rightarrow> int \<Rightarrow> int list" where
  "ids_of m g = (case m g of None \<Rightarrow> [] | Some xs \<Rightarrow> xs)"

lemma ids_of_empty [simp]: "ids_of Map.empty g = []"
  by (simp add: ids_of_def)

lemma ids_of_push_node: "ids_of (push_node h i m) g = ids_of m g @ (if g = h then [i] else [])"
  by (simp add: ids_of_def push_node_def split: option.splits)

lemma ids_of_push_groups:
  "distinct gs \<Longrightarrow> ids_of (push_groups gs i m) g = ids_of m g @ (if g \<in> set gs then [i] else [])"
  by (induction gs arbitrary: m) (auto simp: push_groups_def ids_of_push_node)

lemma ids_of_push_nodes:
  assumes "distinct gs" and "\<forall>i < nat n. f (int i) \<notin> set gs"
  shows "ids_of (push_nodes f gs n m) g = ids_of m g @
    concat (map (\<lambda>i. if g = f (int i) \<or> g \<in> set gs then [f (int i)] else []) [0..<nat n])"
proof -
  have "\<forall>i < k. f (int i) \<notin> set gs \<Longrightarrow>
    ids_of (fold (\<lambda>i m. push_groups (f (int i) # gs) (f (int i)) m) [0..<k] m) g = ids_of m g @
    concat (map (\<lambda>i. if g = f (int i) \<or> g \<in> set gs then [f (int i)] else []) [0..<k])" for k
    using assms(1) by (induction k) (auto simp: ids_of_push_groups)
  with assms(2) show ?thesis by (simp add: push_nodes_def)
qed

lemma ids_of_push_nodes_group:
  assumes "distinct gs" "\<forall>i < nat n. f (int i) \<notin> set gs" "\<forall>i < nat n. g \<noteq> f (int i)"
  shows "ids_of (push_nodes f gs n m) g =
    ids_of m g @ (if g \<in> set gs then map (\<lambda>i. f (int i)) [0..<nat n] else [])"
  using assms(3) by (subst ids_of_push_nodes[OF assms(1,2)], subst concat_map_if) auto

lemma ids_of_push_nodes_self:
  assumes "distinct gs" "\<forall>i < nat n. f (int i) \<notin> set gs" "inj f" "r < nat n"
  shows "ids_of (push_nodes f gs n m) (f (int r)) = ids_of m (f (int r)) @ [f (int r)]"
  using assms(2-4)
  by (subst ids_of_push_nodes[OF assms(1,2)], subst concat_select[where y = r]) (auto simp: inj_eq)

definition no_empty_group :: "(int \<rightharpoonup> int list) \<Rightarrow> bool" where
  "no_empty_group m \<longleftrightarrow> (\<forall>g. m g \<noteq> Some [])"

lemma no_empty_push_groups: "no_empty_group m \<Longrightarrow> no_empty_group (push_groups gs i m)"
proof (induction gs arbitrary: m)
  case (Cons g gs)
  have "no_empty_group (push_node g i m)"
    using Cons.prems by (auto simp: no_empty_group_def push_node_def split: option.splits)
  then show ?case using Cons.IH by (simp add: push_groups_def)
qed (simp add: push_groups_def)

lemma no_empty_push_nodes: "no_empty_group m \<Longrightarrow> no_empty_group (push_nodes f gs n m)"
proof -
  assume m: "no_empty_group m"
  have "no_empty_group (fold (\<lambda>i m. push_groups (f (int i) # gs) (f (int i)) m) [0..<k] m)" for k
    using m by (induction k) (auto intro: no_empty_push_groups)
  then show ?thesis by (simp add: push_nodes_def)
qed

text \<open>
  The numbering a layer uses: ids of workers and servers lie above the group numbers and are
  distinct. Both layers of the source satisfy it.
\<close>

locale node_numbering =
  fixes worker_id :: "int \<Rightarrow> int" and server_id :: "int \<Rightarrow> int"
  assumes worker_above: "0 \<le> i \<Longrightarrow> 7 < worker_id i"
    and server_above: "0 \<le> i \<Longrightarrow> 7 < server_id i"
    and worker_inj: "inj worker_id"
    and server_inj: "inj server_id"
    and worker_not_server: "worker_id i \<noteq> server_id j"
begin

abbreviation layer :: "int list \<Rightarrow> int \<Rightarrow> int \<Rightarrow> (int \<rightharpoonup> int list)" where
  "layer sched_groups nw ns \<equiv>
     push_groups sched_groups 1
       (push_nodes server_id [2, 6, 3, 7] ns (push_nodes worker_id [4, 6, 5, 7] nw Map.empty))"

lemma worker_outside: "\<forall>i < n. worker_id (int i) \<notin> {4, 6, 5, 7}"
proof -
  have "worker_id (int i) \<notin> {4, 6, 5, 7}" for i using worker_above[of "int i"] by auto
  then show ?thesis by blast
qed

lemma server_outside: "\<forall>i < n. server_id (int i) \<notin> {2, 6, 3, 7}"
proof -
  have "server_id (int i) \<notin> {2, 6, 3, 7}" for i using server_above[of "int i"] by auto
  then show ?thesis by blast
qed

lemmas outside_groups = worker_outside server_outside

lemma group_not_node: "g \<le> 7 \<Longrightarrow> g \<noteq> worker_id (int i) \<and> g \<noteq> server_id (int i)"
  using worker_above[of "int i"] server_above[of "int i"] by auto

lemma layer_members:
  assumes "1 \<le> g" "g \<le> 7" "distinct sg" "set sg = {1, 3, 5, 7}"
  shows "ids_of (layer sg nw ns) g =
    (if g AND 4 \<noteq> 0 then map (\<lambda>i. worker_id (int i)) [0..<nat nw] else []) @
    (if g AND 2 \<noteq> 0 then map (\<lambda>i. server_id (int i)) [0..<nat ns] else []) @
    (if g AND 1 \<noteq> 0 then [1] else [])"
proof -
  have w: "\<forall>i < nat nw. g \<noteq> worker_id (int i)" and s: "\<forall>i < nat ns. g \<noteq> server_id (int i)"
    using group_not_node[OF assms(2)] by simp_all
  have "g \<in> {1,2,3,4,5,6,7}" using assms(1,2) by auto
  then have "g AND 4 \<noteq> 0 \<longleftrightarrow> g \<in> {4, 6, 5, 7}" "g AND 2 \<noteq> 0 \<longleftrightarrow> g \<in> {2, 6, 3, 7}"
    "g AND 1 \<noteq> 0 \<longleftrightarrow> g \<in> {1, 3, 5, 7}"
    by auto
  then show ?thesis
    using outside_groups w s assms(3,4) by (simp add: ids_of_push_groups ids_of_push_nodes_group)
qed

lemma layer_worker:
  assumes "r < nat nw" "distinct sg" "set sg = {1, 3, 5, 7}"
  shows "ids_of (layer sg nw ns) (worker_id (int r)) = [worker_id (int r)]"
proof -
  have "worker_id (int r) \<notin> set sg" "worker_id (int r) \<notin> {2, 6, 3, 7}"
    using worker_above[of "int r"] assms by auto
  then show ?thesis
    using outside_groups worker_not_server assms worker_inj
    by (simp add: ids_of_push_groups ids_of_push_nodes_group ids_of_push_nodes_self)
qed

lemma layer_server:
  assumes "r < nat ns" "distinct sg" "set sg = {1, 3, 5, 7}"
  shows "ids_of (layer sg nw ns) (server_id (int r)) = [server_id (int r)]"
proof -
  have "server_id (int r) \<notin> set sg" "server_id (int r) \<notin> {4, 6, 5, 7}"
    using server_above[of "int r"] assms by auto
  then show ?thesis
    using outside_groups worker_not_server[symmetric] assms server_inj
    by (simp add: ids_of_push_groups ids_of_push_nodes_group ids_of_push_nodes_self)
qed

lemma layer_no_empty: "no_empty_group (layer sg nw ns)"
  by (intro no_empty_push_groups no_empty_push_nodes) (simp add: no_empty_group_def)

end

interpretation party: node_numbering "\<lambda>i. WorkerRankToID i False" "\<lambda>i. ServerRankToID i False"
  by unfold_locales (auto simp: WorkerRankToID_def ServerRankToID_def kOffset_def inj_def, presburger)

interpretation global: node_numbering "\<lambda>i. WorkerRankToID i True" "\<lambda>i. ServerRankToID i True"
  by unfold_locales (auto simp: WorkerRankToID_def ServerRankToID_def inj_def, presburger)

lemma start_node_ids_layer:
  "start_node_ids nw ns Map.empty = party.layer [1, 7, 5, 3] nw ns"
  by (simp add: start_node_ids_def group_consts)

lemma StartGlobal_nodes_layer:
  "po_node_global_ids po = Map.empty \<Longrightarrow>
   po_node_global_ids (StartGlobal_nodes po) =
     global.layer [1, 5, 3, 7] (po_num_global_workers po) (po_num_global_servers po)"
  by (simp add: StartGlobal_nodes_def group_consts)

subsection \<open>Node tables after start-up\<close>

lemma init_role_node_ids: "init_role env po = Inr po' \<Longrightarrow> po_node_ids po' = po_node_ids po"
  by (auto simp: init_role_def res_simps Let_def split: option.splits)

lemma init_role_global_node_ids [simp]: "po_node_ids (init_role_global env po) = po_node_ids po"
  by (simp add: init_role_global_def Let_def split: option.split)

lemma init_global_counts_node_ids:
  "init_global_counts env po = Inr po' \<Longrightarrow> po_node_ids po' = po_node_ids po"
  by (auto simp: init_global_counts_def res_simps split: if_splits)

lemma init_all_workers_node_ids:
  "init_all_workers env po = Inr po' \<Longrightarrow> po_node_ids po' = po_node_ids po"
  by (auto simp: init_all_workers_def res_simps split: if_splits)

lemma InitEnvironment_node_ids:
  "InitEnvironment env po = Inr po' \<Longrightarrow> po_node_ids po' = po_node_ids po"
  by (auto simp: InitEnvironment_def res_simps Let_def split: if_splits
      dest!: init_role_node_ids init_global_counts_node_ids init_all_workers_node_ids)

lemma Start_init_node_ids:
  assumes "Start_init env empty_Postoffice = Inr po"
  shows "po_node_ids po = party.layer [1, 7, 5, 3] (po_num_workers po) (po_num_servers po)"
proof -
  obtain po1 where po1: "InitEnvironment env empty_Postoffice = Inr po1"
    and po: "po = po1\<lparr>po_node_ids := start_node_ids (po_num_workers po1) (po_num_servers po1) (po_node_ids po1),
                 po_init_stage := po_init_stage po1 + 1\<rparr>"
    using assms by (auto simp: Start_init_def res_simps empty_Postoffice_def split: if_splits)
  have "po_node_ids po1 = po_node_ids empty_Postoffice"
    using po1 by (rule InitEnvironment_node_ids)
  then show ?thesis using po by (simp add: start_node_ids_layer empty_Postoffice_def)
qed

lemma Start_init_members:
  assumes "Start_init env empty_Postoffice = Inr po" "1 \<le> g" "g \<le> 7"
  shows "ids_of (party.layer [1, 7, 5, 3] (po_num_workers po) (po_num_servers po)) g =
    (if g AND kWorkerGroup \<noteq> 0 then map (\<lambda>i. WorkerRankToID (int i) False) [0..<nat (po_num_workers po)] else []) @
    (if g AND kServerGroup \<noteq> 0 then map (\<lambda>i. ServerRankToID (int i) False) [0..<nat (po_num_servers po)] else []) @
    (if g AND kScheduler \<noteq> 0 then [kScheduler] else [])"
  using party.layer_members[OF assms(2,3), of "[1, 7, 5, 3]"] by (simp add: group_consts insert_commute)

lemma GetNodeIDs_ids_of:
  assumes "no_empty_group (if is_global then po_node_global_ids po else po_node_ids po)"
  shows "GetNodeIDs po g is_global =
    (let ids = ids_of (if is_global then po_node_global_ids po else po_node_ids po) g in
     if ids = [] then Inl (Check ''node doesn't exist'') else Inr ids)"
  using assms by (cases is_global) (auto simp: GetNodeIDs_def ids_of_def no_empty_group_def split: option.splits)

text \<open>
  C21: after \<open>Start\<close> on a fresh process, looking up a combination \<open>g\<close> of the group constants
  gives exactly the workers, the servers and the scheduler whose bit is set in \<open>g\<close>, in this
  order and in rank order, and fails the check when the combination is empty.
\<close>

theorem party_group_members:
  assumes "Start_init env empty_Postoffice = Inr po" "1 \<le> g" "g \<le> 7"
  shows "GetNodeIDs po g False =
    (let ids = (if g AND kWorkerGroup \<noteq> 0 then map (\<lambda>i. WorkerRankToID (int i) False) [0..<nat (po_num_workers po)] else []) @
               (if g AND kServerGroup \<noteq> 0 then map (\<lambda>i. ServerRankToID (int i) False) [0..<nat (po_num_servers po)] else []) @
               (if g AND kScheduler \<noteq> 0 then [kScheduler] else [])
     in if ids = [] then Inl (Check ''node doesn't exist'') else Inr ids)"
  using assms(2,3) party.layer_no_empty
  by (subst GetNodeIDs_ids_of) (simp_all add: Start_init_node_ids[OF assms(1)] Start_init_members[OF assms(1)])

definition scheduler_env :: env where
  "scheduler_env = map_of [(''DMLC_ROLE'', ''scheduler''), (''DMLC_NUM_WORKER'', ''2''), (''DMLC_NUM_SERVER'', ''1'')]"

definition scheduler_postoffice :: Postoffice where
  "scheduler_postoffice = empty_Postoffice\<lparr>po_is_scheduler := True, po_num_workers := 2, po_num_servers := 1,
     po_node_ids := start_node_ids 2 1 Map.empty, po_init_stage := 1\<rparr>"

lemma scheduler_start: "Start_init scheduler_env empty_Postoffice = Inr scheduler_postoffice"
  by (simp add: Start_init_def InitEnvironment_def init_role_def init_role_global_def
      init_global_counts_def init_all_workers_def scheduler_env_def scheduler_postoffice_def
      env_notnull_def GetEnv_def GetEnvBool_def atoi_def digits_value_def is_digit_def is_blank_def
      empty_Postoffice_def)

theorem party_group_members_witness:
  "GetNodeIDs scheduler_postoffice 7 False = Inr [101, 103, 100, 1]"
  using party_group_members[OF scheduler_start, of 7]
  by (simp add: scheduler_postoffice_def group_consts WorkerRankToID_def ServerRankToID_def kOffset_def upt_rec)



lemma rank_id_global_limit: "IDtoRank (ServerRankToID 46 True) = 0"
  by (simp add: IDtoRank_def ServerRankToID_def kOffset_def cdiv_def)

subsection \<open>Key ranges tile the key space\<close>

lemma unat_kMaxKey: "unat kMaxKey = 2 ^ 64 - 1"
  by (simp add: kMaxKey_def unsigned_minus_1_eq_mask mask_eq_exp_minus_1)

lemma unat_range_bound:
  assumes "0 < n" "n < 2 ^ 31" "i \<le> nat n"
  shows "unat (kMaxKey div word_of_int n * of_nat i) = (2 ^ 64 - 1) div nat n * i"
proof -
  have "word_of_int n = (of_nat (nat n) :: 64 word)" using assms by simp
  moreover have "nat n < 2 ^ 64" using assms by simp
  ultimately have n: "unat (word_of_int n :: 64 word) = nat n"
    by (simp only: unat_of_nat_small)
  have i: "unat (of_nat i :: 64 word) = i"
    using assms by (intro unat_of_nat_small) simp
  have q: "unat (kMaxKey div word_of_int n) = (2 ^ 64 - 1) div nat n"
    by (simp only: unat_div n unat_kMaxKey)
  have "(2 ^ 64 - 1) div nat n * i \<le> (2 ^ 64 - 1) div nat n * nat n"
    using assms by simp
  also have "\<dots> \<le> 2 ^ 64 - 1" by simp
  also have "\<dots> < (2 ^ 64 :: nat)" by simp
  finally show ?thesis
    by (subst unat_mult_small) (simp_all only: q i)
qed

definition fresh_ranges :: "Postoffice \<Rightarrow> bool \<Rightarrow> bool" where
  "fresh_ranges po is_global \<longleftrightarrow>
     (if is_global then po_server_key_ranges_global po = [] else po_server_key_ranges po = [])"

definition num_servers_of :: "Postoffice \<Rightarrow> bool \<Rightarrow> int" where
  "num_servers_of po is_global = (if is_global then po_num_global_servers po else po_num_servers po)"

lemma ranges_nth:
  assumes "fresh_ranges po g" "i < nat (num_servers_of po g)"
  shows "snd (GetServerKeyRanges po g) ! i =
    mk_Range (kMaxKey div word_of_int (num_servers_of po g) * of_nat i)
             (kMaxKey div word_of_int (num_servers_of po g) * of_nat (i + 1))"
  using assms by (simp add: GetServerKeyRanges_def fresh_ranges_def num_servers_of_def Let_def)

lemma ranges_length:
  "fresh_ranges po g \<Longrightarrow> length (snd (GetServerKeyRanges po g)) = nat (num_servers_of po g)"
  by (simp add: GetServerKeyRanges_def fresh_ranges_def num_servers_of_def Let_def)

definition two_server_postoffice :: Postoffice where
  "two_server_postoffice = empty_Postoffice\<lparr>po_num_global_servers := 2\<rparr>"


subsection \<open>Barrier flags\<close>

lemma manage_loop_releases:
  assumes "distinct (map fst fl)" "fst ` set fl \<subseteq> {0..int M}" "{0..<int k} \<subseteq> fst ` set fl"
    "int M \<in> fst ` set fl" "\<forall>j<k. map_of fl (int j) = Some True" "k \<le> Suc M"
  shows "\<exists>t. manage_loop k fl = Some t \<and> (\<forall>j\<le>M. map_of t (int j) = Some True) \<and> fst ` set t = {0..int M}"
  using assms
proof (induction "Suc M - k" arbitrary: k fl)
  case 0
  then have k: "k = Suc M" by simp
  have keys: "fst ` set fl = {0..int M}" using 0(3,4) k by force
  have "length fl = Suc M" using length_keys[OF 0(2)] keys by simp
  then have "manage_loop k fl = Some fl" using k by (subst manage_loop.simps) simp
  with 0(6) k keys show ?case by auto
next
  case (Suc d)
  let ?u = "AList.update (int k) True fl"
  have kM: "k \<le> M" using Suc(2) by simp
  have "card (insert (int M) {0..<int k}) \<le> card (fst ` set fl)"
    using Suc.prems(3,4) by (intro card_mono) auto
  then have "k < length fl" using kM length_keys[OF Suc.prems(1)] by simp
  then have step: "manage_loop k fl = manage_loop (Suc k) ?u"
    by (subst manage_loop.simps) simp
  have "{0..<int (Suc k)} = insert (int k) {0..<int k}" by auto
  then have "\<exists>t. manage_loop (Suc k) ?u = Some t \<and> (\<forall>j\<le>M. map_of t (int j) = Some True) \<and> fst ` set t = {0..int M}"
    using Suc.prems kM Suc(2)
    by (intro Suc.hyps(1)) (auto simp: keys_update distinct_update update_conv' less_Suc_eq)
  with step show ?case by simp
qed
text \<open>
  C30: a barrier response releases every customer of the application that is waiting. The
  loop of \<open>Manage\<close> terminates although it may extend the table it runs over, and afterwards
  every customer registered with a non-negative id has its flag set.
\<close>

theorem Manage_releases_all:
  assumes "m_control (msg_meta recv) = c" "c_cmd c = BARRIER" "\<not> m_request (msg_meta recv)"
    and "distinct (map fst (po_barrier_done po (m_app_id (msg_meta recv))))"
    and "fst ` set (po_barrier_done po (m_app_id (msg_meta recv))) \<subseteq> {0..}"
    and "po_barrier_done po (m_app_id (msg_meta recv)) \<noteq> []"
  shows "\<exists>po'. Manage recv False po = Inr (Some po') \<and>
    (\<forall>cid \<in> fst ` set (po_barrier_done po (m_app_id (msg_meta recv))).
       map_of (po_barrier_done po' (m_app_id (msg_meta recv))) cid = Some True)"
proof -
  let ?fl = "po_barrier_done po (m_app_id (msg_meta recv))"
  define M where "M = nat (Max (fst ` set ?fl))"
  have fin: "finite (fst ` set ?fl)" and ne: "fst ` set ?fl \<noteq> {}" using assms(6) by auto
  have M: "int M = Max (fst ` set ?fl)"
    using Max_in[OF fin ne] assms(5) by (auto simp: M_def)
  have "fst ` set ?fl \<subseteq> {0..int M}" unfolding M using assms(5) Max_ge[OF fin] by (meson atLeastAtMost_iff atLeast_iff subset_iff)
  moreover have "int M \<in> fst ` set ?fl" using Max_in[OF fin ne] M by simp
  ultimately obtain t where t: "manage_loop 0 ?fl = Some t"
    "\<forall>j\<le>M. map_of t (int j) = Some True"
    using manage_loop_releases[OF assms(4), of M 0] by auto
  have "map_of t cid = Some True" if "cid \<in> fst ` set ?fl" for cid
  proof -
    have "0 \<le> cid" using assms(5) that by auto
    then show ?thesis using t(2)[rule_format, of "nat cid"] Max_ge[OF fin that] M by simp
  qed
  then show ?thesis
    using assms(1-3) t(1) by (simp add: Manage_def Let_def control_empty_def)
qed

definition barrier_response :: Message where
  "barrier_response = empty_Message\<lparr>msg_meta := empty_Meta\<lparr>m_app_id := 0,
     m_control := empty_Control\<lparr>c_cmd := BARRIER\<rparr>\<rparr>\<rparr>"

theorem Manage_releases_all_witness:
  "\<exists>po'. Manage barrier_response False (empty_Postoffice\<lparr>po_barrier_done := (\<lambda>_. [(2, False), (0, False)])\<rparr>) = Inr (Some po') \<and>
     map_of (po_barrier_done po' 0) 2 = Some True \<and> map_of (po_barrier_done po' 0) 0 = Some True"
  using Manage_releases_all[of barrier_response _ "empty_Postoffice\<lparr>po_barrier_done := (\<lambda>_. [(2, False), (0, False)])\<rparr>", OF refl]
  by (simp add: barrier_response_def empty_Meta_def empty_Message_def empty_Control_def)

end
