(* ===== verification/Customers.thy ===== *)
theory Customers
  imports Postoffices
begin

text \<open>
  The message queues and the customers of ps-lite: \<^verbatim>\<open>threadsafe_queue.h\<close>, \<^verbatim>\<open>customer.h\<close> and
  \<^verbatim>\<open>customer.cc\<close>. A queue is the bag of messages it holds; popping is a relation, because the
  C++ standard does not fix which of several messages of the same priority a
  \<^verbatim>\<open>std::priority_queue\<close> yields. The receiving threads are step relations over a customer and
  the state of its handler.
\<close>

subsection \<open>Priority queues of messages\<close>

type_synonym msg_queue = "Message list"

definition msg_priority :: "Message \<Rightarrow> int" where
  "msg_priority m = m_priority (msg_meta m)"

definition queue_push :: "Message \<Rightarrow> msg_queue \<Rightarrow> msg_queue" where
  "queue_push m q = q @ [m]"

definition queue_empty :: "msg_queue \<Rightarrow> bool" where
  "queue_empty q \<longleftrightarrow> q = []"

definition queue_top :: "msg_queue \<Rightarrow> Message \<Rightarrow> bool" where
  "queue_top q m \<longleftrightarrow> m \<in> set q \<and> (\<forall>x \<in> set q. msg_priority x \<le> msg_priority m)"

inductive wait_and_pop :: "msg_queue \<Rightarrow> Message \<Rightarrow> msg_queue \<Rightarrow> bool" where
  pop: "queue_top q m \<Longrightarrow> wait_and_pop q m (remove1 m q)"

inductive_simps wait_and_pop_iff: "wait_and_pop q m q'"

lemma queue_top_exists:
  assumes "q \<noteq> []"
  shows "\<exists>m. queue_top q m"
proof -
  have "finite (msg_priority ` set q)" "msg_priority ` set q \<noteq> {}" using assms by auto
  then obtain m where "m \<in> set q" "msg_priority m = Max (msg_priority ` set q)"
    by (metis Max_in imageE)
  then show ?thesis by (auto simp: queue_top_def)
qed

text \<open>What the users of a queue rely on.\<close>

locale message_channel =
  fixes push :: "Message \<Rightarrow> 'q \<Rightarrow> 'q"
    and pop :: "'q \<Rightarrow> Message \<Rightarrow> 'q \<Rightarrow> bool"
    and contents :: "'q \<Rightarrow> Message multiset"
  assumes contents_push: "contents (push m q) = add_mset m (contents q)"
    and pop_contents: "pop q m q' \<Longrightarrow> contents q = add_mset m (contents q')"
    and pop_priority: "pop q m q' \<Longrightarrow> x \<in># contents q \<Longrightarrow> msg_priority x \<le> msg_priority m"
    and pop_progress: "contents q \<noteq> {#} \<Longrightarrow> \<exists>m q'. pop q m q'"
begin

text \<open>Draining a queue: the messages come out in the order of the list.\<close>

inductive drains :: "'q \<Rightarrow> Message list \<Rightarrow> 'q \<Rightarrow> bool" where
  stop: "drains q [] q"
| more: "pop q m q1 \<Longrightarrow> drains q1 ms q2 \<Longrightarrow> drains q (m # ms) q2"

lemma drains_contents: "drains q ms q' \<Longrightarrow> contents q = mset ms + contents q'"
  by (induction rule: drains.induct) (auto dest: pop_contents)

lemma drains_sorted: "drains q ms q' \<Longrightarrow> sorted_wrt (\<lambda>a b. msg_priority b \<le> msg_priority a) ms"
proof (induction rule: drains.induct)
  case (more q m q1 ms q2)
  have "msg_priority x \<le> msg_priority m" if "x \<in> set ms" for x
    using pop_priority[OF more.hyps(1)] pop_contents[OF more.hyps(1)] drains_contents[OF more.hyps(2)] that
    by (auto simp: in_multiset_in_set)
  with more.IH show ?case by simp
qed simp

lemma drains_all: "\<exists>ms q'. drains q ms q' \<and> contents q' = {#}"
proof (induction "size (contents q)" arbitrary: q)
  case 0
  then show ?case using stop by auto
next
  case (Suc n)
  then have "contents q \<noteq> {#}" by auto
  then obtain m q1 where pop: "pop q m q1" using pop_progress by blast
  then have "n = size (contents q1)" using Suc.hyps(2) pop_contents by fastforce
  from Suc.hyps(1)[OF this] obtain ms q' where "drains q1 ms q'" "contents q' = {#}" by blast
  then show ?case using more[OF pop] by blast
qed

end

interpretation tq: message_channel queue_push wait_and_pop mset
proof unfold_locales
  fix q m q' x
  show "mset (queue_push m q) = add_mset m (mset q)" by (simp add: queue_push_def)
  show "wait_and_pop q m q' \<Longrightarrow> mset q = add_mset m (mset q')"
    by (auto simp: wait_and_pop_iff queue_top_def)
  show "wait_and_pop q m q' \<Longrightarrow> x \<in># mset q \<Longrightarrow> msg_priority x \<le> msg_priority m"
    by (auto simp: wait_and_pop_iff queue_top_def)
  show "mset q \<noteq> {#} \<Longrightarrow> \<exists>m q'. wait_and_pop q m q'"
    using queue_top_exists[of q] by (auto simp: wait_and_pop_iff)
qed

subsection \<open>Customers\<close>

record Customer =
  cu_app_id :: int
  cu_customer_id :: int
  cu_recv_queue :: msg_queue
  cu_recv_pull_queue :: msg_queue
  cu_tracker :: "(int \<times> int) list"

definition new_Customer :: "int \<Rightarrow> int \<Rightarrow> Customer" where
  "new_Customer app_id customer_id = \<lparr>cu_app_id = app_id, cu_customer_id = customer_id,
     cu_recv_queue = [], cu_recv_pull_queue = [], cu_tracker = []\<rparr>"

text \<open>The constructor registers the customer; the destructor unregisters it and stops its threads.\<close>

definition terminate_msg :: Message where
  "terminate_msg = empty_Message\<lparr>msg_meta := empty_Meta\<lparr>m_control := empty_Control\<lparr>c_cmd := TERMINATE\<rparr>\<rparr>\<rparr>"

definition Customer_ctor :: "int \<Rightarrow> int \<Rightarrow> nat \<Rightarrow> Postoffice \<Rightarrow> (Postoffice \<times> Customer) res" where
  "Customer_ctor app_id customer_id this po =
     rbind (AddCustomer app_id customer_id this po) (\<lambda>po'. Inr (po', new_Customer app_id customer_id))"

definition Customer_dtor :: "Postoffice \<Rightarrow> Customer \<Rightarrow> Postoffice \<times> Customer" where
  "Customer_dtor po c =
     (RemoveCustomer (cu_app_id c) (cu_customer_id c) po,
      c\<lparr>cu_recv_queue := queue_push terminate_msg (cu_recv_queue c),
        cu_recv_pull_queue := (if po_is_server po then queue_push terminate_msg (cu_recv_pull_queue c)
                               else cu_recv_pull_queue c)\<rparr>)"

definition NewRequest :: "Postoffice \<Rightarrow> int \<Rightarrow> bool \<Rightarrow> Customer \<Rightarrow> (Customer \<times> int) res" where
  "NewRequest po recver is_global c =
     rbind (GetNodeIDs po recver is_global) (\<lambda>ids.
       Inr (c\<lparr>cu_tracker := cu_tracker c @ [(int (length ids), 0)]\<rparr>, int (length (cu_tracker c))))"

text \<open>The tracker is a vector; an index outside it is undefined behaviour.\<close>

definition tracked :: "Customer \<Rightarrow> int \<Rightarrow> bool" where
  "tracked c ts \<longleftrightarrow> 0 \<le> ts \<and> ts < int (length (cu_tracker c))"

definition WaitRequest_done :: "Customer \<Rightarrow> int \<Rightarrow> bool res" where
  "WaitRequest_done c ts = defined (tracked c ts) ''tracker_[timestamp]''
     (Inr (fst (cu_tracker c ! nat ts) = snd (cu_tracker c ! nat ts)))"

definition NumResponse :: "Customer \<Rightarrow> int \<Rightarrow> int res" where
  "NumResponse c ts = defined (tracked c ts) ''tracker_[timestamp]'' (Inr (snd (cu_tracker c ! nat ts)))"

definition AddResponse :: "int \<Rightarrow> int \<Rightarrow> Customer \<Rightarrow> Customer res" where
  "AddResponse ts num c = defined (tracked c ts) ''tracker_[timestamp]''
     (Inr (c\<lparr>cu_tracker := (cu_tracker c)[nat ts := (fst (cu_tracker c ! nat ts), snd (cu_tracker c ! nat ts) + num)]\<rparr>))"

definition valid_heads :: "int list" where
  "valid_heads = [0, 2, 3, 5, 6]"

definition is_pull_request :: "Message \<Rightarrow> bool" where
  "is_pull_request m \<longleftrightarrow> m_head (msg_meta m) \<in> set valid_heads \<and> cmod (m_sender (msg_meta m)) 2 = 1 \<and>
     m_request (msg_meta m) \<and> \<not> m_push (msg_meta m) \<and> \<not> m_simple_app (msg_meta m)"

definition Accept :: "Message \<Rightarrow> Customer \<Rightarrow> Customer" where
  "Accept m c =
     (if is_pull_request m then c\<lparr>cu_recv_pull_queue := queue_push m (cu_recv_pull_queue c)\<rparr>
      else c\<lparr>cu_recv_queue := queue_push m (cu_recv_queue c)\<rparr>)"

subsection \<open>The receiving threads\<close>

definition is_terminate :: "Message \<Rightarrow> bool" where
  "is_terminate m \<longleftrightarrow> \<not> control_empty (m_control (msg_meta m)) \<and> c_cmd (m_control (msg_meta m)) = TERMINATE"

definition is_response :: "int \<Rightarrow> Message \<Rightarrow> bool" where
  "is_response ts m \<longleftrightarrow> \<not> m_request (msg_meta m) \<and> m_timestamp (msg_meta m) = ts"

text \<open>What \<open>Receiving\<close> does with a message after its handler ran.\<close>

definition note_response :: "Message \<Rightarrow> Customer \<Rightarrow> Customer res" where
  "note_response m c = (if \<not> m_request (msg_meta m) then AddResponse (m_timestamp (msg_meta m)) 1 c else Inr c)"

text \<open>
  Everything that happens to a customer: the van's threads call \<open>Accept\<close>, applications call
  \<open>NewRequest\<close> and \<open>AddResponse\<close> at any time, and the two receiving threads pop, call the
  handler and, as a separate step, count the response. The handler's own state has type \<open>'s\<close>;
  the message whose handler has run and which is not yet counted is the middle component.
\<close>

datatype customer_event =
    Accepted Message
  | Requested int bool int
  | Added int int
  | Received Message
  | Noted Message
  | ReceivedPull Message

type_synonym 's customer_state = "Customer \<times> Message option \<times> 's"

inductive customer_step ::
  "Postoffice \<Rightarrow> (Message \<Rightarrow> 's \<Rightarrow> 's res) \<Rightarrow> 's customer_state \<Rightarrow> customer_event \<Rightarrow> 's customer_state \<Rightarrow> bool"
  for po :: Postoffice and handle :: "Message \<Rightarrow> 's \<Rightarrow> 's res" where
  accept: "customer_step po handle (c, p, s) (Accepted m) (Accept m c, p, s)"
| request: "NewRequest po r g c = Inr (c', ts) \<Longrightarrow>
    customer_step po handle (c, p, s) (Requested r g ts) (c', p, s)"
| add: "AddResponse ts n c = Inr c' \<Longrightarrow> customer_step po handle (c, p, s) (Added ts n) (c', p, s)"
| receive: "wait_and_pop (cu_recv_queue c) m q \<Longrightarrow> \<not> is_terminate m \<Longrightarrow> handle m s = Inr s' \<Longrightarrow>
    customer_step po handle (c, None, s) (Received m) (c\<lparr>cu_recv_queue := q\<rparr>, Some m, s')"
| counted: "note_response m c = Inr c' \<Longrightarrow> customer_step po handle (c, Some m, s) (Noted m) (c', None, s)"
| receive_pull: "wait_and_pop (cu_recv_pull_queue c) m q \<Longrightarrow> \<not> is_terminate m \<Longrightarrow> handle m s = Inr s' \<Longrightarrow>
    customer_step po handle (c, p, s) (ReceivedPull m) (c\<lparr>cu_recv_pull_queue := q\<rparr>, p, s')"

inductive customer_run ::
  "Postoffice \<Rightarrow> (Message \<Rightarrow> 's \<Rightarrow> 's res) \<Rightarrow> 's customer_state \<Rightarrow> customer_event list \<Rightarrow> 's customer_state \<Rightarrow> bool"
  for po :: Postoffice and handle :: "Message \<Rightarrow> 's \<Rightarrow> 's res" where
  idle: "customer_run po handle st [] st"
| act: "customer_step po handle st e st1 \<Longrightarrow> customer_run po handle st1 es st2 \<Longrightarrow>
    customer_run po handle st (e # es) st2"

inductive_cases customer_stepE: "customer_step po handle st e st'"
inductive_simps customer_run_Nil: "customer_run po handle st [] st'"
inductive_simps customer_run_Cons: "customer_run po handle st (e # es) st'"

fun accepted_of :: "customer_event \<Rightarrow> Message multiset" where
  "accepted_of (Accepted m) = {#m#}"
| "accepted_of _ = {#}"

fun handled_of :: "customer_event \<Rightarrow> Message multiset" where
  "handled_of (Received m) = {#m#}"
| "handled_of (ReceivedPull m) = {#m#}"
| "handled_of _ = {#}"

fun responses_of :: "int \<Rightarrow> customer_event \<Rightarrow> int" where
  "responses_of ts (Noted m) = of_bool (is_response ts m)"
| "responses_of ts (Added t n) = (if t = ts then n else 0)"
| "responses_of ts _ = 0"

fun received_of :: "int \<Rightarrow> customer_event \<Rightarrow> nat" where
  "received_of ts (Received m) = of_bool (is_response ts m)"
| "received_of ts _ = 0"

fun noted_of :: "int \<Rightarrow> customer_event \<Rightarrow> nat" where
  "noted_of ts (Noted m) = of_bool (is_response ts m)"
| "noted_of ts _ = 0"

definition queued :: "Customer \<Rightarrow> Message multiset" where
  "queued c = mset (cu_recv_queue c) + mset (cu_recv_pull_queue c)"

definition pending_responses :: "int \<Rightarrow> Message option \<Rightarrow> nat" where
  "pending_responses ts p = (case p of Some m \<Rightarrow> of_bool (is_response ts m) | None \<Rightarrow> 0)"

lemmas customer_op_defs = Accept_def NewRequest_def AddResponse_def note_response_def tracked_def
  res_simps

lemma queued_Accept [simp]: "queued (Accept m c) = add_mset m (queued c)"
  by (simp add: queued_def Accept_def queue_push_def)

lemma tracker_Accept [simp]: "cu_tracker (Accept m c) = cu_tracker c"
  by (simp add: Accept_def)

lemma customer_step_queued:
  assumes "customer_step po handle st e st'"
  shows "accepted_of e + queued (fst st) = handled_of e + queued (fst st')"
  using assms
proof (cases rule: customer_step.cases)
  case (receive c m q s s')
  then show ?thesis using tq.pop_contents[OF receive(4)] by (simp add: queued_def)
next
  case (receive_pull c m q s s' p)
  then show ?thesis using tq.pop_contents[OF receive_pull(4)] by (simp add: queued_def)
qed (auto simp: customer_op_defs queued_def queue_push_def split: if_splits)

lemma customer_run_queued:
  assumes "customer_run po handle st es st'"
  shows "sum_list (map accepted_of es) + queued (fst st) = sum_list (map handled_of es) + queued (fst st')"
  using assms
proof (induction rule: customer_run.induct)
  case (act st e st1 es st2)
  have "sum_list (map accepted_of (e # es)) + queued (fst st) =
      sum_list (map accepted_of es) + (accepted_of e + queued (fst st))" by simp
  also have "\<dots> = handled_of e + (sum_list (map accepted_of es) + queued (fst st1))"
    using customer_step_queued[OF act.hyps(1)] by simp
  finally show ?case by (simp add: act.IH)
qed simp

definition entry :: "Customer \<Rightarrow> int \<Rightarrow> int \<times> int" where
  "entry c ts = cu_tracker c ! nat ts"

lemma AddResponse_entry:
  assumes "AddResponse t n c = Inr c'" "tracked c ts"
  shows "tracked c' ts \<and> entry c' ts = (fst (entry c ts), snd (entry c ts) + (if t = ts then n else 0))"
  using assms by (auto simp: customer_op_defs entry_def nth_list_update)

lemma customer_step_entry:
  assumes "customer_step po handle st e st'" "tracked (fst st) ts"
  shows "tracked (fst st') ts \<and>
    entry (fst st') ts = (fst (entry (fst st) ts), snd (entry (fst st) ts) + responses_of ts e)"
  using assms
proof (cases rule: customer_step.cases)
  case (request r g c c' ts' p s)
  then show ?thesis using assms(2) by (auto simp: customer_op_defs entry_def nth_append)
next
  case (add t n c c' p s)
  then show ?thesis using assms(2) AddResponse_entry[of t n c c' ts] by simp
next
  case (counted m c c' s)
  then show ?thesis using assms(2) AddResponse_entry[of "m_timestamp (msg_meta m)" 1 c c' ts]
    by (auto simp: note_response_def is_response_def split: if_splits)
qed (auto simp: tracked_def entry_def)

lemma customer_run_entry:
  assumes "customer_run po handle st es st'" "tracked (fst st) ts"
  shows "tracked (fst st') ts \<and>
    entry (fst st') ts = (fst (entry (fst st) ts), snd (entry (fst st) ts) + sum_list (map (responses_of ts) es))"
  using assms
proof (induction rule: customer_run.induct)
  case (act st e st1 es st2)
  then show ?case using customer_step_entry[OF act.hyps(1) act.prems] by simp
qed simp

lemma customer_run_noted:
  assumes "customer_run po handle st es st'"
  shows "pending_responses ts (fst (snd st)) + sum_list (map (received_of ts) es) =
    sum_list (map (noted_of ts) es) + pending_responses ts (fst (snd st'))"
  using assms
proof (induction rule: customer_run.induct)
  case (act st e st1 es st2)
  have "pending_responses ts (fst (snd st)) + received_of ts e = noted_of ts e + pending_responses ts (fst (snd st1))"
    using act.hyps(1) by (cases rule: customer_step.cases) (auto simp: pending_responses_def)
  with act.IH show ?case by simp
qed simp

lemma NewRequest_entry:
  assumes "NewRequest po r g c = Inr (c', ts)"
  shows "tracked c' ts \<and> ts = int (length (cu_tracker c)) \<and>
    (\<exists>ids. GetNodeIDs po r g = Inr ids \<and> entry c' ts = (int (length ids), 0))"
  using assms by (auto simp: customer_op_defs entry_def nth_append)

lemma responses_of_noted: "(\<And>t n. e \<noteq> Added t n) \<Longrightarrow> responses_of ts e = int (noted_of ts e)"
  by (cases e) auto

lemma sum_responses_of_noted:
  "(\<forall>n. Added ts n \<notin> set es) \<Longrightarrow> sum_list (map (responses_of ts) es) = int (sum_list (map (noted_of ts) es))"
proof (induction es)
  case (Cons e es)
  then show ?case by (cases e) auto
qed simp

subsection \<open>Properties\<close>

text \<open>
  A message queue loses nothing and yields by priority. Whatever the order in which equal
  priorities come out, any sequence of pops returns exactly messages the queue held, together
  with what is left they are the original contents, their priorities never increase along the
  sequence, and a non-empty queue can always be emptied.
\<close>

theorem queue_drains_by_priority:
  "(\<exists>ms. message_channel.drains wait_and_pop q ms []) \<and>
   (\<forall>ms q'. message_channel.drains wait_and_pop q ms q' \<longrightarrow>
      mset q = mset ms + mset q' \<and> sorted_wrt (\<lambda>a b. msg_priority b \<le> msg_priority a) ms)"
  using tq.drains_all[of q] tq.drains_contents[of q] tq.drains_sorted[of q] by auto

definition prio_msg :: "int \<Rightarrow> Message" where
  "prio_msg p = empty_Message\<lparr>msg_meta := empty_Meta\<lparr>m_priority := p\<rparr>\<rparr>"

theorem queue_drains_by_priority_witness:
  "message_channel.drains wait_and_pop [prio_msg 1, prio_msg 3] [prio_msg 3] [prio_msg 1] \<and>
   mset [prio_msg 1, prio_msg 3] = mset [prio_msg 3] + mset [prio_msg 1]"
proof -
  have "prio_msg 1 \<noteq> prio_msg 3" by (simp add: prio_msg_def empty_Message_def empty_Meta_def)
  then have "wait_and_pop [prio_msg 1, prio_msg 3] (prio_msg 3) [prio_msg 1]"
    by (auto simp: wait_and_pop_iff queue_top_def prio_msg_def msg_priority_def)
  then have d: "message_channel.drains wait_and_pop [prio_msg 1, prio_msg 3] [prio_msg 3] [prio_msg 1]"
    by (rule tq.drains.more[OF _ tq.drains.stop])
  then show ?thesis using queue_drains_by_priority[of "[prio_msg 1, prio_msg 3]"] by blast
qed

text \<open>
  C17: no message a customer accepts is lost or handled twice. In every interleaving of the van,
  the applications and the two receiving threads, the accepted messages are exactly the handled
  ones and those still in the two queues.
\<close>

theorem accepted_messages_conserved:
  assumes "customer_run po handle (new_Customer app_id customer_id, None, s) es (c, p, s')"
  shows "sum_list (map accepted_of es) = sum_list (map handled_of es) + queued c"
  using customer_run_queued[OF assms] by (simp add: queued_def new_Customer_def)

definition one_node_postoffice :: Postoffice where
  "one_node_postoffice = empty_Postoffice\<lparr>po_node_ids := [100 \<mapsto> [100]]\<rparr>"

definition reply_msg :: Message where
  "reply_msg = empty_Message\<lparr>msg_meta := empty_Meta\<lparr>m_timestamp := 0, m_request := False\<rparr>\<rparr>"

definition waiting_customer :: Customer where
  "waiting_customer = (new_Customer 0 0)\<lparr>cu_tracker := [(1, 0)]\<rparr>"

lemma waiting_customer_request:
  "NewRequest one_node_postoffice 100 False (new_Customer 0 0) = Inr (waiting_customer, 0)"
  by (simp add: NewRequest_def one_node_postoffice_def GetNodeIDs_def res_simps waiting_customer_def new_Customer_def)

lemma reply_run:
  "customer_run one_node_postoffice (\<lambda>m n. Inr (Suc n)) (waiting_customer, None, 0)
     [Accepted reply_msg, Received reply_msg, Noted reply_msg] (waiting_customer\<lparr>cu_tracker := [(1, 1)]\<rparr>, None, 1)"
proof -
  have pull: "\<not> is_pull_request reply_msg" and nt: "\<not> is_terminate reply_msg"
    by (auto simp: is_pull_request_def reply_msg_def is_terminate_def control_empty_def empty_Message_def
        empty_Meta_def empty_Control_def)
  let ?c = "waiting_customer\<lparr>cu_recv_queue := [reply_msg]\<rparr>"
  have "customer_step one_node_postoffice (\<lambda>m n. Inr (Suc n)) (waiting_customer, None, 0)
      (Accepted reply_msg) (?c, None, 0)"
    using customer_step.accept[of _ _ waiting_customer None "0::nat" reply_msg] pull
    by (simp add: Accept_def queue_push_def waiting_customer_def new_Customer_def)
  moreover have "customer_step one_node_postoffice (\<lambda>m n. Inr (Suc n)) (?c, None, 0)
      (Received reply_msg) (waiting_customer, Some reply_msg, 1)"
    using customer_step.receive[of ?c reply_msg "[]" "\<lambda>m n. Inr (Suc n)" 0 1 one_node_postoffice] nt
    by (simp add: wait_and_pop_iff queue_top_def waiting_customer_def new_Customer_def)
  moreover have "customer_step one_node_postoffice (\<lambda>m n. Inr (Suc n)) (waiting_customer, Some reply_msg, 1)
      (Noted reply_msg) (waiting_customer\<lparr>cu_tracker := [(1, 1)]\<rparr>, None, 1)"
    by (rule customer_step.counted)
      (simp add: note_response_def AddResponse_def tracked_def res_simps waiting_customer_def new_Customer_def
        reply_msg_def)
  ultimately show ?thesis by (meson customer_run.intros)
qed

theorem accepted_messages_conserved_witness:
  "customer_run one_node_postoffice (\<lambda>m n. Inr (Suc n)) (new_Customer 0 0, None, 0)
     [Requested 100 False 0, Accepted reply_msg, Received reply_msg, Noted reply_msg]
     (waiting_customer\<lparr>cu_tracker := [(1, 1)]\<rparr>, None, 1) \<and>
   {#reply_msg#} = {#reply_msg#} + queued (waiting_customer\<lparr>cu_tracker := [(1, 1)]\<rparr>)"
proof -
  have run: "customer_run one_node_postoffice (\<lambda>m n. Inr (Suc n)) (new_Customer 0 0, None, 0)
     [Requested 100 False 0, Accepted reply_msg, Received reply_msg, Noted reply_msg]
     (waiting_customer\<lparr>cu_tracker := [(1, 1)]\<rparr>, None, 1)"
    by (rule customer_run.act[OF customer_step.request[OF waiting_customer_request] reply_run])
  then show ?thesis using accepted_messages_conserved[OF run] by simp
qed

text \<open>
  C8: \<open>WaitRequest\<close> returns exactly when every node of the request's group has been counted, and
  a counted response has had its handler run. In every interleaving after \<open>NewRequest\<close> in which no
  response is added by hand, the wait condition of that timestamp holds iff the number of counted
  responses is the size of the group, and the handler has run for at least as many responses.
\<close>

theorem request_completes:
  assumes "NewRequest po r g c = Inr (c1, ts)" "GetNodeIDs po r g = Inr ids"
    and "customer_run po handle (c1, None, s) es (c2, p, s')" "\<forall>n. Added ts n \<notin> set es"
  shows "WaitRequest_done c2 ts = Inr (sum_list (map (noted_of ts) es) = length ids) \<and>
    sum_list (map (noted_of ts) es) \<le> sum_list (map (received_of ts) es)"
proof -
  from NewRequest_entry[OF assms(1)] assms(2)
  have "tracked c1 ts" "entry c1 ts = (int (length ids), 0)" by auto
  with customer_run_entry[OF assms(3), of ts] sum_responses_of_noted[OF assms(4)]
  have "tracked c2 ts" "entry c2 ts = (int (length ids), int (sum_list (map (noted_of ts) es)))" by auto
  moreover have "sum_list (map (noted_of ts) es) \<le> sum_list (map (received_of ts) es)"
    using customer_run_noted[OF assms(3), of ts] by (simp add: pending_responses_def)
  ultimately show ?thesis by (auto simp: WaitRequest_done_def entry_def res_simps)
qed

theorem request_completes_witness:
  "WaitRequest_done (waiting_customer\<lparr>cu_tracker := [(1, 1)]\<rparr>) 0 = Inr True"
  using request_completes[OF waiting_customer_request _ reply_run, of "[100]"]
  by (simp add: one_node_postoffice_def GetNodeIDs_def is_response_def reply_msg_def)

end
