(* ===== verification/Resenders.thy ===== *)
theory Resenders
  imports Messages
begin

text \<open>
  The message resender of \<^verbatim>\<open>src/resender.h\<close>: keys of messages, the send buffer, acknowledgements,
  duplicate suppression and one round of the monitor thread. A link of two resenders over a network
  that loses, duplicates and reorders messages is a step relation.
\<close>

unbundle bit_operations_syntax

subsection \<open>Operations\<close>

record Entry =
  ent_msg :: Message
  ent_send :: int
  ent_num_retry :: int

record Resender =
  rs_send_buff :: "(key \<times> Entry) list"
  rs_acked :: "key set"
  rs_timeout :: int
  rs_max_num_retry :: int

definition new_Resender :: "int \<Rightarrow> int \<Rightarrow> Resender" where
  "new_Resender timeout max_num_retry = \<lparr>rs_send_buff = [], rs_acked = {}, rs_timeout = timeout,
     rs_max_num_retry = max_num_retry\<rparr>"

text \<open>
  The key of a message: the application id cut to 16 bits, the two node ids cut to 8 bits, and the
  timestamp shifted as an \<open>int\<close>, which the conversion to 64 bits sign-extends.
\<close>

definition key_word :: "int \<Rightarrow> int \<Rightarrow> int \<Rightarrow> int \<Rightarrow> bool \<Rightarrow> key" where
  "key_word app sender recver timestamp request =
     push_bit 48 (ucast (word_of_int app :: 16 word)) OR
     push_bit 40 (ucast (word_of_int sender :: 8 word)) OR
     push_bit 32 (ucast (word_of_int recver :: 8 word)) OR
     scast (push_bit 1 (word_of_int timestamp :: 32 word)) OR
     of_bool request"

definition GetKey :: "int res \<Rightarrow> Message \<Rightarrow> key res" where
  "GetKey my_id m =
     chk (m_timestamp (msg_meta m) \<noteq> kEmpty) ''timestamp''
       (rbind (if m_sender (msg_meta m) = kEmpty then my_id else Inr (m_sender (msg_meta m))) (\<lambda>sender.
          Inr (key_word (m_app_id (msg_meta m)) sender (m_recver (msg_meta m)) (m_timestamp (msg_meta m))
                 (m_request (msg_meta m)))))"

definition msg_cmd :: "Message \<Rightarrow> Command" where
  "msg_cmd m = c_cmd (m_control (msg_meta m))"

definition AddOutgoing :: "int res \<Rightarrow> int \<Rightarrow> Message \<Rightarrow> Resender \<Rightarrow> Resender res" where
  "AddOutgoing my_id now m r =
     (if msg_cmd m = ACK then Inr r
      else chk (m_timestamp (msg_meta m) \<noteq> kEmpty) ''timestamp''
        (rbind (GetKey my_id m) (\<lambda>k.
           if map_of (rs_send_buff r) k \<noteq> None then Inr r
           else Inr (r\<lparr>rs_send_buff := (k, \<lparr>ent_msg = m, ent_send = now, ent_num_retry = 0\<rparr>) # rs_send_buff r\<rparr>))))"

definition ack_msg :: "Message \<Rightarrow> key \<Rightarrow> Message" where
  "ack_msg m k = empty_Message\<lparr>msg_meta := empty_Meta\<lparr>
     m_recver := m_sender (msg_meta m), m_sender := m_recver (msg_meta m),
     m_control := empty_Control\<lparr>c_cmd := ACK, c_msg_sig := k\<rparr>\<rparr>\<rparr>"

text \<open>The result: whether to drop the message, the new state, and the acknowledgement to send.\<close>

definition AddIncomming :: "int res \<Rightarrow> Message \<Rightarrow> Resender \<Rightarrow> (bool \<times> Resender \<times> Message option) res" where
  "AddIncomming my_id m r =
     (if msg_cmd m = TERMINATE then Inr (False, r, None)
      else if msg_cmd m = ACK then
        Inr (True, r\<lparr>rs_send_buff := AList.delete (c_msg_sig (m_control (msg_meta m))) (rs_send_buff r)\<rparr>, None)
      else rbind (GetKey my_id m) (\<lambda>k.
        let duplicated = k \<in> rs_acked r in
        Inr (duplicated, r\<lparr>rs_acked := insert k (rs_acked r)\<rparr>, Some (ack_msg m k))))"

text \<open>One round of the monitor thread: the entries that timed out are resent, at most a bounded number of times.\<close>

definition timed_out :: "int \<Rightarrow> int \<Rightarrow> Entry \<Rightarrow> bool" where
  "timed_out timeout now e \<longleftrightarrow> ent_send e + timeout * (1 + ent_num_retry e) < now"

fun monitor_loop :: "int \<Rightarrow> int \<Rightarrow> int \<Rightarrow> (key \<times> Entry) list \<Rightarrow> ((key \<times> Entry) list \<times> Message list) res" where
  "monitor_loop timeout max_num_retry now [] = Inr ([], [])"
| "monitor_loop timeout max_num_retry now ((k, e) # es) =
     (if timed_out timeout now e then
        chk (ent_num_retry e + 1 < max_num_retry) ''num_retry < max_num_retry''
          (rbind (monitor_loop timeout max_num_retry now es) (\<lambda>(es', resend).
             Inr ((k, e\<lparr>ent_num_retry := ent_num_retry e + 1\<rparr>) # es', ent_msg e # resend)))
      else rbind (monitor_loop timeout max_num_retry now es) (\<lambda>(es', resend). Inr ((k, e) # es', resend)))"

definition Monitoring_round :: "int \<Rightarrow> Resender \<Rightarrow> (Resender \<times> Message list) res" where
  "Monitoring_round now r =
     rbind (monitor_loop (rs_timeout r) (rs_max_num_retry r) now (rs_send_buff r))
       (\<lambda>(buff, resend). Inr (r\<lparr>rs_send_buff := buff\<rparr>, resend))"

subsection \<open>Keys\<close>

lemma bit_scast_push:
  "k < 32 \<Longrightarrow> bit (scast (push_bit k (word_of_int ts :: 32 word)) :: key) n \<longleftrightarrow>
     n < 64 \<and> (if n < 32 then k \<le> n \<and> bit ts (n - k) else bit ts (31 - k))"
  by (auto simp: bit_simps)

lemma bit_key_word:
  "bit (key_word app s r ts req) n \<longleftrightarrow> n < 64 \<and>
     (48 \<le> n \<and> bit app (n - 48) \<or> 40 \<le> n \<and> n < 48 \<and> bit s (n - 40) \<or> 32 \<le> n \<and> n < 40 \<and> bit r (n - 32) \<or>
      0 < n \<and> (if n < 32 then bit ts (n - 1) else bit ts 30) \<or> n = 0 \<and> req)"
proof -
  have ts: "bit (scast (push_bit 1 (word_of_int ts :: 32 word)) :: key) n \<longleftrightarrow>
      n < 64 \<and> (if n < 32 then 1 \<le> n \<and> bit ts (n - 1) else bit ts 30)"
    using bit_scast_push[of 1 ts n] by simp
  show ?thesis unfolding key_word_def bit_or_iff ts by (auto simp: bit_simps)
qed

lemma int_eq_if_bits:
  assumes "0 \<le> a" "a < 2 ^ w" "0 \<le> b" "b < 2 ^ w" "\<And>n. n < w \<Longrightarrow> bit a n = bit (b :: int) n"
  shows "a = b"
proof -
  have "take_bit w a = take_bit w b" by (rule bit_eqI) (use assms(5) in \<open>auto simp: bit_simps\<close>)
  then show ?thesis using assms(1-4) by (simp add: take_bit_int_eq_self)
qed

lemma high_bit_clear: "0 \<le> ts \<Longrightarrow> ts < 2 ^ 30 \<Longrightarrow> \<not> bit (ts :: int) 30"
  by (metis bit_take_bit_iff less_irrefl take_bit_int_eq_self)

lemma key_word_inject:
  assumes "0 \<le> a" "a < 2 ^ 16" "0 \<le> a'" "a' < 2 ^ 16" "0 \<le> s" "s < 2 ^ 8" "0 \<le> s'" "s' < 2 ^ 8"
    "0 \<le> r" "r < 2 ^ 8" "0 \<le> r'" "r' < 2 ^ 8" "0 \<le> t" "t < 2 ^ 30" "0 \<le> t'" "t' < 2 ^ 30"
    and eq: "key_word a s r t q = key_word a' s' r' t' q'"
  shows "a = a' \<and> s = s' \<and> r = r' \<and> t = t' \<and> q = q'"
proof -
  have h: "\<not> bit t 30" "\<not> bit t' 30" using assms high_bit_clear by auto
  have b: "bit (key_word a s r t q) n = bit (key_word a' s' r' t' q') n" for n using eq by simp
  have "bit a n = bit a' n" if "n < 16" for n using b[of "n + 48"] h that by (simp add: bit_key_word)
  then have "a = a'" using assms int_eq_if_bits[of a 16 a'] by blast
  moreover have "bit s n = bit s' n" if "n < 8" for n using b[of "n + 40"] h that by (simp add: bit_key_word)
  then have "s = s'" using assms int_eq_if_bits[of s 8 s'] by blast
  moreover have "bit r n = bit r' n" if "n < 8" for n using b[of "n + 32"] h that by (simp add: bit_key_word)
  then have "r = r'" using assms int_eq_if_bits[of r 8 r'] by blast
  moreover have "bit t n = bit t' n" if "n < 30" for n using b[of "n + 1"] h that by (simp add: bit_key_word)
  then have "t = t'" using assms int_eq_if_bits[of t 30 t'] by blast
  moreover have "q = q'" using b[of 0] by (simp add: bit_key_word)
  ultimately show ?thesis by blast
qed

subsection \<open>A lossy link\<close>

text \<open>
  Two nodes with a resender each. \<open>Van::Send\<close> first gives the message to the socket, which stamps
  the node's id as the sender, and buffers it afterwards; the monitor resends through \<open>Van::Send\<close>
  as well. The network may lose, duplicate and reorder.
\<close>

record Link =
  lk_snd :: Resender
  lk_rcv :: Resender
  lk_net :: "Message multiset"
  lk_unbuf :: "Message list"
  lk_sent :: "Message list"
  lk_delivered :: "Message list"

definition stamp :: "int \<Rightarrow> Message \<Rightarrow> Message" where
  "stamp sid m = m\<lparr>msg_meta := (msg_meta m)\<lparr>m_sender := sid\<rparr>\<rparr>"

definition sendable :: "int \<Rightarrow> Message \<Rightarrow> bool" where
  "sendable sid m \<longleftrightarrow> msg_cmd m \<notin> {ACK, TERMINATE} \<and> m_timestamp (msg_meta m) \<noteq> kEmpty \<and>
     m_sender (msg_meta m) \<in> {kEmpty, sid}"

definition mkey :: "int \<Rightarrow> Message \<Rightarrow> key" where
  "mkey sid m = key_word (m_app_id (msg_meta m)) sid (m_recver (msg_meta m)) (m_timestamp (msg_meta m))
     (m_request (msg_meta m))"

definition new_Link :: "int \<Rightarrow> int \<Rightarrow> Link" where
  "new_Link timeout max_num_retry = \<lparr>lk_snd = new_Resender timeout max_num_retry,
     lk_rcv = new_Resender timeout max_num_retry, lk_net = {#}, lk_unbuf = [], lk_sent = [], lk_delivered = []\<rparr>"

inductive link_step :: "int \<Rightarrow> int \<Rightarrow> Link \<Rightarrow> Link \<Rightarrow> bool" for sid rid :: int where
  transmit: "sendable sid m \<Longrightarrow>
    link_step sid rid L (L\<lparr>lk_net := add_mset (stamp sid m) (lk_net L), lk_unbuf := m # lk_unbuf L,
      lk_sent := m # lk_sent L\<rparr>)"
| buffer: "m \<in> set (lk_unbuf L) \<Longrightarrow> AddOutgoing (Inr sid) now m (lk_snd L) = Inr s \<Longrightarrow>
    link_step sid rid L (L\<lparr>lk_snd := s, lk_unbuf := remove1 m (lk_unbuf L)\<rparr>)"
| deliver: "m \<in># lk_net L \<Longrightarrow> msg_cmd m \<noteq> ACK \<Longrightarrow>
    AddIncomming (Inr rid) m (lk_rcv L) = Inr (duplicated, r, Some a) \<Longrightarrow>
    link_step sid rid L (L\<lparr>lk_rcv := r, lk_net := add_mset (stamp rid a) (lk_net L - {#m#}),
      lk_delivered := (if duplicated then lk_delivered L else lk_delivered L @ [m])\<rparr>)"
| acknowledge: "m \<in># lk_net L \<Longrightarrow> msg_cmd m = ACK \<Longrightarrow>
    AddIncomming (Inr sid) m (lk_snd L) = Inr (True, s, None) \<Longrightarrow>
    link_step sid rid L (L\<lparr>lk_snd := s, lk_net := lk_net L - {#m#}\<rparr>)"
| lose: "link_step sid rid L (L\<lparr>lk_net := lk_net L - {#m#}\<rparr>)"
| duplicate: "m \<in># lk_net L \<Longrightarrow> link_step sid rid L (L\<lparr>lk_net := add_mset m (lk_net L)\<rparr>)"
| monitor: "Monitoring_round now (lk_snd L) = Inr (s, resend) \<Longrightarrow>
    link_step sid rid L (L\<lparr>lk_snd := s, lk_net := mset (map (stamp sid) resend) + lk_net L,
      lk_unbuf := resend @ lk_unbuf L\<rparr>)"

inductive link_reach :: "int \<Rightarrow> int \<Rightarrow> Link \<Rightarrow> Link \<Rightarrow> bool" for sid rid :: int where
  start: "link_reach sid rid L L"
| more: "link_reach sid rid L L1 \<Longrightarrow> link_step sid rid L1 L2 \<Longrightarrow> link_reach sid rid L L2"

definition buffered :: "Resender \<Rightarrow> key set" where
  "buffered r = fst ` set (rs_send_buff r)"

definition net_ok :: "int \<Rightarrow> Link \<Rightarrow> bool" where
  "net_ok sid L \<longleftrightarrow> (\<forall>m \<in># lk_net L.
     if msg_cmd m = ACK then c_msg_sig (m_control (msg_meta m)) \<in> rs_acked (lk_rcv L)
     else m \<in> stamp sid ` set (lk_sent L))"

definition sender_ok :: "int \<Rightarrow> Link \<Rightarrow> bool" where
  "sender_ok sid L \<longleftrightarrow> (\<forall>m \<in> set (lk_sent L). sendable sid m) \<and> set (lk_unbuf L) \<subseteq> set (lk_sent L) \<and>
     (\<forall>(k, e) \<in> set (rs_send_buff (lk_snd L)). ent_msg e \<in> set (lk_sent L) \<and> k = mkey sid (ent_msg e))"

definition kept_ok :: "int \<Rightarrow> Link \<Rightarrow> bool" where
  "kept_ok sid L \<longleftrightarrow> (\<forall>m \<in> set (lk_sent L).
     m \<in> set (lk_unbuf L) \<or> mkey sid m \<in> buffered (lk_snd L) \<or> mkey sid m \<in> rs_acked (lk_rcv L))"

definition delivered_ok :: "int \<Rightarrow> Link \<Rightarrow> bool" where
  "delivered_ok sid L \<longleftrightarrow> distinct (map (mkey sid) (lk_delivered L)) \<and>
     mkey sid ` set (lk_delivered L) = rs_acked (lk_rcv L) \<and>
     set (lk_delivered L) \<subseteq> stamp sid ` set (lk_sent L)"

definition link_inv :: "int \<Rightarrow> Link \<Rightarrow> bool" where
  "link_inv sid L \<longleftrightarrow> net_ok sid L \<and> sender_ok sid L \<and> kept_ok sid L \<and> delivered_ok sid L"

lemmas link_inv_defs = link_inv_def net_ok_def sender_ok_def kept_ok_def delivered_ok_def

lemma stamp_simps [simp]:
  "msg_cmd (stamp sid m) = msg_cmd m" "mkey sid' (stamp sid m) = mkey sid' m"
  "m_control (msg_meta (stamp sid m)) = m_control (msg_meta m)"
  "m_timestamp (msg_meta (stamp sid m)) = m_timestamp (msg_meta m)"
  "m_sender (msg_meta (stamp sid m)) = sid"
  by (simp_all add: stamp_def msg_cmd_def mkey_def)

lemma GetKey_sendable: "sendable sid m \<Longrightarrow> GetKey (Inr sid) m = Inr (mkey sid m)"
  by (auto simp: sendable_def GetKey_def mkey_def res_simps)

lemma GetKey_stamp:
  "sendable sid m \<Longrightarrow> sid \<noteq> kEmpty \<Longrightarrow> GetKey my_id (stamp sid m) = Inr (mkey sid m)"
  by (auto simp: sendable_def GetKey_def mkey_def res_simps stamp_def)

lemma AddOutgoing_sendable:
  assumes "sendable sid m" "AddOutgoing (Inr sid) now m r = Inr r'"
  shows "rs_acked r' = rs_acked r \<and> buffered r' = insert (mkey sid m) (buffered r) \<and>
    set (rs_send_buff r') \<subseteq> insert (mkey sid m, \<lparr>ent_msg = m, ent_send = now, ent_num_retry = 0\<rparr>) (set (rs_send_buff r))"
proof -
  have "msg_cmd m \<noteq> ACK" using assms(1) by (simp add: sendable_def)
  then show ?thesis using assms
    by (auto simp: AddOutgoing_def GetKey_sendable res_simps buffered_def map_of_eq_None_iff insert_absorb
        simp del: not_None_eq split: if_splits)
qed

lemma AddIncomming_data:
  assumes "sendable sid x" "sid \<noteq> kEmpty" "AddIncomming my_id (stamp sid x) r = Inr (d, r', Some a)"
  shows "d = (mkey sid x \<in> rs_acked r) \<and> rs_acked r' = insert (mkey sid x) (rs_acked r) \<and>
    rs_send_buff r' = rs_send_buff r \<and> msg_cmd a = ACK \<and> c_msg_sig (m_control (msg_meta a)) = mkey sid x"
proof -
  have "msg_cmd x \<noteq> ACK" "msg_cmd x \<noteq> TERMINATE" using assms(1) by (auto simp: sendable_def)
  with assms(3) have "(mkey sid x \<in> rs_acked r, r\<lparr>rs_acked := insert (mkey sid x) (rs_acked r)\<rparr>,
      Some (ack_msg (stamp sid x) (mkey sid x))) = (d, r', Some a)"
    by (simp add: AddIncomming_def GetKey_stamp[OF assms(1,2)] res_simps)
  then show ?thesis by (auto simp: ack_msg_def msg_cmd_def)
qed

lemma AddIncomming_ack:
  assumes "msg_cmd m = ACK" "AddIncomming my_id m r = Inr (True, r', None)"
  shows "rs_acked r' = rs_acked r \<and> set (rs_send_buff r') \<subseteq> set (rs_send_buff r) \<and>
    buffered r' = buffered r - {c_msg_sig (m_control (msg_meta m))}"
  using assms by (auto simp: AddIncomming_def buffered_def AList.delete_eq image_iff)

lemma monitor_loop_entries:
  assumes "monitor_loop timeout mx now es = Inr (es', resend)"
  shows "fst ` set es' = fst ` set es \<and> set resend \<subseteq> (ent_msg \<circ> snd) ` set es \<and>
    (\<forall>(k, e') \<in> set es'. \<exists>e. (k, e) \<in> set es \<and> ent_msg e' = ent_msg e)"
  using assms
proof (induction es arbitrary: es' resend)
  case (Cons ke es)
  obtain k e where ke: "ke = (k, e)" by (cases ke)
  from Cons.prems obtain es1 rs1 e' where rest: "monitor_loop timeout mx now es = Inr (es1, rs1)"
    and es': "es' = (k, e') # es1" "ent_msg e' = ent_msg e" and rs: "resend = rs1 \<or> resend = ent_msg e # rs1"
    unfolding ke by (cases "timed_out timeout now e") (auto simp: res_simps)
  note IH = Cons.IH[OF rest]
  from IH have "fst ` set es' = fst ` set (ke # es)" by (simp add: es' ke)
  moreover from IH rs have "set resend \<subseteq> (ent_msg \<circ> snd) ` set (ke # es)" by (auto simp: ke)
  moreover from IH have "\<forall>(k, e') \<in> set es1. \<exists>e. (k, e) \<in> set (ke # es) \<and> ent_msg e' = ent_msg e"
    by (auto; metis)
  then have "\<forall>(k, e') \<in> set es'. \<exists>e. (k, e) \<in> set (ke # es) \<and> ent_msg e' = ent_msg e"
    using es' by (auto simp: ke)
  ultimately show ?case by blast
qed simp

lemma link_inv_init: "link_inv sid (new_Link timeout mx)"
  by (simp add: link_inv_defs new_Link_def new_Resender_def)

lemma step_transmit:
  assumes "sendable sid m" "link_inv sid L"
  shows "link_inv sid (L\<lparr>lk_net := add_mset (stamp sid m) (lk_net L), lk_unbuf := m # lk_unbuf L,
    lk_sent := m # lk_sent L\<rparr>)"
proof -
  have "msg_cmd m \<noteq> ACK" using assms(1) by (simp add: sendable_def)
  then show ?thesis using assms unfolding link_inv_defs by (auto split: if_splits)
qed

lemma step_buffer:
  assumes "m \<in> set (lk_unbuf L)" "AddOutgoing (Inr sid) now m (lk_snd L) = Inr s" "link_inv sid L"
  shows "link_inv sid (L\<lparr>lk_snd := s, lk_unbuf := remove1 m (lk_unbuf L)\<rparr>)"
proof -
  from assms(1,3) have m: "m \<in> set (lk_sent L)" "sendable sid m"
    unfolding link_inv_defs by auto
  note out = AddOutgoing_sendable[OF m(2) assms(2)]
  have "sender_ok sid (L\<lparr>lk_snd := s, lk_unbuf := remove1 m (lk_unbuf L)\<rparr>)"
    using assms(3) out m(1) set_remove1_subset[of m "lk_unbuf L"] unfolding link_inv_defs by auto
  moreover have "x = m \<or> x \<in> set (remove1 m (lk_unbuf L))" if "x \<in> set (lk_unbuf L)" for x
    using that by (cases "x = m") auto
  then have "kept_ok sid (L\<lparr>lk_snd := s, lk_unbuf := remove1 m (lk_unbuf L)\<rparr>)"
    using assms(3) out unfolding link_inv_def kept_ok_def by (auto; metis)
  ultimately show ?thesis using assms(3) by (simp add: link_inv_def net_ok_def delivered_ok_def)
qed

lemma step_deliver:
  assumes "m \<in># lk_net L" "msg_cmd m \<noteq> ACK"
    "AddIncomming (Inr rid) m (lk_rcv L) = Inr (duplicated, r, Some a)" "link_inv sid L" "sid \<noteq> kEmpty"
  shows "link_inv sid (L\<lparr>lk_rcv := r, lk_net := add_mset (stamp rid a) (lk_net L - {#m#}),
      lk_delivered := (if duplicated then lk_delivered L else lk_delivered L @ [m])\<rparr>)" (is "link_inv sid ?L")
proof -
  from assms(1,2,4) obtain x where x: "x \<in> set (lk_sent L)" "m = stamp sid x" "sendable sid x"
    unfolding link_inv_defs by (metis (no_types, lifting) imageE)
  note inc = AddIncomming_data[OF x(3) assms(5) assms(3)[unfolded x(2)]]
  have "net_ok sid ?L"
    using assms(4) inc unfolding link_inv_def net_ok_def by (auto dest: in_diffD)
  moreover have "sender_ok sid ?L" using assms(4) by (simp add: link_inv_def sender_ok_def)
  moreover have "kept_ok sid ?L" using assms(4) inc by (auto simp: link_inv_def kept_ok_def)
  moreover have "delivered_ok sid ?L"
    using assms(4) inc x by (auto simp: link_inv_def delivered_ok_def insert_absorb)
  ultimately show ?thesis by (simp add: link_inv_def)
qed

lemma step_acknowledge:
  assumes "m \<in># lk_net L" "msg_cmd m = ACK"
    "AddIncomming (Inr sid) m (lk_snd L) = Inr (True, s, None)" "link_inv sid L"
  shows "link_inv sid (L\<lparr>lk_snd := s, lk_net := lk_net L - {#m#}\<rparr>)" (is "link_inv sid ?L")
proof -
  from assms(1,2,4) have sig: "c_msg_sig (m_control (msg_meta m)) \<in> rs_acked (lk_rcv L)"
    unfolding link_inv_def net_ok_def by auto
  note ack = AddIncomming_ack[OF assms(2,3)]
  have "net_ok sid ?L" using assms(4) unfolding link_inv_def net_ok_def by (auto dest: in_diffD)
  moreover have "sender_ok sid ?L" using assms(4) ack by (auto simp: link_inv_def sender_ok_def)
  moreover have "kept_ok sid ?L" using assms(4) ack sig by (auto simp: link_inv_def kept_ok_def)
  ultimately show ?thesis using assms(4) by (simp add: link_inv_def delivered_ok_def)
qed

lemma step_network:
  assumes "link_inv sid L" "set_mset net \<subseteq> set_mset (lk_net L)"
  shows "link_inv sid (L\<lparr>lk_net := net\<rparr>)"
  using assms by (auto simp: link_inv_defs)

lemma step_monitor:
  assumes "Monitoring_round now (lk_snd L) = Inr (s, resend)" "link_inv sid L"
  shows "link_inv sid (L\<lparr>lk_snd := s, lk_net := mset (map (stamp sid) resend) + lk_net L,
      lk_unbuf := resend @ lk_unbuf L\<rparr>)" (is "link_inv sid ?L")
proof -
  from assms(1) obtain buff where
    loop: "monitor_loop (rs_timeout (lk_snd L)) (rs_max_num_retry (lk_snd L)) now (rs_send_buff (lk_snd L)) = Inr (buff, resend)"
    and s: "s = (lk_snd L)\<lparr>rs_send_buff := buff\<rparr>"
    by (auto simp: Monitoring_round_def res_simps)
  note mon = monitor_loop_entries[OF loop]
  have ents: "\<forall>(k, e) \<in> set (rs_send_buff (lk_snd L)). ent_msg e \<in> set (lk_sent L) \<and> k = mkey sid (ent_msg e)"
    and sent: "\<forall>m \<in> set (lk_sent L). sendable sid m"
    using assms(2) by (auto simp: link_inv_def sender_ok_def)
  have resend: "set resend \<subseteq> set (lk_sent L)" using mon ents by fastforce
  then have "\<forall>m \<in> set resend. msg_cmd m \<noteq> ACK" using sent by (auto simp: sendable_def)
  then have "net_ok sid ?L" using assms(2) resend unfolding link_inv_def net_ok_def by auto
  moreover have "\<forall>(k, e) \<in> set buff. ent_msg e \<in> set (lk_sent L) \<and> k = mkey sid (ent_msg e)"
    using mon ents by fastforce
  then have "sender_ok sid ?L" using assms(2) resend by (simp add: link_inv_def sender_ok_def s)
  moreover have "buffered s = buffered (lk_snd L)" using mon by (simp add: buffered_def s)
  then have "kept_ok sid ?L" using assms(2) by (auto simp: link_inv_def kept_ok_def)
  ultimately show ?thesis using assms(2) by (simp add: link_inv_def delivered_ok_def)
qed

lemma link_inv_step:
  assumes "link_step sid rid L L'" "link_inv sid L" "sid \<noteq> kEmpty"
  shows "link_inv sid L'"
  using assms(1)
proof cases
  case (transmit m)
  then show ?thesis using step_transmit assms(2) by simp
next
  case (buffer m now s)
  then show ?thesis using step_buffer assms(2) by simp
next
  case (deliver m duplicated r a)
  then show ?thesis using step_deliver[OF deliver(2,3,4) assms(2,3)] by simp
next
  case (acknowledge m s)
  then show ?thesis using step_acknowledge[OF acknowledge(2,3,4) assms(2)] by simp
next
  case (lose m)
  then show ?thesis using step_network[OF assms(2)] by (simp add: set_mset_diff subset_iff in_diffD) (meson in_diffD)
next
  case (duplicate m)
  then show ?thesis using step_network[OF assms(2)] by auto
next
  case (monitor now s resend)
  then show ?thesis using step_monitor assms(2) by simp
qed

lemma link_inv_reach:
  "link_reach sid rid L L' \<Longrightarrow> link_inv sid L \<Longrightarrow> sid \<noteq> kEmpty \<Longrightarrow> link_inv sid L'"
  by (induction rule: link_reach.induct) (auto intro: link_inv_step)


subsection \<open>Properties\<close>

text \<open>
  C29: the key the resender computes identifies a message. For application ids below 2^16, node ids
  below 2^8 and timestamps below 2^30, two messages have the same key iff application, sender,
  receiver, timestamp and the request flag agree.
\<close>

definition key_fields :: "Message \<Rightarrow> int \<times> int \<times> int \<times> int \<times> bool" where
  "key_fields m = (m_app_id (msg_meta m), m_sender (msg_meta m), m_recver (msg_meta m),
     m_timestamp (msg_meta m), m_request (msg_meta m))"

definition key_bounded :: "Message \<Rightarrow> bool" where
  "key_bounded m \<longleftrightarrow> 0 \<le> m_app_id (msg_meta m) \<and> m_app_id (msg_meta m) < 2 ^ 16 \<and>
     0 \<le> m_sender (msg_meta m) \<and> m_sender (msg_meta m) < 2 ^ 8 \<and>
     0 \<le> m_recver (msg_meta m) \<and> m_recver (msg_meta m) < 2 ^ 8 \<and>
     0 \<le> m_timestamp (msg_meta m) \<and> m_timestamp (msg_meta m) < 2 ^ 30"

lemma GetKey_bounded:
  "key_bounded m \<Longrightarrow> GetKey my_id m = Inr (mkey (m_sender (msg_meta m)) m)"
  by (auto simp: key_bounded_def GetKey_def mkey_def kEmpty_def res_simps)

theorem GetKey_identifies:
  assumes "key_bounded m" "key_bounded m'"
  shows "GetKey my_id m = GetKey my_id' m' \<longleftrightarrow> key_fields m = key_fields m'"
proof
  assume "GetKey my_id m = GetKey my_id' m'"
  then have "mkey (m_sender (msg_meta m)) m = mkey (m_sender (msg_meta m')) m'"
    by (simp add: GetKey_bounded assms)
  then show "key_fields m = key_fields m'"
    unfolding mkey_def key_fields_def
    using assms key_word_inject[of "m_app_id (msg_meta m)" "m_app_id (msg_meta m')" "m_sender (msg_meta m)"
        "m_sender (msg_meta m')" "m_recver (msg_meta m)" "m_recver (msg_meta m')" "m_timestamp (msg_meta m)"
        "m_timestamp (msg_meta m')" "m_request (msg_meta m)" "m_request (msg_meta m')"]
    by (simp add: key_bounded_def)
qed (simp add: GetKey_bounded assms mkey_def key_fields_def)

definition numbered_msg :: "int \<Rightarrow> Message" where
  "numbered_msg ts = empty_Message\<lparr>msg_meta := empty_Meta\<lparr>m_app_id := 0, m_sender := 100, m_recver := 101,
     m_timestamp := ts, m_request := True\<rparr>\<rparr>"

theorem GetKey_identifies_witness:
  "GetKey (Inr 100) (numbered_msg 3) \<noteq> GetKey (Inr 100) (numbered_msg 4)"
  using GetKey_identifies[of "numbered_msg 3" "numbered_msg 4" "Inr 100" "Inr 100"]
  by (simp add: key_bounded_def key_fields_def numbered_msg_def)

text \<open>
  C7: reliable delivery over a lossy link. In every run of a sender and a receiver whose network
  loses, duplicates and reorders, no two delivered messages have the same key, every delivered
  message is one that was sent, and a sent message that is no longer on its way into the send
  buffer nor in it has been delivered (a message with its key has).
\<close>

theorem link_exactly_once:
  assumes "link_reach sid rid (new_Link timeout max_num_retry) L" "sid \<noteq> kEmpty"
  shows "distinct (map (mkey sid) (lk_delivered L)) \<and>
    (\<forall>m \<in> set (lk_delivered L). \<exists>x \<in> set (lk_sent L). m = stamp sid x) \<and>
    (\<forall>m \<in> set (lk_sent L). m \<notin> set (lk_unbuf L) \<longrightarrow> mkey sid m \<notin> fst ` set (rs_send_buff (lk_snd L)) \<longrightarrow>
       (\<exists>d \<in> set (lk_delivered L). mkey sid d = mkey sid m))"
proof -
  have "link_inv sid L" using link_inv_reach[OF assms(1) link_inv_init assms(2)] .
  then have "distinct (map (mkey sid) (lk_delivered L))" "mkey sid ` set (lk_delivered L) = rs_acked (lk_rcv L)"
    "set (lk_delivered L) \<subseteq> stamp sid ` set (lk_sent L)"
    "\<forall>m \<in> set (lk_sent L). m \<in> set (lk_unbuf L) \<or> mkey sid m \<in> buffered (lk_snd L) \<or> mkey sid m \<in> rs_acked (lk_rcv L)"
    by (auto simp: link_inv_def delivered_ok_def kept_ok_def)
  then show ?thesis unfolding buffered_def by (auto simp: image_iff) (metis imageE)
qed

definition plain_msg :: Message where
  "plain_msg = empty_Message\<lparr>msg_meta := empty_Meta\<lparr>m_app_id := 0, m_recver := 101, m_timestamp := 3, m_request := True\<rparr>\<rparr>"

theorem link_exactly_once_witness:
  "\<exists>L. link_reach 100 101 (new_Link 1000 10) L \<and> lk_sent L = [plain_msg] \<and>
     (\<forall>m \<in> set (lk_delivered L). \<exists>x \<in> set (lk_sent L). m = stamp 100 x)"
proof -
  have snd: "sendable 100 plain_msg"
    by (simp add: sendable_def plain_msg_def msg_cmd_def empty_Message_def empty_Meta_def empty_Control_def kEmpty_def)
  let ?L = "(new_Link 1000 10)\<lparr>lk_net := add_mset (stamp 100 plain_msg) {#}, lk_unbuf := [plain_msg], lk_sent := [plain_msg]\<rparr>"
  have reach: "link_reach 100 101 (new_Link 1000 10) ?L"
    using link_reach.more[OF link_reach.start link_step.transmit[OF snd, of 101 "new_Link 1000 10"]]
    by (simp add: new_Link_def)
  have "(100::int) \<noteq> kEmpty" by (simp add: kEmpty_def)
  from link_exactly_once[OF reach this] show ?thesis by (intro exI[of _ ?L]) (use reach in simp)
qed


definition chunk_msg :: "int \<Rightarrow> Message" where
  "chunk_msg seq = empty_Message\<lparr>msg_meta := empty_Meta\<lparr>m_app_id := 0, m_sender := 9, m_recver := 8,
     m_timestamp := 3, m_request := True, m_push := True, m_seq := seq\<rparr>\<rparr>"




end
