(* ===== verification/Vans.thy ===== *)
theory Vans
  imports Customers Resenders
begin

text \<open>
  The state of \<^verbatim>\<open>Van\<close> (\<^verbatim>\<open>van.h\<close>) together with the process it lives in, and its sending side:
  \<open>Send\<close>, \<open>DGT_Send\<close>, the sender queue, the two queues of DGT (differential gradient
  transmission) and the flags the TSEngine threads wait for. The transport, the clocks and the
  socket layer are the \<open>World\<close>, with the values of successive calls of \<open>rand\<close>, the value of \<open>rand_r\<close> for a seed and the
  double-precision product of a number with ten; what a handler sends or connects to is recorded in the van's
  outbox and connection list.
\<close>

record World =
  w_send :: "Message \<Rightarrow> bool \<Rightarrow> int"
  w_send_udp :: "int \<Rightarrow> Message \<Rightarrow> int \<Rightarrow> int"
  w_time :: int
  w_now :: int
  w_rand :: "nat \<Rightarrow> int"
  w_rand_r :: "int \<Rightarrow> int"
  w_mul10 :: "rat \<Rightarrow> rat"

datatype channel = Local | Global | Udp int int

datatype van_thread = ReceiverThread | ReceiverGlobalThread | HeartbeatThread | SenderThread
  | UdpReceiverThread nat | ImportantThread | UnimportantThread

record Van =
  van_my_node :: Node
  van_my_node_global :: Node
  van_scheduler :: Node
  van_global_scheduler :: Node
  van_is_scheduler :: bool
  van_is_global_scheduler :: bool
  van_receiver :: int
  van_receiver_global :: int
  van_ver_flag :: bool
  van_ver_global_flag :: bool
  van_connected_nodes :: "string \<rightharpoonup> int"
  van_shared_node_mapping :: "int \<rightharpoonup> int"
  van_ready :: bool
  van_ready_global :: bool
  van_send_bytes :: "64 word"
  van_recv_bytes :: "64 word"
  van_num_servers :: int
  van_num_workers :: int
  van_num_global_servers :: int
  van_num_global_workers :: int
  van_barrier_count :: "int list"
  van_resender :: "Resender option"
  van_timestamp :: int
  van_init_stage :: int
  van_A :: "int list list"
  van_B :: "int list"
  van_B1 :: "int list"
  van_ask_q :: "int list"
  van_lifetime :: "int list list"
  van_iters :: int
  van_max_greed_rate :: rat
  van_enable_p3 :: int
  van_enable_dgt :: int
  van_msg_map :: "int \<Rightarrow> int \<Rightarrow> (int \<times> Message) list"
  van_important_queue :: msg_queue
  van_unimportant_queue :: msg_queue
  van_send_queue :: msg_queue
  van_residual :: "int \<Rightarrow> int \<rightharpoonup> bytes"
  van_heartbeat_timeout :: int
  van_drop_rate :: int
  van_threads :: "van_thread list"
  van_outbox :: "(Message \<times> channel) list"
  van_connections :: "(Node \<times> bool) list"
  van_connections_udp :: "Node list"

definition new_Van :: Van where
  "new_Van = \<lparr>van_my_node = empty_Node, van_my_node_global = empty_Node, van_scheduler = empty_Node,
     van_global_scheduler = empty_Node, van_is_scheduler = False, van_is_global_scheduler = False,
     van_receiver = -2, van_receiver_global = -2, van_ver_flag = False, van_ver_global_flag = False,
     van_connected_nodes = Map.empty, van_shared_node_mapping = Map.empty, van_ready = False,
     van_ready_global = False, van_send_bytes = 0, van_recv_bytes = 0, van_num_servers = 0,
     van_num_workers = 0, van_num_global_servers = 0, van_num_global_workers = 0, van_barrier_count = [],
     van_resender = None, van_timestamp = 0, van_init_stage = 0, van_A = [], van_B = [], van_B1 = [],
     van_ask_q = [], van_lifetime = [], van_iters = -1, van_max_greed_rate = 0, van_enable_p3 = 0,
     van_enable_dgt = 0, van_msg_map = (\<lambda>_ _. []), van_important_queue = [], van_unimportant_queue = [],
     van_send_queue = [], van_residual = (\<lambda>_. Map.empty), van_heartbeat_timeout = 0, van_drop_rate = 0, van_threads = [], van_outbox = [],
     van_connections = [], van_connections_udp = []\<rparr>"

text \<open>A process: its van, its post office, its customer objects by address, its environment.\<close>

record Proc =
  pr_van :: Van
  pr_po :: Postoffice
  pr_cust :: "nat \<rightharpoonup> Customer"
  pr_env :: env

definition upd_van :: "(Van \<Rightarrow> Van) \<Rightarrow> Proc \<Rightarrow> Proc" where
  "upd_van f p = p\<lparr>pr_van := f (pr_van p)\<rparr>"

definition my_node :: "bool \<Rightarrow> Van \<Rightarrow> Node res" where
  "my_node is_global v =
     chk (if is_global then van_ready_global v else van_ready v) ''Call Start() and StartGlobal() first''
       (Inr (if is_global then van_my_node_global v else van_my_node v))"

definition my_id :: "Van \<Rightarrow> int res" where
  "my_id v = rbind (my_node False v) (\<lambda>n. Inr (n_id n))"

text \<open>The next value of the timestamp counter.\<close>

definition GetTimestamp :: "Proc \<Rightarrow> int \<times> Proc" where
  "GetTimestamp p = (van_timestamp (pr_van p), upd_van (van_timestamp_update (\<lambda>t. t + 1)) p)"

subsection \<open>Sending\<close>

definition note_outgoing :: "World \<Rightarrow> Message \<Rightarrow> Van \<Rightarrow> Van res" where
  "note_outgoing W m v =
     (case van_resender v of
        None \<Rightarrow> Inr v
      | Some r \<Rightarrow> rbind (AddOutgoing (my_id v) (w_now W) m r) (\<lambda>r'. Inr (v\<lparr>van_resender := Some r'\<rparr>)))"

definition Send :: "World \<Rightarrow> Message \<Rightarrow> bool \<Rightarrow> Proc \<Rightarrow> (Proc \<times> int) res" where
  "Send W m is_global p =
     (let n = w_send W m is_global in
      chk (n \<noteq> -1) ''send_bytes''
        (rbind (note_outgoing W m ((pr_van p)\<lparr>
             van_outbox := van_outbox (pr_van p) @ [(m, if is_global then Global else Local)],
             van_send_bytes := van_send_bytes (pr_van p) + word_of_int n\<rparr>))
           (\<lambda>v. Inr (p\<lparr>pr_van := v\<rparr>, n))))"

definition DGT_Send :: "World \<Rightarrow> Message \<Rightarrow> int \<Rightarrow> int \<Rightarrow> Proc \<Rightarrow> (Proc \<times> int) res" where
  "DGT_Send W m ch tag p =
     (let n = w_send_udp W (ch - 1) m tag in
      chk (n \<noteq> -1) ''send_bytes''
        (rbind (note_outgoing W m ((pr_van p)\<lparr>
             van_outbox := van_outbox (pr_van p) @ [(m, Udp (ch - 1) tag)],
             van_send_bytes := van_send_bytes (pr_van p) + word_of_int n\<rparr>))
           (\<lambda>v. Inr (p\<lparr>pr_van := v\<rparr>, n))))"

text \<open>\<open>SendMsg\<close> alone, as \<open>Stop\<close> and the DGT threads use it: no counting, no resending.\<close>

definition SendMsg :: "World \<Rightarrow> Message \<Rightarrow> bool \<Rightarrow> Proc \<Rightarrow> Proc res" where
  "SendMsg W m is_global p =
     chk (w_send W m is_global \<noteq> -1) ''send_bytes''
       (Inr (upd_van (\<lambda>v. v\<lparr>van_outbox := van_outbox v @ [(m, if is_global then Global else Local)]\<rparr>) p))"

definition SendMsg_UDP :: "World \<Rightarrow> int \<Rightarrow> Message \<Rightarrow> int \<Rightarrow> Proc \<Rightarrow> Proc res" where
  "SendMsg_UDP W ch m tag p =
     chk (w_send_udp W ch m tag \<noteq> -1) ''send_bytes''
       (Inr (upd_van (\<lambda>v. v\<lparr>van_outbox := van_outbox v @ [(m, Udp ch tag)]\<rparr>) p))"

text \<open>Sending one message to each of a list of nodes, each with a fresh timestamp.\<close>

fun broadcast :: "World \<Rightarrow> bool \<Rightarrow> (int \<Rightarrow> bool) \<Rightarrow> (int \<Rightarrow> Meta) \<Rightarrow> int list \<Rightarrow> Proc \<Rightarrow> Proc res" where
  "broadcast W is_global ok mk [] p = Inr p"
| "broadcast W is_global ok mk (r # rs) p =
     (let (ts, p1) = GetTimestamp p in
      rbind (Send W (empty_Message\<lparr>msg_meta := (mk r)\<lparr>m_recver := r, m_timestamp := ts\<rparr>\<rparr>) is_global p1)
        (\<lambda>(p2, n). chk (ok n) ''Send'' (broadcast W is_global ok mk rs p2)))"

definition PushToSenderQueue :: "Message \<Rightarrow> Van \<Rightarrow> Van" where
  "PushToSenderQueue m v = v\<lparr>van_send_queue := queue_push m (van_send_queue v)\<rparr>"

definition AssignMsg :: "Message \<Rightarrow> int \<Rightarrow> Van \<Rightarrow> Van" where
  "AssignMsg m ch v =
     (if ch = 0 then v\<lparr>van_important_queue := queue_push m (van_important_queue v)\<rparr>
      else v\<lparr>van_unimportant_queue := queue_push m (van_unimportant_queue v)\<rparr>)"

subsection \<open>Flags the TSEngine threads wait for\<close>

definition ProcessAutoPullReply :: "Van \<Rightarrow> Van" where
  "ProcessAutoPullReply v = v\<lparr>van_ver_flag := True\<rparr>"

definition ProcessAutoPullReplyGlobal :: "Van \<Rightarrow> Van" where
  "ProcessAutoPullReplyGlobal v = v\<lparr>van_ver_global_flag := True\<rparr>"

text \<open>One wake-up of a waiting thread; \<open>None\<close> while it keeps waiting.\<close>

definition WaitForFinish :: "Van \<Rightarrow> Van option" where
  "WaitForFinish v = (if van_ver_flag v then Some (v\<lparr>van_ver_flag := False\<rparr>) else None)"

definition WaitForGlobalFinish :: "Van \<Rightarrow> Van option" where
  "WaitForGlobalFinish v = (if van_ver_global_flag v then Some (v\<lparr>van_ver_global_flag := False\<rparr>) else None)"

definition ProcessTerminateCommand :: "bool \<Rightarrow> Van \<Rightarrow> Van" where
  "ProcessTerminateCommand is_global v =
     (if is_global then v\<lparr>van_ready_global := False\<rparr> else v\<lparr>van_ready := False\<rparr>)"

subsection \<open>What sending leaves alone\<close>

text \<open>Two processes that differ only in what sending changes.\<close>

definition sent_only :: "Proc \<Rightarrow> Proc \<Rightarrow> bool" where
  "sent_only p q \<longleftrightarrow> (\<exists>out bytes rs ts. q = p\<lparr>pr_van := (pr_van p)\<lparr>van_outbox := out, van_send_bytes := bytes,
     van_resender := rs, van_timestamp := ts\<rparr>\<rparr>)"

lemma sent_only_refl [simp]: "sent_only p p"
  unfolding sent_only_def by (rule exI[of _ "van_outbox (pr_van p)"], rule exI[of _ "van_send_bytes (pr_van p)"],
      rule exI[of _ "van_resender (pr_van p)"], rule exI[of _ "van_timestamp (pr_van p)"]) simp

lemma sent_only_trans: "sent_only p q \<Longrightarrow> sent_only q r \<Longrightarrow> sent_only p r"
  unfolding sent_only_def by (elim exE) (simp, blast)

lemma note_outgoing_van:
  assumes "note_outgoing W m v = Inr v'"
  shows "\<exists>rs. v' = v\<lparr>van_resender := rs\<rparr>"
proof (cases "van_resender v")
  case None
  then have "v' = v\<lparr>van_resender := van_resender v\<rparr>" using assms by (simp add: note_outgoing_def)
  then show ?thesis by blast
next
  case (Some r)
  then show ?thesis using assms by (auto simp: note_outgoing_def res_simps)
qed

lemma Send_result:
  assumes "Send W m g p = Inr (p', n)"
  shows "\<exists>rs. p' = p\<lparr>pr_van := (pr_van p)\<lparr>van_outbox := van_outbox (pr_van p) @ [(m, if g then Global else Local)],
      van_send_bytes := van_send_bytes (pr_van p) + word_of_int n, van_resender := rs\<rparr>\<rparr> \<and> n = w_send W m g \<and> n \<noteq> -1"
proof -
  from assms obtain v where n: "n = w_send W m g" "n \<noteq> -1" and p': "p' = p\<lparr>pr_van := v\<rparr>"
    and v: "note_outgoing W m ((pr_van p)\<lparr>van_outbox := van_outbox (pr_van p) @ [(m, if g then Global else Local)],
      van_send_bytes := van_send_bytes (pr_van p) + word_of_int n\<rparr>) = Inr v"
    by (auto simp: Send_def Let_def res_simps)
  from note_outgoing_van[OF v] n p' show ?thesis by auto
qed

lemma Send_facts:
  assumes "Send W m g p = Inr (p', n)"
  shows "van_outbox (pr_van p') = van_outbox (pr_van p) @ [(m, if g then Global else Local)]"
    and "sent_only p p'" and "n = w_send W m g" and "van_timestamp (pr_van p') = van_timestamp (pr_van p)"
proof -
  from Send_result[OF assms] obtain rs where
    p': "p' = p\<lparr>pr_van := (pr_van p)\<lparr>van_outbox := van_outbox (pr_van p) @ [(m, if g then Global else Local)],
      van_send_bytes := van_send_bytes (pr_van p) + word_of_int n, van_resender := rs\<rparr>\<rparr>" and n: "n = w_send W m g"
    by blast
  show "van_outbox (pr_van p') = van_outbox (pr_van p) @ [(m, if g then Global else Local)]"
    "n = w_send W m g" "van_timestamp (pr_van p') = van_timestamp (pr_van p)" by (simp_all add: p' n)
  have "p' = p\<lparr>pr_van := (pr_van p)\<lparr>van_outbox := van_outbox (pr_van p) @ [(m, if g then Global else Local)],
      van_send_bytes := van_send_bytes (pr_van p) + word_of_int n, van_resender := rs,
      van_timestamp := van_timestamp (pr_van p)\<rparr>\<rparr>" by (simp add: p')
  then show "sent_only p p'" unfolding sent_only_def by blast
qed

text \<open>Without a resender a message the transport takes is sent.\<close>

lemma Send_succeeds:
  assumes "van_resender (pr_van p) = None" "w_send W m g \<noteq> -1"
  shows "Send W m g p = Inr (upd_van (\<lambda>v. v\<lparr>van_outbox := van_outbox v @ [(m, if g then Global else Local)],
    van_send_bytes := van_send_bytes v + word_of_int (w_send W m g)\<rparr>) p, w_send W m g)"
  using assms by (simp add: Send_def Let_def res_simps note_outgoing_def upd_van_def)

text \<open>The message \<open>broadcast\<close> sends to a node.\<close>

definition bcast_msg :: "(int \<Rightarrow> Meta) \<Rightarrow> int \<Rightarrow> int \<Rightarrow> Message" where
  "bcast_msg mk ts r = empty_Message\<lparr>msg_meta := (mk r)\<lparr>m_recver := r, m_timestamp := ts\<rparr>\<rparr>"

fun bcast_msgs :: "(int \<Rightarrow> Meta) \<Rightarrow> int \<Rightarrow> int list \<Rightarrow> Message list" where
  "bcast_msgs mk ts [] = []"
| "bcast_msgs mk ts (r # rs) = bcast_msg mk ts r # bcast_msgs mk (ts + 1) rs"

lemma bcast_msgs_recvers [simp]: "map (\<lambda>m. m_recver (msg_meta m)) (bcast_msgs mk ts rs) = rs"
  by (induction rs arbitrary: ts) (auto simp: bcast_msg_def)

lemma length_bcast_msgs [simp]: "length (bcast_msgs mk ts rs) = length rs"
  by (induction rs arbitrary: ts) auto

lemma sent_only_timestamp: "sent_only p (upd_van (van_timestamp_update f) p)"
  unfolding sent_only_def
  by (rule exI[of _ "van_outbox (pr_van p)"], rule exI[of _ "van_send_bytes (pr_van p)"],
      rule exI[of _ "van_resender (pr_van p)"], rule exI[of _ "f (van_timestamp (pr_van p))"]) (simp add: upd_van_def)

lemma broadcast_facts:
  assumes "broadcast W g ok mk rs p = Inr p'"
  shows "van_outbox (pr_van p') = van_outbox (pr_van p) @
      map (\<lambda>m. (m, if g then Global else Local)) (bcast_msgs mk (van_timestamp (pr_van p)) rs) \<and> sent_only p p'"
  using assms
proof (induction rs arbitrary: p)
  case (Cons r rs)
  let ?p1 = "upd_van (van_timestamp_update (\<lambda>t. t + 1)) p"
  from Cons.prems obtain p2 n where
    snd: "Send W (bcast_msg mk (van_timestamp (pr_van p)) r) g ?p1 = Inr (p2, n)"
    and rest: "broadcast W g ok mk rs p2 = Inr p'"
    by (auto simp: GetTimestamp_def Let_def res_simps bcast_msg_def)
  note f = Send_facts[OF snd]
  have "van_timestamp (pr_van p2) = van_timestamp (pr_van p) + 1"
    using f(4) by (simp add: upd_van_def)
  moreover have "van_outbox (pr_van ?p1) = van_outbox (pr_van p)" by (simp add: upd_van_def)
  moreover have "sent_only p p2" using sent_only_trans[OF sent_only_timestamp f(2)] .
  ultimately show ?case using Cons.IH[OF rest] f(1) by (auto intro: sent_only_trans)
qed simp

lemma broadcast_succeeds:
  assumes "van_resender (pr_van p) = None" "\<forall>m. w_send W m g \<noteq> -1 \<and> ok (w_send W m g)"
  shows "\<exists>p'. broadcast W g ok mk rs p = Inr p' \<and> van_resender (pr_van p') = None"
  using assms(1)
proof (induction rs arbitrary: p)
  case (Cons r rs)
  let ?m = "empty_Message\<lparr>msg_meta := (mk r)\<lparr>m_recver := r, m_timestamp := van_timestamp (pr_van p)\<rparr>\<rparr>"
  let ?p1 = "upd_van (van_timestamp_update (\<lambda>t. t + 1)) p"
  let ?p2 = "upd_van (\<lambda>v. v\<lparr>van_outbox := van_outbox v @ [(?m, if g then Global else Local)],
    van_send_bytes := van_send_bytes v + word_of_int (w_send W ?m g)\<rparr>) ?p1"
  have "van_resender (pr_van ?p1) = None" using Cons.prems by (simp add: upd_van_def)
  from Send_succeeds[OF this, of W ?m g] assms(2)
  have snd: "Send W ?m g ?p1 = Inr (?p2, w_send W ?m g)" by blast
  have "van_resender (pr_van ?p2) = None" using Cons.prems by (simp add: upd_van_def)
  from Cons.IH[OF this] obtain p' where "broadcast W g ok mk rs ?p2 = Inr p'" "van_resender (pr_van p') = None" by blast
  then show ?case using snd assms(2) by (simp add: GetTimestamp_def rbind_def chk_def)
qed simp

end
