(* ===== verification/Membership.thy ===== *)
theory Membership
  imports Vans "HOL-Library.List_Lexorder" "HOL-Library.Char_ord"
begin

text \<open>
  How nodes join (\<^verbatim>\<open>van.cc\<close>, the ADD_NODE and ADD_GLOBAL_NODE commands): registration at the
  scheduler of a party and at the global scheduler, the assignment of ids, recovery of dead nodes,
  and what every other node does with the node table it receives; and heartbeats.
\<close>

unbundle bit_operations_syntax

subsection \<open>Addresses and the order of nodes\<close>

fun string_of_nat :: "nat \<Rightarrow> string" where
  "string_of_nat n = (if n < 10 then [char_of (48 + n)] else string_of_nat (n div 10) @ [char_of (48 + n mod 10)])"

declare string_of_nat.simps [simp del]

definition to_string :: "int \<Rightarrow> string" where
  "to_string i = (if i < 0 then ''-'' @ string_of_nat (nat (- i)) else string_of_nat (nat i))"

definition node_addr :: "Node \<Rightarrow> string" where
  "node_addr n = n_hostname n @ '':'' @ to_string (n_port n)"

text \<open>\<open>std::string::compare\<close>, of which only the sign is specified.\<close>

definition host_compare :: "string \<Rightarrow> string \<Rightarrow> int" where
  "host_compare a b = (if a < b then -1 else if b < a then 1 else 0)"

definition node_before :: "Node \<Rightarrow> Node \<Rightarrow> bool" where
  "node_before a b \<longleftrightarrow> (host_compare (n_hostname a) (n_hostname b) OR of_bool (n_port a < n_port b)) > 0"

text \<open>
  \<open>std::sort\<close> returns some permutation sorted by the comparator; the order of nodes that compare
  equal is not specified, so the sorting routine is a parameter with this contract.
\<close>

definition sorts_nodes :: "(Node list \<Rightarrow> Node list) \<Rightarrow> bool" where
  "sorts_nodes srt \<longleftrightarrow> (\<forall>ns. mset (srt ns) = mset ns \<and> sorted_wrt (\<lambda>a b. \<not> node_before b a) (srt ns))"

subsection \<open>The scheduler of a party\<close>

text \<open>An \<open>int\<close> converted to \<open>size_t\<close>.\<close>

definition to_size :: "int \<Rightarrow> int" where
  "to_size i = i mod 2 ^ 64"

definition next_local_id :: "Node \<Rightarrow> Van \<Rightarrow> int" where
  "next_local_id n v = (if n_role n = SERVER then ServerRankToID (van_num_servers v) False
                        else WorkerRankToID (van_num_workers v) False)"

definition Connect :: "Node \<Rightarrow> bool \<Rightarrow> Van \<Rightarrow> Van" where
  "Connect n is_global v = v\<lparr>van_connections := van_connections v @ [(n, is_global)]\<rparr>"

definition Connect_UDP :: "Node \<Rightarrow> Van \<Rightarrow> Van" where
  "Connect_UDP n v = v\<lparr>van_connections_udp := van_connections_udp v @ [n]\<rparr>"

definition count_local :: "Role \<Rightarrow> Van \<Rightarrow> Van" where
  "count_local role v =
     (if role = SERVER then v\<lparr>van_num_servers := van_num_servers v + 1\<rparr>
      else if role = WORKER then v\<lparr>van_num_workers := van_num_workers v + 1\<rparr> else v)"

definition assign_node :: "int \<Rightarrow> Node \<Rightarrow> Proc \<Rightarrow> (Node \<times> Proc) res" where
  "assign_node t n p =
     (let v = pr_van p; id = next_local_id n v in
      case van_connected_nodes v (node_addr n) of
        None \<Rightarrow> chk (n_id n = kEmpty) ''node.id == Node::kEmpty''
          (let n' = n\<lparr>n_id := id\<rparr> in
           Inr (n', p\<lparr>pr_van := count_local (n_role n) ((Connect n' False v)\<lparr>van_connected_nodes :=
                        (van_connected_nodes v)(node_addr n \<mapsto> id)\<rparr>),
                      pr_po := UpdateHeartbeat id t (pr_po p)\<rparr>))
      | Some cid \<Rightarrow>
          Inr (n\<lparr>n_id := cid\<rparr>, p\<lparr>pr_van := count_local (n_role n) (v\<lparr>van_shared_node_mapping :=
                        (van_shared_node_mapping v)(id \<mapsto> cid)\<rparr>)\<rparr>))"

fun assign_nodes :: "int \<Rightarrow> Node list \<Rightarrow> Proc \<Rightarrow> (Node list \<times> Proc) res" where
  "assign_nodes t [] p = Inr ([], p)"
| "assign_nodes t (n # ns) p =
     rbind (assign_node t n p) (\<lambda>(n', p1). rbind (assign_nodes t ns p1) (\<lambda>(ns', p2). Inr (n' # ns', p2)))"

definition with_nodes :: "Command \<Rightarrow> Node list \<Rightarrow> Meta \<Rightarrow> Meta" where
  "with_nodes cmd ns meta = meta\<lparr>m_control := (m_control meta)\<lparr>c_cmd := cmd, c_node := ns\<rparr>\<rparr>"

definition unshared :: "Van \<Rightarrow> int list \<Rightarrow> int list" where
  "unshared v ids = filter (\<lambda>r. van_shared_node_mapping v r = None) ids"

text \<open>The two branches of \<open>ProcessAddNodeCommandAtScheduler\<close>: everyone has registered, or one node recovers.\<close>

definition start_party :: "World \<Rightarrow> (Node list \<Rightarrow> Node list) \<Rightarrow> Meta \<Rightarrow> Proc \<Rightarrow> (Meta \<times> Proc) res" where
  "start_party W srt nodes p =
     rbind (assign_nodes (w_time W) (srt (c_node (m_control nodes))) p) (\<lambda>(ns, p1).
       let nodes' = with_nodes ADD_NODE (ns @ [van_my_node (pr_van p1)]) nodes in
       rbind (GetNodeIDs (pr_po p1) (kWorkerGroup + kServerGroup) False) (\<lambda>ids.
       rbind (broadcast W False (\<lambda>n. n \<noteq> -1) (\<lambda>_. nodes') (unshared (pr_van p1) ids) p1) (\<lambda>p2.
         Inr (nodes', upd_van (van_ready_update (\<lambda>_. True)) p2))))"

definition recover_node :: "World \<Rightarrow> Meta \<Rightarrow> Meta \<Rightarrow> Proc \<Rightarrow> Proc res" where
  "recover_node W nodes recovery_nodes p =
     rbind (GetDeadNodes (pr_po p) (van_ready (pr_van p)) (van_heartbeat_timeout (pr_van p)) (w_time W)) (\<lambda>dead.
       chk (length (c_node (m_control recovery_nodes)) = 1) ''recovery_nodes->control.node.size() == 1''
       (let rn = hd (c_node (m_control recovery_nodes));
            p1 = (upd_van (Connect rn False) p)\<lparr>pr_po := UpdateHeartbeat (n_id rn) (w_time W) (pr_po p)\<rparr> in
        rbind (GetNodeIDs (pr_po p1) (kWorkerGroup + kServerGroup) False) (\<lambda>ids.
          broadcast W False (\<lambda>n. n \<noteq> -1) (\<lambda>r. if r = n_id rn then nodes else recovery_nodes)
            (filter (\<lambda>r. \<not> (r \<noteq> n_id rn \<and> r \<in> set dead)) ids) p1)))"

definition ProcessAddNodeCommandAtScheduler ::
  "World \<Rightarrow> (Node list \<Rightarrow> Node list) \<Rightarrow> Meta \<Rightarrow> Meta \<Rightarrow> Proc \<Rightarrow> (Meta \<times> Meta \<times> Proc) res" where
  "ProcessAddNodeCommandAtScheduler W srt nodes recovery_nodes p =
     (let recovery' = recovery_nodes\<lparr>m_control := (m_control recovery_nodes)\<lparr>c_cmd := ADD_NODE\<rparr>\<rparr>;
          num_nodes = to_size (po_num_servers (pr_po p) + po_num_workers (pr_po p)) in
      if int (length (c_node (m_control nodes))) = num_nodes then
        rbind (start_party W srt nodes p) (\<lambda>(nodes', p'). Inr (nodes', recovery', p'))
      else if c_node (m_control recovery') \<noteq> [] then
        rbind (recover_node W nodes recovery' p) (\<lambda>p'. Inr (nodes, recovery', p'))
      else Inr (nodes, recovery', p))"

subsection \<open>Registration and the node's own id\<close>

text \<open>The slot of the first dead node with the role of the newcomer, the scheduler's own slot excluded.\<close>

definition dead_slot :: "int list \<Rightarrow> Node \<Rightarrow> Node list \<Rightarrow> nat option" where
  "dead_slot dead new ns =
     find (\<lambda>i. n_id (ns ! i) \<in> set dead \<and> n_role (ns ! i) = n_role new) [0..<length ns - 1]"

definition register_node :: "int list \<Rightarrow> Message \<Rightarrow> Meta \<Rightarrow> Meta \<Rightarrow> Proc \<Rightarrow> (Message \<times> Meta \<times> Meta) res" where
  "register_node dead m nodes recovery_nodes p =
     (let ctrl = m_control (msg_meta m); ns = c_node (m_control nodes);
          num_nodes = to_size (po_num_servers (pr_po p) + po_num_workers (pr_po p)) in
      if m_sender (msg_meta m) \<noteq> kEmpty then Inr (m, nodes, recovery_nodes)
      else chk (van_is_scheduler (pr_van p)) ''is_scheduler_''
        (chk (length (c_node ctrl) = 1) ''ctrl.node.size() == 1''
          (let new = hd (c_node ctrl) in
           if int (length ns) < num_nodes then
             Inr (m, nodes\<lparr>m_control := (m_control nodes)\<lparr>c_node := ns @ [new]\<rparr>\<rparr>, recovery_nodes)
           else chk (van_ready (pr_van p)) ''ready_''
             (defined (ns \<noteq> []) ''nodes->control.node[i]''
               (case dead_slot dead new ns of
                  None \<Rightarrow> Inr (m, nodes, recovery_nodes)
                | Some i \<Rightarrow>
                    (let rn = new\<lparr>n_id := n_id (ns ! i), n_is_recovery := True\<rparr> in
                     Inr (m\<lparr>msg_meta := (msg_meta m)\<lparr>m_control := ctrl\<lparr>c_node := [rn]\<rparr>\<rparr>\<rparr>,
                          nodes\<lparr>m_control := (m_control nodes)\<lparr>c_node := ns[i := rn]\<rparr>\<rparr>,
                          recovery_nodes\<lparr>m_control := (m_control recovery_nodes)\<lparr>c_node :=
                            c_node (m_control recovery_nodes) @ [rn]\<rparr>\<rparr>)))))))"

definition same_addr :: "Node \<Rightarrow> Node \<Rightarrow> bool" where
  "same_addr a b \<longleftrightarrow> n_hostname a = n_hostname b \<and> n_port a = n_port b"

definition update_my_id :: "Node \<Rightarrow> Proc \<Rightarrow> Proc" where
  "update_my_id node p =
     (if same_addr (van_my_node (pr_van p)) node \<and>
         (pr_env p ''DMLC_RANK'' = None \<or> n_id (van_my_node (pr_van p)) = kEmpty) then
        p\<lparr>pr_van := (pr_van p)\<lparr>van_my_node := node\<rparr>,
          pr_env := (pr_env p)(''DMLC_RANK'' \<mapsto> to_string (IDtoRank (n_id node)))\<rparr>
      else p)"

definition UpdateLocalID :: "int list \<Rightarrow> Message \<Rightarrow> Meta \<Rightarrow> Meta \<Rightarrow> Proc \<Rightarrow> (Message \<times> Meta \<times> Meta \<times> Proc) res" where
  "UpdateLocalID dead m nodes recovery_nodes p =
     rbind (register_node dead m nodes recovery_nodes p) (\<lambda>(m', nodes', recovery').
       Inr (m', nodes', recovery', fold update_my_id (c_node (m_control (msg_meta m'))) p))"

definition connect_peer :: "Node \<Rightarrow> Van \<Rightarrow> Van" where
  "connect_peer node v =
     (let v1 = (case van_connected_nodes v (node_addr node) of
                  None \<Rightarrow> (Connect node False v)\<lparr>van_connected_nodes :=
                            (van_connected_nodes v)(node_addr node \<mapsto> n_id node)\<rparr>
                | Some _ \<Rightarrow> v) in
      if n_is_recovery node then v1 else count_local (n_role node) v1)"

definition ProcessAddNodeCommand ::
  "World \<Rightarrow> (Node list \<Rightarrow> Node list) \<Rightarrow> Message \<Rightarrow> Meta \<Rightarrow> Meta \<Rightarrow> Proc \<Rightarrow> (Meta \<times> Meta \<times> Proc) res" where
  "ProcessAddNodeCommand W srt m nodes recovery_nodes p =
     rbind (GetDeadNodes (pr_po p) (van_ready (pr_van p)) (van_heartbeat_timeout (pr_van p)) (w_time W)) (\<lambda>dead.
     rbind (UpdateLocalID dead m nodes recovery_nodes p) (\<lambda>(m', nodes', recovery', p1).
       if van_is_scheduler (pr_van p1) then ProcessAddNodeCommandAtScheduler W srt nodes' recovery' p1
       else Inr (nodes', recovery',
              upd_van (\<lambda>v. (fold connect_peer (c_node (m_control (msg_meta m'))) v)\<lparr>van_ready := True\<rparr>) p1)))"

subsection \<open>The global layer\<close>

definition next_global_id :: "Node \<Rightarrow> Van \<Rightarrow> int" where
  "next_global_id n v = (if n_role n = GLOBAL_SERVER then ServerRankToID (van_num_global_servers v) True
                         else WorkerRankToID (van_num_global_workers v) True)"

definition count_global :: "Role \<Rightarrow> Van \<Rightarrow> Van" where
  "count_global role v =
     (if role = GLOBAL_SERVER then v\<lparr>van_num_global_servers := van_num_global_servers v + 1\<rparr>
      else if role = SERVER then v\<lparr>van_num_global_workers := van_num_global_workers v + 1\<rparr> else v)"

definition assign_global_node :: "Node \<Rightarrow> Van \<Rightarrow> (Node \<times> Van) res" where
  "assign_global_node n v =
     (let id = next_global_id n v in
      case van_connected_nodes v (node_addr n) of
        None \<Rightarrow> chk (n_id n = kEmpty) ''node.id == Node::kEmpty''
          (let n' = n\<lparr>n_id := id\<rparr> in
           Inr (n', count_global (n_role n) ((Connect n' True v)\<lparr>van_connected_nodes :=
                      (van_connected_nodes v)(node_addr n \<mapsto> id)\<rparr>)))
      | Some cid \<Rightarrow>
          Inr (n\<lparr>n_id := cid\<rparr>, count_global (n_role n) (v\<lparr>van_shared_node_mapping :=
                      (van_shared_node_mapping v)(id \<mapsto> cid)\<rparr>)))"

fun assign_global_nodes :: "Node list \<Rightarrow> Van \<Rightarrow> (Node list \<times> Van) res" where
  "assign_global_nodes [] v = Inr ([], v)"
| "assign_global_nodes (n # ns) v =
     rbind (assign_global_node n v) (\<lambda>(n', v1). rbind (assign_global_nodes ns v1) (\<lambda>(ns', v2). Inr (n' # ns', v2)))"

definition ProcessAddGlobalNodeCommandAtScheduler ::
  "World \<Rightarrow> (Node list \<Rightarrow> Node list) \<Rightarrow> Meta \<Rightarrow> Proc \<Rightarrow> (Meta \<times> Proc) res" where
  "ProcessAddGlobalNodeCommandAtScheduler W srt nodes p =
     (if int (length (c_node (m_control nodes))) =
         to_size (po_num_global_servers (pr_po p) + po_num_global_workers (pr_po p)) then
        rbind (assign_global_nodes (srt (c_node (m_control nodes))) (pr_van p)) (\<lambda>(ns, v1).
          let nodes' = with_nodes ADD_GLOBAL_NODE (ns @ [van_my_node_global v1]) nodes; p1 = p\<lparr>pr_van := v1\<rparr> in
          rbind (GetNodeIDs (pr_po p1) (kWorkerGroupGlobal + kServerGroupGlobal) True) (\<lambda>ids.
          rbind (broadcast W True (\<lambda>n. n \<noteq> -1) (\<lambda>_. nodes') (unshared v1 ids) p1) (\<lambda>p2.
            Inr (nodes', upd_van (\<lambda>v. v\<lparr>van_ready := True, van_ready_global := True\<rparr>) p2))))
      else Inr (nodes, p))"

definition register_global_node :: "Message \<Rightarrow> Meta \<Rightarrow> Proc \<Rightarrow> Meta res" where
  "register_global_node m nodes p =
     (let ctrl = m_control (msg_meta m) in
      if m_sender (msg_meta m) \<noteq> kEmpty then Inr nodes
      else chk (van_is_global_scheduler (pr_van p)) ''is_global_scheduler_''
        (chk (length (c_node ctrl) = 1) ''ctrl.node.size() == 1''
          (if int (length (c_node (m_control nodes))) <
              to_size (po_num_global_servers (pr_po p) + po_num_global_workers (pr_po p)) then
             Inr (nodes\<lparr>m_control := (m_control nodes)\<lparr>c_node := c_node (m_control nodes) @ [hd (c_node ctrl)]\<rparr>\<rparr>)
           else Inr nodes)))"

definition update_my_global_id :: "Node \<Rightarrow> Proc \<Rightarrow> Proc" where
  "update_my_global_id node p =
     (if same_addr (van_my_node_global (pr_van p)) node then
        p\<lparr>pr_van := (pr_van p)\<lparr>van_my_node_global := node\<rparr>,
          pr_env := (pr_env p)(''DMLC_GLOBAL_RANK'' \<mapsto> to_string (IDtoRank (n_id node)))\<rparr>
      else p)"

definition UpdateServerID :: "Message \<Rightarrow> Meta \<Rightarrow> Proc \<Rightarrow> (Meta \<times> Proc) res" where
  "UpdateServerID m nodes p =
     rbind (register_global_node m nodes p) (\<lambda>nodes'.
       Inr (nodes', fold update_my_global_id (c_node (m_control (msg_meta m))) p))"

definition connect_global_peer :: "Node \<Rightarrow> Van \<Rightarrow> Van" where
  "connect_global_peer node v =
     (let v1 = (case van_connected_nodes v (node_addr node) of
                  None \<Rightarrow> ((if n_role node \<noteq> GLOBAL_SCHEDULER then Connect_UDP node else (\<lambda>v. v)) (Connect node True v))
                            \<lparr>van_connected_nodes := (van_connected_nodes v)(node_addr node \<mapsto> n_id node)\<rparr>
                | Some _ \<Rightarrow> v) in
      count_global (n_role node) v1)"

definition ProcessAddGlobalNodeCommand ::
  "World \<Rightarrow> (Node list \<Rightarrow> Node list) \<Rightarrow> Message \<Rightarrow> Meta \<Rightarrow> Proc \<Rightarrow> (Meta \<times> Proc) res" where
  "ProcessAddGlobalNodeCommand W srt m nodes p =
     rbind (UpdateServerID m nodes p) (\<lambda>(nodes', p1).
       if van_is_global_scheduler (pr_van p1) then ProcessAddGlobalNodeCommandAtScheduler W srt nodes' p1
       else Inr (nodes',
              upd_van (\<lambda>v. (fold connect_global_peer (c_node (m_control (msg_meta m))) v)\<lparr>van_ready_global := True\<rparr>) p1))"

subsection \<open>Heartbeats\<close>

definition heartbeat_msg :: "int \<Rightarrow> Node \<Rightarrow> int \<Rightarrow> Message" where
  "heartbeat_msg recver me ts = empty_Message\<lparr>msg_meta := empty_Meta\<lparr>m_recver := recver,
     m_control := empty_Control\<lparr>c_cmd := HEARTBEAT, c_node := [me]\<rparr>, m_timestamp := ts\<rparr>\<rparr>"

fun process_heartbeats :: "World \<Rightarrow> Node list \<Rightarrow> Proc \<Rightarrow> Proc res" where
  "process_heartbeats W [] p = Inr p"
| "process_heartbeats W (node # ns) p =
     (let p1 = p\<lparr>pr_po := UpdateHeartbeat (n_id node) (w_time W) (pr_po p)\<rparr> in
      if van_is_scheduler (pr_van p1) then
        (let (ts, p2) = GetTimestamp p1 in
         rbind (Send W (heartbeat_msg (n_id node) (van_my_node (pr_van p2)) ts) False p2)
           (\<lambda>(p3, _). process_heartbeats W ns p3))
      else process_heartbeats W ns p1)"

definition ProcessHeartbeat :: "World \<Rightarrow> Message \<Rightarrow> Proc \<Rightarrow> Proc res" where
  "ProcessHeartbeat W m p = process_heartbeats W (c_node (m_control (msg_meta m))) p"

text \<open>One iteration of the heartbeat thread, which runs while the interval is positive and the van ready.\<close>

definition heartbeat_interval :: "env \<Rightarrow> int" where
  "heartbeat_interval env = (case env ''PS_HEARTBEAT_INTERVAL'' of Some v \<Rightarrow> atoi v | None \<Rightarrow> 0)"

definition Heartbeat_round :: "World \<Rightarrow> Proc \<Rightarrow> Proc option res" where
  "Heartbeat_round W p =
     (if 0 < heartbeat_interval (pr_env p) \<and> van_ready (pr_van p) then
        (let (ts, p1) = GetTimestamp p in
         rbind (Send W (heartbeat_msg kScheduler (van_my_node (pr_van p1)) ts) False p1)
           (\<lambda>(p2, _). Inr (Some p2)))
      else Inr None)"

subsection \<open>The order of nodes\<close>

lemma node_before_iff:
  "node_before a b \<longleftrightarrow> n_hostname b < n_hostname a \<or> n_hostname a = n_hostname b \<and> n_port a < n_port b"
  by (auto simp: node_before_def host_compare_def)

fun insert_node :: "Node \<Rightarrow> Node list \<Rightarrow> Node list" where
  "insert_node n [] = [n]"
| "insert_node n (m # ms) = (if node_before m n then m # insert_node n ms else n # m # ms)"

definition sort_nodes :: "Node list \<Rightarrow> Node list" where
  "sort_nodes ns = foldr insert_node ns []"

lemma mset_insert_node [simp]: "mset (insert_node n ms) = add_mset n (mset ms)"
  by (induction ms) auto

lemma set_insert_node [simp]: "set (insert_node n ms) = insert n (set ms)"
  by (induction ms) auto

lemma not_before_trans: "\<not> node_before b a \<Longrightarrow> \<not> node_before c b \<Longrightarrow> \<not> node_before c a"
  by (auto simp: node_before_iff)

lemma before_not_before: "node_before a b \<Longrightarrow> \<not> node_before b a"
  by (auto simp: node_before_iff)

lemma sorted_insert_node:
  "sorted_wrt (\<lambda>a b. \<not> node_before b a) ms \<Longrightarrow> sorted_wrt (\<lambda>a b. \<not> node_before b a) (insert_node n ms)"
  by (induction ms) (auto dest: before_not_before, meson not_before_trans)

lemma sort_nodes_sorts: "sorts_nodes sort_nodes"
proof -
  have "mset (sort_nodes ns) = mset ns \<and> sorted_wrt (\<lambda>a b. \<not> node_before b a) (sort_nodes ns)" for ns
    by (induction ns) (auto simp: sort_nodes_def sorted_insert_node)
  then show ?thesis by (simp add: sorts_nodes_def)
qed

subsection \<open>Assignment of ids\<close>

text \<open>
  The specification of both layers: going through the nodes, the k-th server gets the id of server
  rank k and the k-th other node the id of worker rank k.
\<close>

fun ranked :: "(Node \<Rightarrow> bool) \<Rightarrow> (int \<Rightarrow> int) \<Rightarrow> (int \<Rightarrow> int) \<Rightarrow> int \<Rightarrow> int \<Rightarrow> Node list \<Rightarrow> Node list" where
  "ranked is_srv srv_id wrk_id a b [] = []"
| "ranked is_srv srv_id wrk_id a b (n # ns) =
     (if is_srv n then n\<lparr>n_id := srv_id a\<rparr> # ranked is_srv srv_id wrk_id (a + 1) b ns
      else n\<lparr>n_id := wrk_id b\<rparr> # ranked is_srv srv_id wrk_id a (b + 1) ns)"

definition num_such :: "('a \<Rightarrow> bool) \<Rightarrow> 'a list \<Rightarrow> nat" where
  "num_such f xs = length (filter f xs)"

lemma map_upt_shift: "map (\<lambda>i. f (a + int i)) [0..<Suc k] = f a # map (\<lambda>i. f (a + 1 + int i)) [0..<k]"
  by (subst upt_conv_Cons) (auto simp: map_Suc_upt[symmetric] simp del: upt_Suc intro!: arg_cong[where f = f])

lemma mset_ids_ranked:
  "mset (map n_id (ranked is_srv srv_id wrk_id a b ns)) =
     mset (map (\<lambda>i. wrk_id (b + int i)) [0..<num_such (\<lambda>n. \<not> is_srv n) ns]) +
     mset (map (\<lambda>i. srv_id (a + int i)) [0..<num_such is_srv ns])"
proof (induction ns arbitrary: a b)
  case (Cons n ns)
  show ?case
  proof (cases "is_srv n")
    case True
    then have "num_such is_srv (n # ns) = Suc (num_such is_srv ns)"
      "num_such (\<lambda>n. \<not> is_srv n) (n # ns) = num_such (\<lambda>n. \<not> is_srv n) ns" by (simp_all add: num_such_def)
    then show ?thesis using True Cons.IH[of "a + 1" b] by (simp add: map_upt_shift del: upt_Suc)
  next
    case False
    then have "num_such is_srv (n # ns) = num_such is_srv ns"
      "num_such (\<lambda>n. \<not> is_srv n) (n # ns) = Suc (num_such (\<lambda>n. \<not> is_srv n) ns)" by (simp_all add: num_such_def)
    then show ?thesis using False Cons.IH[of a "b + 1"] by (simp add: map_upt_shift del: upt_Suc)
  qed
qed (simp add: num_such_def)

lemma ranked_nodes: "map (\<lambda>n. n\<lparr>n_id := i\<rparr>) (ranked is_srv srv_id wrk_id a b ns) = map (\<lambda>n. n\<lparr>n_id := i\<rparr>) ns"
  by (induction ns arbitrary: a b) auto

lemma ranked_roles:
  assumes "\<forall>n i. is_srv (n\<lparr>n_id := i\<rparr>) = is_srv n"
    and "n \<in> set (ranked is_srv srv_id wrk_id a b ns)" "\<forall>i. even (srv_id i) \<and> odd (wrk_id i)"
  shows "even (n_id n) = is_srv n"
  using assms(2) by (induction ns arbitrary: a b) (auto simp: assms(1,3) split: if_splits)

text \<open>What a layer's assignment loop provides.\<close>

locale rank_assignment =
  fixes assign_one :: "Node \<Rightarrow> 's \<Rightarrow> (Node \<times> 's) res"
    and assign_all :: "Node list \<Rightarrow> 's \<Rightarrow> (Node list \<times> 's) res"
    and is_srv :: "Node \<Rightarrow> bool" and eligible :: "Node \<Rightarrow> bool"
    and srv_id wrk_id :: "int \<Rightarrow> int"
    and nsrv nwrk :: "'s \<Rightarrow> int" and conn :: "'s \<Rightarrow> (string \<rightharpoonup> int)" and frame :: "'s \<Rightarrow> 'f"
  assumes assign_Nil: "assign_all [] s = Inr ([], s)"
    and assign_Cons: "assign_all (n # ns) s =
      rbind (assign_one n s) (\<lambda>(n', s1). rbind (assign_all ns s1) (\<lambda>(ns', s2). Inr (n' # ns', s2)))"
    and assign_fresh: "eligible n \<Longrightarrow> conn s (node_addr n) = None \<Longrightarrow> n_id n = kEmpty \<Longrightarrow>
      \<exists>s'. assign_one n s = Inr (n\<lparr>n_id := if is_srv n then srv_id (nsrv s) else wrk_id (nwrk s)\<rparr>, s') \<and>
        nsrv s' = nsrv s + of_bool (is_srv n) \<and> nwrk s' = nwrk s + of_bool (\<not> is_srv n) \<and>
        (\<forall>a. a \<noteq> node_addr n \<longrightarrow> conn s' a = conn s a) \<and> frame s' = frame s"
begin

lemma assign_all_ranked:
  assumes "\<forall>n \<in> set ns. eligible n \<and> conn s (node_addr n) = None \<and> n_id n = kEmpty" "distinct (map node_addr ns)"
  shows "\<exists>s'. assign_all ns s = Inr (ranked is_srv srv_id wrk_id (nsrv s) (nwrk s) ns, s') \<and> frame s' = frame s"
  using assms
proof (induction ns arbitrary: s)
  case Nil
  then show ?case by (simp add: assign_Nil)
next
  case (Cons n ns)
  then obtain s1 where
    one: "assign_one n s = Inr (n\<lparr>n_id := if is_srv n then srv_id (nsrv s) else wrk_id (nwrk s)\<rparr>, s1)"
    and cnt: "nsrv s1 = nsrv s + of_bool (is_srv n)" "nwrk s1 = nwrk s + of_bool (\<not> is_srv n)"
    and conn: "\<forall>a. a \<noteq> node_addr n \<longrightarrow> conn s1 a = conn s a" and fr: "frame s1 = frame s"
    using assign_fresh[of n s] by (meson list.set_intros(1))
  have "\<forall>x \<in> set ns. eligible x \<and> conn s1 (node_addr x) = None \<and> n_id x = kEmpty"
    using Cons.prems conn by (auto simp: image_iff)
  then obtain s2 where "assign_all ns s1 = Inr (ranked is_srv srv_id wrk_id (nsrv s1) (nwrk s1) ns, s2)"
    "frame s2 = frame s1"
    using Cons.IH[of s1] Cons.prems(2) by auto
  then show ?case using one cnt fr by (cases "is_srv n") (auto simp: assign_Cons rbind_def)
qed

end

definition party_frame :: "Proc \<Rightarrow> (int \<rightharpoonup> int) \<times> (int \<rightharpoonup> int list) \<times> Resender option \<times> Node \<times> (Message \<times> channel) list \<times> int" where
  "party_frame p = (van_shared_node_mapping (pr_van p), po_node_ids (pr_po p), van_resender (pr_van p),
     van_my_node (pr_van p), van_outbox (pr_van p), van_timestamp (pr_van p))"

interpretation party_ranks: rank_assignment "assign_node t" "assign_nodes t"
  "\<lambda>n. n_role n = SERVER" "\<lambda>n. n_role n = SERVER \<or> n_role n = WORKER"
  "\<lambda>i. ServerRankToID i False" "\<lambda>i. WorkerRankToID i False"
  "\<lambda>p. van_num_servers (pr_van p)" "\<lambda>p. van_num_workers (pr_van p)"
  "\<lambda>p. van_connected_nodes (pr_van p)" party_frame
  by unfold_locales
    (auto simp: assign_node_def Let_def chk_def count_local_def Connect_def next_local_id_def UpdateHeartbeat_def party_frame_def)

definition global_frame :: "Van \<Rightarrow> (int \<rightharpoonup> int) \<times> Resender option \<times> Node \<times> (Message \<times> channel) list \<times> int" where
  "global_frame v = (van_shared_node_mapping v, van_resender v, van_my_node_global v, van_outbox v, van_timestamp v)"

interpretation global_ranks: rank_assignment assign_global_node assign_global_nodes
  "\<lambda>n. n_role n = GLOBAL_SERVER" "\<lambda>n. n_role n = GLOBAL_SERVER \<or> n_role n = SERVER"
  "\<lambda>i. ServerRankToID i True" "\<lambda>i. WorkerRankToID i True"
  van_num_global_servers van_num_global_workers van_connected_nodes global_frame
  by unfold_locales
    (auto simp: assign_global_node_def Let_def chk_def count_global_def Connect_def next_global_id_def global_frame_def)

subsection \<open>Properties\<close>

text \<open>The ids of a party's workers and servers, as \<open>Start\<close> enters them into the group 6.\<close>

definition party_ids :: "nat \<Rightarrow> nat \<Rightarrow> int list" where
  "party_ids nw ns = map (\<lambda>i. WorkerRankToID (int i) False) [0..<nw] @ map (\<lambda>i. ServerRankToID (int i) False) [0..<ns]"

lemma party_ids_group:
  assumes "Start_init env empty_Postoffice = Inr po" "0 < nw + ns" "po_num_workers po = int nw" "po_num_servers po = int ns"
    and "po_node_ids po' = po_node_ids po"
  shows "GetNodeIDs po' (kWorkerGroup + kServerGroup) False = Inr (party_ids nw ns)"
proof -
  have "po_node_ids po' = party.layer [1, 7, 5, 3] (int nw) (int ns)"
    using assms Start_init_node_ids[OF assms(1)] by simp
  moreover have "ids_of (party.layer [1, 7, 5, 3] (int nw) (int ns)) (kWorkerGroup + kServerGroup) = party_ids nw ns"
    using Start_init_members[OF assms(1), of 6] assms(3,4) by (simp add: group_consts party_ids_def)
  moreover have "party_ids nw ns \<noteq> []" using assms(2) by (auto simp: party_ids_def)
  moreover have "no_empty_group (party.layer [1, 7, 5, 3] (int nw) (int ns))" by (rule party.layer_no_empty)
  ultimately show ?thesis by (subst GetNodeIDs_ids_of) simp_all
qed

text \<open>A registration table in which every node of a party is entered once, none of them with an id.\<close>

definition full_table :: "nat \<Rightarrow> nat \<Rightarrow> Node list \<Rightarrow> bool" where
  "full_table nw ns nodes \<longleftrightarrow> distinct (map node_addr nodes) \<and>
     (\<forall>n \<in> set nodes. (n_role n = SERVER \<or> n_role n = WORKER) \<and> n_id n = kEmpty) \<and>
     num_such (\<lambda>n. n_role n = SERVER) nodes = ns \<and> num_such (\<lambda>n. n_role n \<noteq> SERVER) nodes = nw"

definition fresh_scheduler :: "Van \<Rightarrow> bool" where
  "fresh_scheduler v \<longleftrightarrow> van_connected_nodes v = Map.empty \<and> van_shared_node_mapping v = Map.empty \<and>
     van_num_servers v = 0 \<and> van_num_workers v = 0 \<and> van_resender v = None"

lemma num_such_mset: "mset xs = mset ys \<Longrightarrow> num_such f xs = num_such f ys"
  unfolding num_such_def by (metis mset_filter size_mset)

lemma num_such_split: "num_such f xs + num_such (\<lambda>x. \<not> f x) xs = length xs"
  unfolding num_such_def by (rule sum_length_filter_compl)

lemma full_table_sorted:
  assumes "full_table nw ns nodes" "mset xs = mset nodes"
  shows "full_table nw ns xs"
  using assms num_such_mset[OF assms(2)] mset_eq_setD[OF assms(2)] mset_eq_imp_distinct_iff[of "map node_addr xs" "map node_addr nodes"]
  unfolding full_table_def by (simp add: mset_map)

lemma assign_full_table:
  assumes "full_table nw ns xs" "fresh_scheduler (pr_van p)"
  shows "\<exists>p'. assign_nodes t xs p =
      Inr (ranked (\<lambda>n. n_role n = SERVER) (\<lambda>i. ServerRankToID i False) (\<lambda>i. WorkerRankToID i False) 0 0 xs, p') \<and>
    party_frame p' = party_frame p"
  using party_ranks.assign_all_ranked[of xs p t] assms unfolding full_table_def fresh_scheduler_def by simp

lemma ranked_full_table:
  assumes "full_table nw ns xs"
  shows "mset (map n_id (ranked (\<lambda>n. n_role n = SERVER) (\<lambda>i. ServerRankToID i False) (\<lambda>i. WorkerRankToID i False) 0 0 xs)) =
    mset (party_ids nw ns)"
  using assms mset_ids_ranked[of "\<lambda>n. n_role n = SERVER" "\<lambda>i. ServerRankToID i False" "\<lambda>i. WorkerRankToID i False" 0 0 xs]
  unfolding full_table_def party_ids_def by simp

lemma rank_parity: "even (ServerRankToID i g) \<and> odd (WorkerRankToID i g)"
  by (simp add: ServerRankToID_def WorkerRankToID_def kOffset_def)

lemma ranked_same_nodes:
  assumes "\<forall>n \<in> set xs. n_id n = kEmpty"
  shows "map (\<lambda>n. n\<lparr>n_id := kEmpty\<rparr>) (ranked is_srv srv_id wrk_id a b xs) = xs"
proof -
  have "map (\<lambda>n. n\<lparr>n_id := kEmpty\<rparr>) xs = map (\<lambda>n. n) xs" using assms by (intro map_cong) auto
  then show ?thesis by (simp add: ranked_nodes)
qed

lemma start_party_full_table:
  assumes "GetNodeIDs (pr_po p) (kWorkerGroup + kServerGroup) False = Inr (party_ids nw ns)"
    and "sorts_nodes srt" "full_table nw ns (c_node (m_control nodes))" "fresh_scheduler (pr_van p)"
    and "\<forall>m. w_send W m False \<noteq> -1"
  shows "\<exists>nodes' p' table. start_party W srt nodes p = Inr (nodes', p') \<and> van_ready (pr_van p') \<and>
    c_node (m_control nodes') = table @ [van_my_node (pr_van p)] \<and>
    mset (map (\<lambda>n. n\<lparr>n_id := kEmpty\<rparr>) table) = mset (c_node (m_control nodes)) \<and>
    mset (map n_id table) = mset (party_ids nw ns) \<and>
    (\<forall>n \<in> set table. even (n_id n) = (n_role n = SERVER)) \<and>
    van_outbox (pr_van p') = van_outbox (pr_van p) @
      map (\<lambda>m. (m, Local)) (bcast_msgs (\<lambda>_. nodes') (van_timestamp (pr_van p)) (party_ids nw ns))"
proof -
  let ?xs = "srt (c_node (m_control nodes))"
  let ?table = "ranked (\<lambda>n. n_role n = SERVER) (\<lambda>i. ServerRankToID i False) (\<lambda>i. WorkerRankToID i False) 0 0 ?xs"
  have perm: "mset ?xs = mset (c_node (m_control nodes))" using assms(2) by (simp add: sorts_nodes_def)
  then have full: "full_table nw ns ?xs" using assms(3) full_table_sorted by metis
  obtain p1 where p1: "assign_nodes (w_time W) ?xs p = Inr (?table, p1)" and fr: "party_frame p1 = party_frame p"
    using assign_full_table[OF full assms(4)] by blast
  have fr': "van_shared_node_mapping (pr_van p1) = Map.empty" "po_node_ids (pr_po p1) = po_node_ids (pr_po p)"
    "van_resender (pr_van p1) = None" "van_my_node (pr_van p1) = van_my_node (pr_van p)"
    "van_outbox (pr_van p1) = van_outbox (pr_van p)" "van_timestamp (pr_van p1) = van_timestamp (pr_van p)"
    using fr assms(4) by (auto simp: party_frame_def fresh_scheduler_def)
  have ids: "GetNodeIDs (pr_po p1) (kWorkerGroup + kServerGroup) False = Inr (party_ids nw ns)"
    using assms(1) fr'(2) by (simp add: GetNodeIDs_def)
  let ?nodes = "with_nodes ADD_NODE (?table @ [van_my_node (pr_van p1)]) nodes"
  have uns: "unshared (pr_van p1) (party_ids nw ns) = party_ids nw ns" by (simp add: unshared_def fr'(1))
  obtain p2 where p2: "broadcast W False (\<lambda>n. n \<noteq> -1) (\<lambda>_. ?nodes) (party_ids nw ns) p1 = Inr p2"
    using broadcast_succeeds[OF fr'(3), of W False "\<lambda>n. n \<noteq> -1" "\<lambda>_. ?nodes" "party_ids nw ns"] assms(5) by auto
  let ?p' = "upd_van (van_ready_update (\<lambda>_. True)) p2"
  have start: "start_party W srt nodes p = Inr (?nodes, ?p')"
    unfolding start_party_def p1 rbind_simps prod.case ids Let_def uns p2 by simp
  have ready: "van_ready (pr_van ?p')" by (simp add: upd_van_def)
  have table: "c_node (m_control ?nodes) = ?table @ [van_my_node (pr_van p)]" by (simp add: with_nodes_def fr'(4))
  have same: "mset (map (\<lambda>n. n\<lparr>n_id := kEmpty\<rparr>) ?table) = mset (c_node (m_control nodes))"
    using full perm by (subst ranked_same_nodes) (auto simp: full_table_def)
  have parity: "\<forall>n \<in> set ?table. even (n_id n) = (n_role n = SERVER)"
    using ranked_roles[of "\<lambda>n. n_role n = SERVER"] rank_parity by simp
  have out: "van_outbox (pr_van ?p') = van_outbox (pr_van p) @
      map (\<lambda>m. (m, Local)) (bcast_msgs (\<lambda>_. ?nodes) (van_timestamp (pr_van p)) (party_ids nw ns))"
    using conjunct1[OF broadcast_facts[OF p2]] fr'(5,6) by (simp add: upd_van_def)
  from start ready table same ranked_full_table[OF full] parity out show ?thesis by blast
qed

text \<open>
  C6: the start of a party. When the last of its nodes has registered, the scheduler of a started
  post office gives every node an id, servers even ones and workers odd ones; the ids given are
  exactly the members of the worker and server groups, nothing else about the nodes changes, the
  whole table with the scheduler appended is sent once to each of them, and the scheduler is ready.
  This holds for every order in which \<open>std::sort\<close> may leave equal nodes.
\<close>

theorem party_registration_completes:
  assumes "Start_init env empty_Postoffice = Inr (pr_po p)" "sorts_nodes srt"
    and "full_table nw ns (c_node (m_control nodes))" "0 < nw + ns" "int nw + int ns < 2 ^ 64"
    and "po_num_workers (pr_po p) = int nw" "po_num_servers (pr_po p) = int ns"
    and "fresh_scheduler (pr_van p)" "\<forall>m. w_send W m False \<noteq> -1"
  shows "\<exists>nodes' rec' p' table. ProcessAddNodeCommandAtScheduler W srt nodes rec p = Inr (nodes', rec', p') \<and>
    van_ready (pr_van p') \<and> c_node (m_control nodes') = table @ [van_my_node (pr_van p)] \<and>
    mset (map (\<lambda>n. n\<lparr>n_id := kEmpty\<rparr>) table) = mset (c_node (m_control nodes)) \<and>
    mset (map n_id table) = mset (party_ids nw ns) \<and>
    (\<forall>n \<in> set table. even (n_id n) = (n_role n = SERVER)) \<and>
    van_outbox (pr_van p') = van_outbox (pr_van p) @
      map (\<lambda>m. (m, Local)) (bcast_msgs (\<lambda>_. nodes') (van_timestamp (pr_van p)) (party_ids nw ns))"
proof -
  have "length (c_node (m_control nodes)) = nw + ns"
    using assms(3) num_such_split[of "\<lambda>n. n_role n = SERVER" "c_node (m_control nodes)"] by (simp add: full_table_def)
  then have "int (length (c_node (m_control nodes))) = to_size (po_num_servers (pr_po p) + po_num_workers (pr_po p))"
    using assms(5-7) by (simp add: to_size_def)
  then have sched: "ProcessAddNodeCommandAtScheduler W srt nodes rec p =
      rbind (start_party W srt nodes p) (\<lambda>(nodes', p'). Inr (nodes', rec\<lparr>m_control := (m_control rec)\<lparr>c_cmd := ADD_NODE\<rparr>\<rparr>, p'))"
    by (simp add: ProcessAddNodeCommandAtScheduler_def)
  from start_party_full_table[OF party_ids_group[OF assms(1,4,6,7) refl] assms(2,3,8,9)]
  obtain nodes' p' table where "start_party W srt nodes p = Inr (nodes', p')" and rest: "van_ready (pr_van p')"
    "c_node (m_control nodes') = table @ [van_my_node (pr_van p)]"
    "mset (map (\<lambda>n. n\<lparr>n_id := kEmpty\<rparr>) table) = mset (c_node (m_control nodes))"
    "mset (map n_id table) = mset (party_ids nw ns)" "\<forall>n \<in> set table. even (n_id n) = (n_role n = SERVER)"
    "van_outbox (pr_van p') = van_outbox (pr_van p) @
      map (\<lambda>m. (m, Local)) (bcast_msgs (\<lambda>_. nodes') (van_timestamp (pr_van p)) (party_ids nw ns))"
    by blast
  then have "ProcessAddNodeCommandAtScheduler W srt nodes rec p =
      Inr (nodes', rec\<lparr>m_control := (m_control rec)\<lparr>c_cmd := ADD_NODE\<rparr>\<rparr>, p')"
    by (simp add: sched rbind_def)
  with rest show ?thesis by blast
qed

definition plain_node :: "Role \<Rightarrow> string \<Rightarrow> int \<Rightarrow> Node" where
  "plain_node role host port = empty_Node\<lparr>n_role := role, n_hostname := host, n_port := port\<rparr>"

definition three_nodes :: "Node list" where
  "three_nodes = [plain_node WORKER ''a'' 1, plain_node SERVER ''b'' 1, plain_node WORKER ''c'' 1]"

definition quiet_world :: World where
  "quiet_world = \<lparr>w_send = (\<lambda>_ _. 8), w_send_udp = (\<lambda>_ _ _. 8), w_time = 0, w_now = 0,
     w_rand = (\<lambda>_. 0), w_rand_r = (\<lambda>_. 0), w_mul10 = (\<lambda>x. x * 10)\<rparr>"

definition scheduler_proc :: Proc where
  "scheduler_proc = \<lparr>pr_van = new_Van\<lparr>van_is_scheduler := True\<rparr>, pr_po = scheduler_postoffice, pr_cust = Map.empty,
     pr_env = scheduler_env\<rparr>"

lemma three_nodes_full: "full_table 2 1 three_nodes"
  by (simp add: full_table_def three_nodes_def plain_node_def num_such_def node_addr_def empty_Node_def)

theorem party_registration_completes_witness:
  "\<exists>nodes' rec' p'. ProcessAddNodeCommandAtScheduler quiet_world sort_nodes
       (with_nodes EMPTY three_nodes empty_Meta) empty_Meta scheduler_proc = Inr (nodes', rec', p') \<and>
     van_ready (pr_van p') \<and> map (\<lambda>(m, c). m_recver (msg_meta m)) (van_outbox (pr_van p')) = [101, 103, 100]"
proof -
  have "\<exists>nodes' rec' p' table. ProcessAddNodeCommandAtScheduler quiet_world sort_nodes
       (with_nodes EMPTY three_nodes empty_Meta) empty_Meta scheduler_proc = Inr (nodes', rec', p') \<and>
    van_ready (pr_van p') \<and> c_node (m_control nodes') = table @ [van_my_node (pr_van scheduler_proc)] \<and>
    mset (map (\<lambda>n. n\<lparr>n_id := kEmpty\<rparr>) table) = mset (c_node (m_control (with_nodes EMPTY three_nodes empty_Meta))) \<and>
    mset (map n_id table) = mset (party_ids 2 1) \<and>
    (\<forall>n \<in> set table. even (n_id n) = (n_role n = SERVER)) \<and>
    van_outbox (pr_van p') = van_outbox (pr_van scheduler_proc) @
      map (\<lambda>m. (m, Local)) (bcast_msgs (\<lambda>_. nodes') (van_timestamp (pr_van scheduler_proc)) (party_ids 2 1))"
    by (rule party_registration_completes[of scheduler_env scheduler_proc sort_nodes 2 1
          "with_nodes EMPTY three_nodes empty_Meta" quiet_world empty_Meta])
      (simp_all add: scheduler_proc_def scheduler_start sort_nodes_sorts with_nodes_def three_nodes_full[simplified]
        scheduler_postoffice_def fresh_scheduler_def new_Van_def quiet_world_def)
  moreover have "map (\<lambda>(m, c). m_recver (msg_meta m)) (map (\<lambda>m. (m, Local)) (bcast_msgs mk ts rs)) = rs" for mk ts rs
    using bcast_msgs_recvers[of mk ts rs] by (simp add: comp_def)
  moreover have "party_ids 2 1 = [101, 103, 100]"
    by (simp add: party_ids_def WorkerRankToID_def ServerRankToID_def kOffset_def upt_rec)
  moreover have "van_outbox (pr_van scheduler_proc) = []" by (simp add: scheduler_proc_def new_Van_def)
  ultimately show ?thesis by (metis append_Nil)
qed

text \<open>
  C24: recovery gives a node its place back. When a started party's scheduler hears from a node
  without an id, the newcomer takes over the id and the slot of the first dead node of its own role,
  is marked as recovering and recorded for announcement; no other slot changes, and the scheduler's
  own slot is never taken.
\<close>

theorem recovery_takes_dead_slot:
  assumes "m_sender (msg_meta m) = kEmpty" "c_node (m_control (msg_meta m)) = [new]"
    and "van_is_scheduler (pr_van p)" "van_ready (pr_van p)"
    and "to_size (po_num_servers (pr_po p) + po_num_workers (pr_po p)) \<le> int (length (c_node (m_control nodes)))"
    and "i < length (c_node (m_control nodes)) - 1"
    and "n_id (c_node (m_control nodes) ! i) \<in> set dead" "n_role (c_node (m_control nodes) ! i) = n_role new"
  shows "\<exists>j m' nodes' rec'. register_node dead m nodes rec p = Inr (m', nodes', rec') \<and> j \<le> i \<and>
    n_id (c_node (m_control nodes) ! j) \<in> set dead \<and> n_role (c_node (m_control nodes) ! j) = n_role new \<and>
    c_node (m_control nodes') = (c_node (m_control nodes))[j := new\<lparr>n_id := n_id (c_node (m_control nodes) ! j), n_is_recovery := True\<rparr>] \<and>
    c_node (m_control rec') = c_node (m_control rec) @ [c_node (m_control nodes') ! j] \<and>
    c_node (m_control (msg_meta m')) = [c_node (m_control nodes') ! j]"
proof -
  let ?ns = "c_node (m_control nodes)"
  let ?P = "\<lambda>i. n_id (?ns ! i) \<in> set dead \<and> n_role (?ns ! i) = n_role new"
  have "dead_slot dead new ?ns \<noteq> None"
    using assms(6-8) by (auto simp: dead_slot_def find_None_iff)
  then obtain j where j: "dead_slot dead new ?ns = Some j" by blast
  then have "\<exists>k < length ?ns - 1. ?P k \<and> j = k \<and> (\<forall>l < k. \<not> ?P l)"
    unfolding dead_slot_def find_Some_iff by auto
  then have Pj: "?P j" "j < length ?ns - 1" "\<forall>l < j. \<not> ?P l" by auto
  then have "j \<le> i" using assms(7,8) not_le_imp_less by blast
  moreover have "?ns \<noteq> []" using assms(6) by auto
  ultimately show ?thesis using assms(1-5) j Pj
    by (intro exI[of _ j]) (simp add: register_node_def Let_def)
qed

definition running_table :: "Node list" where
  "running_table = map (\<lambda>(n, i). n\<lparr>n_id := i\<rparr>) (zip three_nodes [101, 100, 103]) @ [plain_node SCHEDULER ''s'' 9]"

definition hello_msg :: "Node \<Rightarrow> Message" where
  "hello_msg n = empty_Message\<lparr>msg_meta := with_nodes ADD_NODE [n] empty_Meta\<rparr>"

theorem recovery_takes_dead_slot_witness:
  "\<exists>j m' nodes' rec'. register_node [103] (hello_msg (plain_node WORKER ''d'' 1))
       (with_nodes ADD_NODE running_table empty_Meta) empty_Meta
       (upd_van (van_ready_update (\<lambda>_. True)) scheduler_proc) = Inr (m', nodes', rec') \<and> j \<le> 2 \<and>
     n_id (running_table ! j) \<in> {103}"
  using recovery_takes_dead_slot[of "hello_msg (plain_node WORKER ''d'' 1)" "plain_node WORKER ''d'' 1"
      "upd_van (van_ready_update (\<lambda>_. True)) scheduler_proc" "with_nodes ADD_NODE running_table empty_Meta" 2 "[103]" empty_Meta]
  by (fastforce simp: hello_msg_def with_nodes_def scheduler_proc_def upd_van_def scheduler_postoffice_def to_size_def
      running_table_def three_nodes_def plain_node_def empty_Meta_def empty_Message_def new_Van_def)

end
