(* ===== verification/Barriers.thy ===== *)
theory Barriers
  imports Membership
begin

text \<open>
  Barriers end to end: the scheduler's side (\<open>Van::ProcessBarrierCommand\<close>) and a step relation
  that composes it with the callers' side, \<open>Postoffice::Barrier\<close> split where it blocks and
  \<open>Postoffice::Manage\<close>, over a network that reorders.
\<close>

subsection \<open>The scheduler\<close>

definition barrier_reply :: "Message \<Rightarrow> bool \<Rightarrow> Meta" where
  "barrier_reply m is_global = empty_Meta\<lparr>m_request := False, m_app_id := m_app_id (msg_meta m),
     m_customer_id := m_customer_id (msg_meta m),
     m_control := empty_Control\<lparr>c_cmd := (if is_global then BARRIER_GLOBAL else BARRIER)\<rparr>\<rparr>"

definition barrier_counts :: "Van \<Rightarrow> int list" where
  "barrier_counts v = (if van_barrier_count v = [] then replicate 8 0 else van_barrier_count v)"

definition count_barrier :: "World \<Rightarrow> Message \<Rightarrow> bool \<Rightarrow> Proc \<Rightarrow> Proc res" where
  "count_barrier W m is_global p =
     (let counts = barrier_counts (pr_van p); grp = c_barrier_group (m_control (msg_meta m)) in
      defined (0 \<le> grp \<and> grp < int (length counts)) ''barrier_count_[group]''
       (rbind (GetNodeIDs (pr_po p) grp is_global) (\<lambda>ids.
          if counts ! nat grp + 1 = int (length ids) then
            broadcast W is_global (\<lambda>n. 0 < n) (\<lambda>_. barrier_reply m is_global) (unshared (pr_van p) ids)
              (upd_van (van_barrier_count_update (\<lambda>_. counts[nat grp := 0])) p)
          else Inr (upd_van (van_barrier_count_update (\<lambda>_. counts[nat grp := counts ! nat grp + 1])) p))))"

definition ProcessBarrierCommand :: "World \<Rightarrow> Message \<Rightarrow> bool \<Rightarrow> Proc \<Rightarrow> Proc option res" where
  "ProcessBarrierCommand W m is_global p =
     (if m_request (msg_meta m) then rbind (count_barrier W m is_global p) (\<lambda>p'. Inr (Some p'))
      else rbind (Manage m is_global (pr_po p)) (\<lambda>r. Inr (map_option (\<lambda>po. p\<lparr>pr_po := po\<rparr>) r)))"

subsection \<open>Callers, scheduler and network\<close>

datatype barrier_pc = Outside | Sent | Waiting

record BarrierSys =
  bs_sched :: Proc
  bs_po :: "int \<Rightarrow> Postoffice"
  bs_pc :: "int \<Rightarrow> barrier_pc"
  bs_passed :: "int \<Rightarrow> nat"
  bs_requests :: "Message multiset"
  bs_replies :: "Message multiset"
  bs_completed :: nat

text \<open>
  One barrier group of one layer, callers with customer id 0. \<open>bs_passed\<close> counts the barriers a
  member has left and \<open>bs_completed\<close> those the scheduler has answered.
\<close>

inductive barrier_step ::
  "World \<Rightarrow> (int \<Rightarrow> Role) \<Rightarrow> int \<Rightarrow> bool \<Rightarrow> int set \<Rightarrow> BarrierSys \<Rightarrow> BarrierSys \<Rightarrow> bool"
  for W :: World and role :: "int \<Rightarrow> Role" and grp :: int and g :: bool and members :: "int set" where
  enter: "i \<in> members \<Longrightarrow> bs_pc S i = Outside \<Longrightarrow> Barrier_request (bs_po S i) (role i) 0 grp g ts = Inr (Some m) \<Longrightarrow>
    barrier_step W role grp g members S
      (S\<lparr>bs_pc := (bs_pc S)(i := Sent), bs_requests := add_mset m (bs_requests S)\<rparr>)"
| clear: "i \<in> members \<Longrightarrow> bs_pc S i = Sent \<Longrightarrow>
    barrier_step W role grp g members S
      (S\<lparr>bs_po := (bs_po S)(i := Barrier_clear 0 g (bs_po S i)), bs_pc := (bs_pc S)(i := Waiting)\<rparr>)"
| leave: "i \<in> members \<Longrightarrow> bs_pc S i = Waiting \<Longrightarrow> Barrier_passed 0 g (bs_po S i) \<Longrightarrow>
    barrier_step W role grp g members S
      (S\<lparr>bs_pc := (bs_pc S)(i := Outside), bs_passed := (bs_passed S)(i := Suc (bs_passed S i))\<rparr>)"
| schedule: "m \<in># bs_requests S \<Longrightarrow> ProcessBarrierCommand W m g (bs_sched S) = Inr (Some p) \<Longrightarrow>
    out = map fst (drop (length (van_outbox (pr_van (bs_sched S)))) (van_outbox (pr_van p))) \<Longrightarrow>
    barrier_step W role grp g members S
      (S\<lparr>bs_sched := p, bs_requests := bs_requests S - {#m#}, bs_replies := mset out + bs_replies S,
         bs_completed := (if out = [] then bs_completed S else Suc (bs_completed S))\<rparr>)"
| reply: "m \<in># bs_replies S \<Longrightarrow> i = m_recver (msg_meta m) \<Longrightarrow> Manage m g (bs_po S i) = Inr (Some po) \<Longrightarrow>
    barrier_step W role grp g members S
      (S\<lparr>bs_po := (bs_po S)(i := po), bs_replies := bs_replies S - {#m#}\<rparr>)"

inductive barrier_reach ::
  "World \<Rightarrow> (int \<Rightarrow> Role) \<Rightarrow> int \<Rightarrow> bool \<Rightarrow> int set \<Rightarrow> BarrierSys \<Rightarrow> BarrierSys \<Rightarrow> bool"
  for W :: World and role :: "int \<Rightarrow> Role" and grp :: int and g :: bool and members :: "int set" where
  start: "barrier_reach W role grp g members S S"
| more: "barrier_reach W role grp g members S S1 \<Longrightarrow> barrier_step W role grp g members S1 S2 \<Longrightarrow>
    barrier_reach W role grp g members S S2"

definition barrier_init :: "Proc \<Rightarrow> (int \<Rightarrow> Postoffice) \<Rightarrow> BarrierSys" where
  "barrier_init sched po = \<lparr>bs_sched = sched, bs_po = po, bs_pc = (\<lambda>_. Outside), bs_passed = (\<lambda>_. 0),
     bs_requests = {#}, bs_replies = {#}, bs_completed = 0\<rparr>"

definition entered :: "BarrierSys \<Rightarrow> int \<Rightarrow> nat" where
  "entered S i = bs_passed S i + of_bool (bs_pc S i \<noteq> Outside)"

subsection \<open>Counting requests\<close>

definition bcount :: "int \<Rightarrow> Proc \<Rightarrow> int" where
  "bcount grp p = barrier_counts (pr_van p) ! nat grp"

text \<open>A scheduler whose table has the group, with its eight counters in range.\<close>

definition barrier_ready :: "int \<Rightarrow> bool \<Rightarrow> int list \<Rightarrow> Proc \<Rightarrow> bool" where
  "barrier_ready grp g ids p \<longleftrightarrow> GetNodeIDs (pr_po p) grp g = Inr ids \<and> length (barrier_counts (pr_van p)) = 8 \<and>
     van_shared_node_mapping (pr_van p) = Map.empty"

lemma sent_only_ready: "sent_only p q \<Longrightarrow> barrier_ready grp g ids p \<Longrightarrow> barrier_ready grp g ids q \<and> bcount grp' q = bcount grp' p"
  by (auto simp: sent_only_def barrier_ready_def bcount_def barrier_counts_def)

lemma ready_counts:
  assumes "barrier_ready grp g ids p" "length c = 8"
  shows "barrier_ready grp g ids (upd_van (van_barrier_count_update (\<lambda>_. c)) p) \<and>
    bcount grp (upd_van (van_barrier_count_update (\<lambda>_. c)) p) = c ! nat grp"
  using assms by (auto simp: barrier_ready_def bcount_def barrier_counts_def upd_van_def)

lemma count_barrier_step:
  assumes "count_barrier W m g p = Inr p'" "barrier_ready grp g ids p"
    and "c_barrier_group (m_control (msg_meta m)) = grp"
  shows "barrier_ready grp g ids p' \<and>
    (if bcount grp p + 1 = int (length ids)
     then bcount grp p' = 0 \<and> van_outbox (pr_van p') = van_outbox (pr_van p) @
       map (\<lambda>x. (x, if g then Global else Local)) (bcast_msgs (\<lambda>_. barrier_reply m g) (van_timestamp (pr_van p)) ids)
     else bcount grp p' = bcount grp p + 1 \<and> van_outbox (pr_van p') = van_outbox (pr_van p))"
proof -
  let ?c = "barrier_counts (pr_van p)"
  have len: "length ?c = 8" and ids: "GetNodeIDs (pr_po p) grp g = Inr ids"
    and uns: "unshared (pr_van p) ids = ids"
    using assms(2) by (auto simp: barrier_ready_def unshared_def)
  from assms(1) have rng: "0 \<le> grp" "nat grp < 8"
    by (auto simp: count_barrier_def Let_def res_simps assms(3) len)
  show ?thesis
  proof (cases "bcount grp p + 1 = int (length ids)")
    case True
    let ?p1 = "upd_van (van_barrier_count_update (\<lambda>_. ?c[nat grp := 0])) p"
    have b: "broadcast W g (\<lambda>n. 0 < n) (\<lambda>_. barrier_reply m g) ids ?p1 = Inr p'"
      using assms(1) True by (auto simp: count_barrier_def Let_def res_simps assms(3) ids uns bcount_def)
    have r: "barrier_ready grp g ids ?p1" "bcount grp ?p1 = 0"
      using ready_counts[OF assms(2), of "?c[nat grp := 0]"] len rng by simp_all
    from broadcast_facts[OF b] have so: "sent_only ?p1 p'" and
      out: "van_outbox (pr_van p') = van_outbox (pr_van ?p1) @ map (\<lambda>x. (x, if g then Global else Local))
        (bcast_msgs (\<lambda>_. barrier_reply m g) (van_timestamp (pr_van ?p1)) ids)" by auto
    then show ?thesis using sent_only_ready[OF so r(1)] r(2) True by (simp add: upd_van_def)
  next
    case False
    then have "p' = upd_van (van_barrier_count_update (\<lambda>_. ?c[nat grp := ?c ! nat grp + 1])) p"
      using assms(1) by (auto simp: count_barrier_def Let_def res_simps assms(3) ids bcount_def)
    then show ?thesis
      using ready_counts[OF assms(2), of "?c[nat grp := ?c ! nat grp + 1]"] len rng False
      by (simp add: bcount_def upd_van_def)
  qed
qed

subsection \<open>The invariant of a barrier\<close>

definition owed :: "BarrierSys \<Rightarrow> int \<Rightarrow> nat" where
  "owed S i = size (filter_mset (\<lambda>m. m_recver (msg_meta m) = i) (bs_replies S))"

definition may_leave :: "bool \<Rightarrow> BarrierSys \<Rightarrow> int \<Rightarrow> nat" where
  "may_leave g S i = of_bool (bs_pc S i = Waiting \<and> Barrier_passed 0 g (bs_po S i))"

definition budget :: "bool \<Rightarrow> BarrierSys \<Rightarrow> int \<Rightarrow> nat" where
  "budget g S i = bs_passed S i + may_leave g S i + owed S i"

lemmas budget_defs = budget_def may_leave_def owed_def

definition barrier_inv :: "int \<Rightarrow> bool \<Rightarrow> int list \<Rightarrow> BarrierSys \<Rightarrow> bool" where
  "barrier_inv grp g ids S \<longleftrightarrow>
     barrier_ready grp g ids (bs_sched S) \<and> 0 \<le> bcount grp (bs_sched S) \<and> bcount grp (bs_sched S) < int (length ids) \<and>
     (\<forall>m \<in># bs_requests S. m_request (msg_meta m) \<and> c_barrier_group (m_control (msg_meta m)) = grp) \<and>
     (\<forall>i \<in> set ids. budget g S i \<le> bs_completed S) \<and>
     (\<Sum>i \<in> set ids. entered S i) = bs_completed S * length ids + nat (bcount grp (bs_sched S)) + size (bs_requests S) \<and>
     (\<forall>i \<in> set ids. bs_completed S \<le> entered S i)"

lemma sum_at_bound:
  fixes f :: "int \<Rightarrow> nat"
  assumes "finite A" "\<forall>i \<in> A. f i \<le> k" "k * card A \<le> sum f A" "i \<in> A"
  shows "k \<le> f i"
proof (rule ccontr)
  assume "\<not> k \<le> f i"
  then have "sum f A < sum (\<lambda>_. k) A" using assms(1,2,4) by (intro sum_strict_mono_ex1) (auto simp: not_le)
  with assms(3) show False by (simp add: mult.commute)
qed

lemma sum_upd:
  fixes f :: "int \<Rightarrow> nat"
  assumes "finite A" "i \<in> A" "\<forall>j \<in> A. j \<noteq> i \<longrightarrow> f' j = f j" "f' i = f i + d"
  shows "sum f' A = sum f A + d"
proof -
  have "sum f' (A - {i}) = sum f (A - {i})" using assms(3) by (intro sum.cong) auto
  then show ?thesis using assms(1,2,4) by (simp add: sum.remove)
qed

lemma owed_bcast:
  assumes "distinct ids" "i \<in> set ids"
  shows "size (filter_mset (\<lambda>m. m_recver (msg_meta m) = i) (mset (bcast_msgs mk ts ids))) = 1"
proof -
  have "size (filter_mset (\<lambda>m. m_recver (msg_meta m) = i) (mset (bcast_msgs mk ts ids))) =
      length (filter (\<lambda>m. m_recver (msg_meta m) = i) (bcast_msgs mk ts ids))" by (simp flip: mset_filter)
  also have "\<dots> = length (filter (\<lambda>r. r = i) (map (\<lambda>m. m_recver (msg_meta m)) (bcast_msgs mk ts ids)))"
    by (simp only: filter_map length_map comp_def)
  also have "\<dots> = 1" unfolding bcast_msgs_recvers using assms by (induction ids) (auto simp: filter_empty_conv)
  finally show ?thesis .
qed

lemma Barrier_request_msg:
  "Barrier_request po role cid grp g ts = Inr (Some m) \<Longrightarrow> m_request (msg_meta m) \<and> c_barrier_group (m_control (msg_meta m)) = grp"
  by (auto simp: Barrier_request_def res_simps split: if_splits)

lemma cleared_not_passed: "\<not> Barrier_passed cid g (Barrier_clear cid g po)"
  by (simp add: Barrier_passed_def Barrier_clear_def update_conv')

text \<open>A step that leaves the scheduler's counters alone keeps the invariant if no member's budget grows.\<close>

lemma barrier_inv_keep:
  assumes "barrier_inv grp g ids S" "bs_sched S' = bs_sched S" "bs_completed S' = bs_completed S"
    and "\<forall>m \<in># bs_requests S'. m_request (msg_meta m) \<and> c_barrier_group (m_control (msg_meta m)) = grp"
    and "\<And>i. i \<in> set ids \<Longrightarrow> budget g S' i \<le> budget g S i" "\<And>i. i \<in> set ids \<Longrightarrow> entered S i \<le> entered S' i"
    and "(\<Sum>i \<in> set ids. entered S' i) + size (bs_requests S) = (\<Sum>i \<in> set ids. entered S i) + size (bs_requests S')"
  shows "barrier_inv grp g ids S'"
proof -
  have "budget g S' i \<le> bs_completed S" "bs_completed S \<le> entered S' i" if "i \<in> set ids" for i
    using assms(1) assms(5,6)[OF that] that unfolding barrier_inv_def by fastforce+
  then show ?thesis using assms(1-4,7) unfolding barrier_inv_def by simp
qed

lemma step_enter:
  assumes "barrier_inv grp g ids S" "i \<in> set ids" "bs_pc S i = Outside"
    "m_request (msg_meta m) \<and> c_barrier_group (m_control (msg_meta m)) = grp"
  shows "barrier_inv grp g ids (S\<lparr>bs_pc := (bs_pc S)(i := Sent), bs_requests := add_mset m (bs_requests S)\<rparr>)"
    (is "barrier_inv grp g ids ?S")
proof (rule barrier_inv_keep[OF assms(1)])
  show "\<forall>m \<in># bs_requests ?S. m_request (msg_meta m) \<and> c_barrier_group (m_control (msg_meta m)) = grp"
    using assms(1,4) by (auto simp: barrier_inv_def)
  have "(\<Sum>i \<in> set ids. entered ?S i) = (\<Sum>i \<in> set ids. entered S i) + 1"
    by (rule sum_upd[OF _ assms(2)]) (use assms(3) in \<open>auto simp: entered_def\<close>)
  then show "(\<Sum>i \<in> set ids. entered ?S i) + size (bs_requests S) = (\<Sum>i \<in> set ids. entered S i) + size (bs_requests ?S)"
    by simp
qed (use assms(3) in \<open>auto simp: budget_defs entered_def\<close>)

lemma step_clear:
  assumes "barrier_inv grp g ids S" "bs_pc S i = Sent"
  shows "barrier_inv grp g ids (S\<lparr>bs_po := (bs_po S)(i := Barrier_clear 0 g (bs_po S i)), bs_pc := (bs_pc S)(i := Waiting)\<rparr>)"
    (is "barrier_inv grp g ids ?S")
proof (rule barrier_inv_keep[OF assms(1)])
  have "entered ?S = entered S" using assms(2) by (auto simp: entered_def)
  then show "(\<Sum>i \<in> set ids. entered ?S i) + size (bs_requests S) = (\<Sum>i \<in> set ids. entered S i) + size (bs_requests ?S)"
    by simp
qed (use assms cleared_not_passed in \<open>auto simp: budget_defs entered_def barrier_inv_def\<close>)

lemma step_leave:
  assumes "barrier_inv grp g ids S" "bs_pc S i = Waiting" "Barrier_passed 0 g (bs_po S i)"
  shows "barrier_inv grp g ids (S\<lparr>bs_pc := (bs_pc S)(i := Outside), bs_passed := (bs_passed S)(i := Suc (bs_passed S i))\<rparr>)"
    (is "barrier_inv grp g ids ?S")
proof (rule barrier_inv_keep[OF assms(1)])
  have "entered ?S = entered S" using assms(2) by (auto simp: entered_def)
  then show "(\<Sum>i \<in> set ids. entered ?S i) + size (bs_requests S) = (\<Sum>i \<in> set ids. entered S i) + size (bs_requests ?S)"
    by simp
qed (use assms in \<open>auto simp: budget_defs entered_def barrier_inv_def\<close>)

lemma step_reply:
  assumes "barrier_inv grp g ids S" "m \<in># bs_replies S" "i = m_recver (msg_meta m)"
  shows "barrier_inv grp g ids (S\<lparr>bs_po := (bs_po S)(i := po), bs_replies := bs_replies S - {#m#}\<rparr>)"
    (is "barrier_inv grp g ids ?S")
proof (rule barrier_inv_keep[OF assms(1)])
  obtain M where M: "bs_replies S = add_mset m M" using assms(2) by (metis multi_member_split)
  show "budget g ?S j \<le> budget g S j" for j
    using assms(3) by (cases "j = i") (auto simp: budget_defs M)
  have "entered ?S = entered S" by (auto simp: entered_def)
  then show "(\<Sum>i \<in> set ids. entered ?S i) + size (bs_requests S) = (\<Sum>i \<in> set ids. entered S i) + size (bs_requests ?S)"
    by simp
qed (use assms in \<open>auto simp: entered_def barrier_inv_def\<close>)

lemma step_schedule:
  assumes "barrier_inv grp g ids S" "m \<in># bs_requests S" "ProcessBarrierCommand W m g (bs_sched S) = Inr (Some p)"
    and "out = map fst (drop (length (van_outbox (pr_van (bs_sched S)))) (van_outbox (pr_van p)))" "distinct ids"
  shows "barrier_inv grp g ids (S\<lparr>bs_sched := p, bs_requests := bs_requests S - {#m#}, bs_replies := mset out + bs_replies S,
         bs_completed := (if out = [] then bs_completed S else Suc (bs_completed S))\<rparr>)"
    (is "barrier_inv grp g ids ?S")
proof -
  have m: "m_request (msg_meta m)" "c_barrier_group (m_control (msg_meta m)) = grp"
    and inv: "barrier_ready grp g ids (bs_sched S)" "0 \<le> bcount grp (bs_sched S)" "bcount grp (bs_sched S) < int (length ids)"
    "\<forall>i \<in> set ids. budget g S i \<le> bs_completed S" "\<forall>i \<in> set ids. bs_completed S \<le> entered S i"
    "(\<Sum>i \<in> set ids. entered S i) = bs_completed S * length ids + nat (bcount grp (bs_sched S)) + size (bs_requests S)"
    using assms(1,2) unfolding barrier_inv_def by auto
  have cb: "count_barrier W m g (bs_sched S) = Inr p" using assms(3) m by (auto simp: ProcessBarrierCommand_def res_simps)
  note st = count_barrier_step[OF cb inv(1) m(2)]
  obtain R where R: "bs_requests S = add_mset m R" using assms(2) by (metis multi_member_split)
  have reqs: "\<forall>m \<in># bs_requests ?S. m_request (msg_meta m) \<and> c_barrier_group (m_control (msg_meta m)) = grp"
    using assms(1) by (auto simp: barrier_inv_def dest: in_diffD)
  have ent: "entered ?S = entered S" by (auto simp: entered_def)
  show ?thesis
  proof (cases "bcount grp (bs_sched S) + 1 = int (length ids)")
    case True
    let ?msgs = "bcast_msgs (\<lambda>_. barrier_reply m g) (van_timestamp (pr_van (bs_sched S))) ids"
    from st True have p: "barrier_ready grp g ids p" "bcount grp p = 0" and
      "van_outbox (pr_van p) = van_outbox (pr_van (bs_sched S)) @ map (\<lambda>x. (x, if g then Global else Local)) ?msgs" by auto
    then have out: "out = ?msgs" using assms(4) by (simp add: comp_def)
    have "out \<noteq> []" using True inv(2) by (auto simp: out dest!: arg_cong[where f = length])
    have bud: "budget g ?S i \<le> Suc (bs_completed S)" if "i \<in> set ids" for i
      using inv(4) that owed_bcast[OF assms(5) that] by (auto simp: budget_defs out)
    have "entered S i \<le> Suc (bs_completed S)" if "i \<in> set ids" for i
      using inv(4) that by (fastforce simp: budget_defs entered_def)
    moreover have "Suc (bs_completed S) * card (set ids) \<le> (\<Sum>i \<in> set ids. entered S i)"
      using inv(6) True by (simp add: R distinct_card[OF assms(5)])
    ultimately have all: "Suc (bs_completed S) \<le> entered S i" if "i \<in> set ids" for i
      using sum_at_bound[of "set ids" "entered S" "Suc (bs_completed S)" i] that by blast
    have "(\<Sum>i \<in> set ids. entered S i) = Suc (bs_completed S) * length ids + size R"
      using inv(2,6) True by (simp add: R)
    then show ?thesis using p bud all reqs \<open>out \<noteq> []\<close> inv(2,3) unfolding barrier_inv_def ent by (auto simp: R)
  next
    case False
    from st False have p: "barrier_ready grp g ids p" "bcount grp p = bcount grp (bs_sched S) + 1"
      and "van_outbox (pr_van p) = van_outbox (pr_van (bs_sched S))" by auto
    then have out: "out = []" using assms(4) by simp
    have "budget g ?S = budget g S" by (auto simp: budget_defs out)
    then show ?thesis using p inv False reqs out unfolding barrier_inv_def ent by (simp add: R)
  qed
qed

lemma barrier_inv_step:
  assumes "barrier_step W role grp g (set ids) S S'" "barrier_inv grp g ids S" "distinct ids"
  shows "barrier_inv grp g ids S'"
  using assms(1)
proof cases
  case (enter i ts m)
  then show ?thesis using step_enter[OF assms(2)] Barrier_request_msg by blast
next
  case (clear i)
  then show ?thesis using step_clear[OF assms(2)] by blast
next
  case (leave i)
  then show ?thesis using step_leave[OF assms(2)] by blast
next
  case (schedule m p out)
  then show ?thesis using step_schedule[OF assms(2) schedule(2,3,4) assms(3)] by simp
next
  case (reply m i po)
  then show ?thesis using step_reply[OF assms(2) reply(2,3)] by simp
qed

lemma barrier_inv_reach:
  "barrier_reach W role grp g (set ids) S S' \<Longrightarrow> barrier_inv grp g ids S \<Longrightarrow> distinct ids \<Longrightarrow> barrier_inv grp g ids S'"
  by (induction rule: barrier_reach.induct) (auto intro: barrier_inv_step)

lemma barrier_inv_init:
  assumes "GetNodeIDs (pr_po sched) grp g = Inr ids" "van_barrier_count (pr_van sched) = []" "0 \<le> grp" "grp < 8"
    "van_shared_node_mapping (pr_van sched) = Map.empty" "ids \<noteq> []"
  shows "barrier_inv grp g ids (barrier_init sched po)"
  using assms by (simp add: barrier_inv_def barrier_init_def barrier_ready_def barrier_counts_def bcount_def
      budget_defs entered_def)

subsection \<open>Properties\<close>

text \<open>
  C5: barriers separate. In every interleaving of the callers, the scheduler and the network, a
  member that has left its k-th barrier has been let through only after every member of the group
  had entered its k-th barrier.
\<close>

theorem barrier_separates:
  assumes "GetNodeIDs (pr_po sched) grp g = Inr ids" "distinct ids" "0 \<le> grp" "grp < 8"
    and "van_barrier_count (pr_van sched) = []" "van_shared_node_mapping (pr_van sched) = Map.empty"
    and "barrier_reach W role grp g (set ids) (barrier_init sched po) S" "i \<in> set ids" "j \<in> set ids"
  shows "bs_passed S i \<le> entered S j"
proof -
  have "barrier_inv grp g ids S"
    using barrier_inv_reach[OF assms(7) barrier_inv_init[OF assms(1,5,3,4,6)] assms(2)] assms(8) by fastforce
  then have "budget g S i \<le> bs_completed S" "bs_completed S \<le> entered S j"
    using assms(8,9) unfolding barrier_inv_def by auto
  then show ?thesis by (simp add: budget_def)
qed

text \<open>A member whose reply has been overtaken by its own reset of the flag.\<close>

definition reply_lost :: "bool \<Rightarrow> BarrierSys \<Rightarrow> int \<Rightarrow> bool" where
  "reply_lost g S i \<longleftrightarrow> bs_pc S i = Waiting \<and> \<not> Barrier_passed 0 g (bs_po S i) \<and> owed S i = 0 \<and>
     entered S i \<le> bs_completed S"

lemma reply_lost_step:
  assumes "barrier_step W role grp g (set ids) S S'" "barrier_inv grp g ids S" "distinct ids" "i \<in> set ids"
    "reply_lost g S i"
  shows "reply_lost g S' i \<and> bs_passed S' i = bs_passed S i"
  using assms(1)
proof cases
  case (schedule m p out)
  have "barrier_inv grp g ids S'" using barrier_inv_step[OF assms(1-3)] .
  then have "bs_completed S' \<le> entered S' i" using assms(4) unfolding barrier_inv_def by blast
  moreover have "entered S' i = entered S i" using schedule by (simp add: entered_def)
  ultimately have "out = []" using schedule assms(5) by (auto simp: reply_lost_def split: if_splits)
  then have "S' = S\<lparr>bs_sched := p, bs_requests := bs_requests S - {#m#}\<rparr>" using schedule(1) by simp
  then show ?thesis using assms(5) by (auto simp: reply_lost_def owed_def entered_def)
next
  case (reply m j po')
  obtain M where M: "bs_replies S = add_mset m M" using reply(2) by (metis multi_member_split)
  then have "j \<noteq> i" using reply assms(5) by (auto simp: reply_lost_def owed_def)
  then show ?thesis using reply assms(5) M by (auto simp: reply_lost_def owed_def entered_def)
qed (use assms(5) in \<open>auto simp: reply_lost_def owed_def entered_def\<close>)

text \<open>
  C23: a lost reply blocks a barrier for good. \<open>Barrier\<close> sends its request before it resets its
  flag; when the reply is handled in between, the caller stays in \<open>Barrier\<close> in every continuation.
\<close>

theorem lost_reply_blocks_forever:
  assumes "GetNodeIDs (pr_po sched) grp g = Inr ids" "distinct ids" "0 \<le> grp" "grp < 8"
    and "van_barrier_count (pr_van sched) = []" "van_shared_node_mapping (pr_van sched) = Map.empty"
    and "barrier_reach W role grp g (set ids) (barrier_init sched po) S" "i \<in> set ids" "reply_lost g S i"
    and "barrier_reach W role grp g (set ids) S S'"
  shows "bs_pc S' i = Waiting \<and> bs_passed S' i = bs_passed S i"
proof -
  have inv: "barrier_inv grp g ids S"
    using barrier_inv_reach[OF assms(7) barrier_inv_init[OF assms(1,5,3,4,6)] assms(2)] assms(8) by fastforce
  from assms(10) inv assms(9) have "barrier_inv grp g ids S' \<and> reply_lost g S' i \<and> bs_passed S' i = bs_passed S i"
  proof (induction rule: barrier_reach.induct)
    case (more S S1 S2)
    then show ?case using reply_lost_step[OF more.hyps(2) _ assms(2,8)] barrier_inv_step[OF more.hyps(2) _ assms(2)] by auto
  qed simp
  then show ?thesis by (simp add: reply_lost_def)
qed

text \<open>Two workers, both inside their first barrier; the answer reaches worker 101 before it resets its flag.\<close>

definition worker_request :: Message where
  "worker_request = empty_Message\<lparr>msg_meta := empty_Meta\<lparr>m_recver := 1, m_request := True, m_app_id := 0,
     m_customer_id := 0, m_timestamp := 0, m_control := empty_Control\<lparr>c_cmd := BARRIER, c_barrier_group := 4\<rparr>\<rparr>\<rparr>"

lemma workers_group: "GetNodeIDs scheduler_postoffice 4 False = Inr [101, 103]"
proof -
  have "po_node_ids scheduler_postoffice = party.layer [1, 7, 5, 3] 2 1"
    by (simp add: scheduler_postoffice_def start_node_ids_layer)
  moreover have "ids_of (party.layer [1, 7, 5, 3] 2 1) 4 = [101, 103]"
    using Start_init_members[OF scheduler_start, of 4]
    by (simp add: scheduler_postoffice_def group_consts WorkerRankToID_def kOffset_def upt_rec)
  ultimately show ?thesis using party.layer_no_empty by (subst GetNodeIDs_ids_of) simp_all
qed

lemma worker_enters: "Barrier_request scheduler_postoffice WORKER 0 4 False 0 = Inr (Some worker_request)"
  by (simp add: Barrier_request_def workers_group barrier_role_ok_def group_consts worker_request_def)

lemma empty_table_managed:
  assumes "po_barrier_done po 0 = []"
  shows "Manage (bcast_msg (\<lambda>_. barrier_reply worker_request False) ts r) False po = Inr (Some po)"
proof -
  have "manage_loop 0 [] = Some []" by (subst manage_loop.simps) simp
  then show ?thesis using assms
    by (simp add: Manage_def bcast_msg_def barrier_reply_def control_empty_def worker_request_def fun_upd_idem)
qed

definition both_inside :: BarrierSys where
  "both_inside = (barrier_init scheduler_proc (\<lambda>_. scheduler_postoffice))\<lparr>
     bs_pc := (\<lambda>_. Outside)(101 := Sent, 103 := Sent), bs_requests := {#worker_request, worker_request#}\<rparr>"

lemma reach_both_inside:
  "barrier_reach quiet_world (\<lambda>_. WORKER) 4 False {101, 103} (barrier_init scheduler_proc (\<lambda>_. scheduler_postoffice)) both_inside"
proof -
  let ?S = "barrier_init scheduler_proc (\<lambda>_. scheduler_postoffice)"
  let ?S1 = "?S\<lparr>bs_pc := (bs_pc ?S)(101 := Sent), bs_requests := add_mset worker_request (bs_requests ?S)\<rparr>"
  let ?S2 = "?S1\<lparr>bs_pc := (bs_pc ?S1)(103 := Sent), bs_requests := add_mset worker_request (bs_requests ?S1)\<rparr>"
  have s1: "barrier_step quiet_world (\<lambda>_. WORKER) 4 False {101, 103} ?S ?S1"
    by (rule barrier_step.enter[of _ _ _ _ _ _ 0]) (simp_all add: barrier_init_def worker_enters)
  have s2: "barrier_step quiet_world (\<lambda>_. WORKER) 4 False {101, 103} ?S1 ?S2"
    by (rule barrier_step.enter[of _ _ _ _ _ _ 0]) (simp_all add: barrier_init_def worker_enters)
  have "both_inside = ?S2" by (simp add: both_inside_def barrier_init_def)
  then show ?thesis using barrier_reach.more[OF barrier_reach.more[OF barrier_reach.start s1] s2] by simp
qed

lemma count_barrier_succeeds:
  assumes "barrier_ready grp g ids p" "van_resender (pr_van p) = None" "0 \<le> grp" "grp < 8"
    "c_barrier_group (m_control (msg_meta m)) = grp"
  shows "\<exists>p'. count_barrier quiet_world m g p = Inr p' \<and> van_resender (pr_van p') = None"
proof -
  let ?p1 = "upd_van (van_barrier_count_update (\<lambda>_. (barrier_counts (pr_van p))[nat grp := 0])) p"
  have "van_resender (pr_van ?p1) = None" using assms(2) by (simp add: upd_van_def)
  from broadcast_succeeds[OF this, of quiet_world g "\<lambda>n. 0 < n" "\<lambda>_. barrier_reply m g" ids]
  show ?thesis using assms
    by (auto simp: count_barrier_def Let_def barrier_ready_def unshared_def quiet_world_def upd_van_def)
qed

lemma reach_reply_lost:
  "\<exists>S. barrier_reach quiet_world (\<lambda>_. WORKER) 4 False {101, 103}
     (barrier_init scheduler_proc (\<lambda>_. scheduler_postoffice)) S \<and> reply_lost False S 101 \<and> bs_completed S = 1"
proof -
  let ?step = "barrier_step quiet_world (\<lambda>_. WORKER) 4 False {101, 103}"
  let ?mk = "\<lambda>_::int. barrier_reply worker_request False"
  have grp: "c_barrier_group (m_control (msg_meta worker_request)) = 4" and rq: "m_request (msg_meta worker_request)"
    by (simp_all add: worker_request_def)
  have r0: "barrier_ready 4 False [101, 103] scheduler_proc" "bcount 4 scheduler_proc = 0"
    "van_resender (pr_van scheduler_proc) = None" "van_outbox (pr_van scheduler_proc) = []"
    by (simp_all add: barrier_ready_def bcount_def barrier_counts_def scheduler_proc_def new_Van_def workers_group)
  obtain p1 where c1: "count_barrier quiet_world worker_request False scheduler_proc = Inr p1" and n1: "van_resender (pr_van p1) = None"
    using count_barrier_succeeds[OF r0(1,3) _ _ grp] by auto
  from count_barrier_step[OF c1 r0(1) grp] r0
  have r1: "barrier_ready 4 False [101, 103] p1" "bcount 4 p1 = 1" "van_outbox (pr_van p1) = []" by auto
  obtain p2 where c2: "count_barrier quiet_world worker_request False p1 = Inr p2"
    using count_barrier_succeeds[OF r1(1) n1 _ _ grp] by auto
  let ?a = "bcast_msg ?mk (van_timestamp (pr_van p1)) 101" and ?b = "bcast_msg ?mk (van_timestamp (pr_van p1) + 1) 103"
  from count_barrier_step[OF c2 r1(1) grp] r1
  have o2: "van_outbox (pr_van p2) = [(?a, Local), (?b, Local)]" by auto
  let ?S3 = "both_inside\<lparr>bs_sched := p1, bs_requests := {#worker_request#}\<rparr>"
  let ?S4 = "?S3\<lparr>bs_sched := p2, bs_requests := {#}, bs_replies := {#?a, ?b#}, bs_completed := 1\<rparr>"
  let ?S5 = "?S4\<lparr>bs_replies := {#?b#}\<rparr>"
  let ?S6 = "?S5\<lparr>bs_po := (bs_po ?S5)(101 := Barrier_clear 0 False (bs_po ?S5 101)), bs_pc := (bs_pc ?S5)(101 := Waiting)\<rparr>"
  have "?step both_inside ?S3"
    using barrier_step.schedule[of worker_request both_inside quiet_world False p1 "[]"] c1 rq r1 r0
    by (simp add: ProcessBarrierCommand_def both_inside_def barrier_init_def)
  moreover have "?step ?S3 ?S4"
    using barrier_step.schedule[of worker_request ?S3 quiet_world False p2 "[?a, ?b]"] c2 rq r1 o2
    by (simp add: ProcessBarrierCommand_def both_inside_def barrier_init_def)
  moreover have "po_barrier_done scheduler_postoffice 0 = []" by (simp add: scheduler_postoffice_def empty_Postoffice_def)
  then have "?step ?S4 ?S5"
    using barrier_step.reply[of ?a ?S4 101 False scheduler_postoffice] empty_table_managed[of scheduler_postoffice]
    by (simp add: both_inside_def barrier_init_def bcast_msg_def fun_upd_idem)
  moreover have "?step ?S5 ?S6" by (rule barrier_step.clear) (simp_all add: both_inside_def)
  ultimately have "barrier_reach quiet_world (\<lambda>_. WORKER) 4 False {101, 103}
      (barrier_init scheduler_proc (\<lambda>_. scheduler_postoffice)) ?S6"
    using reach_both_inside by (meson barrier_reach.more)
  moreover have "reply_lost False ?S6 101"
    using cleared_not_passed
    by (simp add: reply_lost_def owed_def entered_def bcast_msg_def both_inside_def barrier_init_def)
  ultimately show ?thesis by (intro exI[of _ ?S6]) simp
qed

lemma scheduler_proc_group: "GetNodeIDs (pr_po scheduler_proc) 4 False = Inr [101, 103]"
  by (simp add: scheduler_proc_def workers_group)

theorem barrier_separates_witness:
  "\<exists>S. barrier_reach quiet_world (\<lambda>_. WORKER) 4 False (set [101, 103])
     (barrier_init scheduler_proc (\<lambda>_. scheduler_postoffice)) S \<and> bs_completed S = 1 \<and> bs_passed S 103 \<le> entered S 101"
proof -
  obtain S where S: "barrier_reach quiet_world (\<lambda>_. WORKER) 4 False (set [101, 103])
      (barrier_init scheduler_proc (\<lambda>_. scheduler_postoffice)) S" "bs_completed S = 1"
    using reach_reply_lost by auto
  have "bs_passed S 103 \<le> entered S 101"
    by (rule barrier_separates[OF scheduler_proc_group _ _ _ _ _ S(1)]) (simp_all add: scheduler_proc_def new_Van_def)
  with S show ?thesis by blast
qed

theorem lost_reply_blocks_forever_witness:
  "\<exists>S. barrier_reach quiet_world (\<lambda>_. WORKER) 4 False (set [101, 103])
     (barrier_init scheduler_proc (\<lambda>_. scheduler_postoffice)) S \<and>
     (\<forall>S'. barrier_reach quiet_world (\<lambda>_. WORKER) 4 False (set [101, 103]) S S' \<longrightarrow> bs_pc S' 101 = Waiting)"
proof -
  obtain S where S: "barrier_reach quiet_world (\<lambda>_. WORKER) 4 False (set [101, 103])
      (barrier_init scheduler_proc (\<lambda>_. scheduler_postoffice)) S" "reply_lost False S 101"
    using reach_reply_lost by auto
  have "bs_pc S' 101 = Waiting" if "barrier_reach quiet_world (\<lambda>_. WORKER) 4 False (set [101, 103]) S S'" for S'
    using lost_reply_blocks_forever[OF scheduler_proc_group _ _ _ _ _ S(1) _ S(2) that]
    by (simp add: scheduler_proc_def new_Van_def)
  with S(1) show ?thesis by blast
qed

end
