(* ===== verification/Tsengine.thy ===== *)
theory Tsengine
  imports Membership
begin

text \<open>
  TSEngine (\<^verbatim>\<open>van.cc\<close>): the scheduler chooses, from measured throughputs, who forwards a model to
  whom (\<open>ProcessAskPullCommand\<close>) and who merges its gradient into whose (\<open>ProcessAskPushCommand\<close>),
  for a party and for the global layer; and the nodes' side of both exchanges.
\<close>

subsection \<open>Vectors\<close>

text \<open>Indexed access; outside the vector the source's behaviour is undefined.\<close>

definition rd :: "'a list \<Rightarrow> int \<Rightarrow> 'a res" where
  "rd xs i = defined (0 \<le> i \<and> i < int (length xs)) ''operator[]'' (Inr (xs ! nat i))"

definition wr :: "'a list \<Rightarrow> int \<Rightarrow> 'a \<Rightarrow> 'a list res" where
  "wr xs i x = defined (0 \<le> i \<and> i < int (length xs)) ''operator[]'' (Inr (xs[nat i := x]))"

lemma rd_Inr [res_simps]: "rd xs i = Inr x \<longleftrightarrow> 0 \<le> i \<and> i < int (length xs) \<and> x = xs ! nat i"
  by (auto simp: rd_def res_simps)

lemma wr_Inr [res_simps]: "wr xs i x = Inr ys \<longleftrightarrow> 0 \<le> i \<and> i < int (length xs) \<and> ys = xs[nat i := x]"
  by (auto simp: wr_def res_simps)

definition rd2 :: "'a list list \<Rightarrow> int \<Rightarrow> int \<Rightarrow> 'a res" where
  "rd2 A i j = rbind (rd A i) (\<lambda>row. rd row j)"

definition wr2 :: "'a list list \<Rightarrow> int \<Rightarrow> int \<Rightarrow> 'a \<Rightarrow> 'a list list res" where
  "wr2 A i j x = rbind (rd A i) (\<lambda>row. rbind (wr row j x) (\<lambda>row'. wr A i row'))"

subsection \<open>The nodes' side\<close>

definition node_id_of :: "bool \<Rightarrow> Van \<Rightarrow> int" where
  "node_id_of is_global v = (if is_global then n_id (van_my_node_global v) else n_id (van_my_node v))"

definition scheduler_of :: "bool \<Rightarrow> int" where
  "scheduler_of is_global = (if is_global then kSchedulerGlobal else kScheduler)"

definition AskForReceiverPull :: "World \<Rightarrow> int \<Rightarrow> int \<Rightarrow> int \<Rightarrow> bool \<Rightarrow> Proc \<Rightarrow> Proc res" where
  "AskForReceiverPull W throughput last_recv_id version is_global p =
     (let (ts, p1) = GetTimestamp p in
      rbind (Send W (empty_Message\<lparr>msg_meta := empty_Meta\<lparr>m_customer_id := last_recv_id, m_app_id := throughput,
               m_sender := node_id_of is_global (pr_van p), m_recver := scheduler_of is_global,
               m_control := empty_Control\<lparr>c_cmd := ASKPULL\<rparr>, m_version := version, m_timestamp := ts\<rparr>\<rparr>) is_global p1)
        (\<lambda>(p2, _). Inr p2))"

definition AskForReceiverPush :: "World \<Rightarrow> int \<Rightarrow> int \<Rightarrow> int \<Rightarrow> bool \<Rightarrow> Proc \<Rightarrow> Proc res" where
  "AskForReceiverPush W app customer timestamp is_global p =
     rbind (Send W (empty_Message\<lparr>msg_meta := empty_Meta\<lparr>m_sender := node_id_of is_global (pr_van p),
              m_recver := scheduler_of is_global, m_control := empty_Control\<lparr>c_cmd := ASKPUSH\<rparr>,
              m_timestamp := timestamp, m_app_id := app, m_customer_id := customer\<rparr>\<rparr>) is_global p)
       (\<lambda>(p1, _). Inr p1)"

definition ProcessReplyCommand :: "Message \<Rightarrow> Van \<Rightarrow> Van" where
  "ProcessReplyCommand reply v = v\<lparr>van_receiver := m_customer_id (msg_meta reply)\<rparr>"

definition ProcessReplyGlobalCommand :: "Message \<Rightarrow> Van \<Rightarrow> Van" where
  "ProcessReplyGlobalCommand reply v = v\<lparr>van_receiver_global := m_customer_id (msg_meta reply)\<rparr>"

text \<open>
  \<open>GetReceiver\<close> sends the question and then waits for the receiver to be set; the second half is
  one wake-up, \<open>None\<close> while it keeps waiting.
\<close>

definition GetReceiver_ask :: "World \<Rightarrow> int \<Rightarrow> int \<Rightarrow> int \<Rightarrow> Proc \<Rightarrow> Proc res" where
  "GetReceiver_ask W throughput last_recv_id version p = AskForReceiverPull W throughput last_recv_id version False p"

definition GetReceiver_wake :: "Van \<Rightarrow> (int \<times> Van) option" where
  "GetReceiver_wake v = (if van_receiver v = -2 then None else Some (van_receiver v, v\<lparr>van_receiver := -2\<rparr>))"

definition GetGlobalReceiver_ask :: "World \<Rightarrow> int \<Rightarrow> int \<Rightarrow> int \<Rightarrow> Proc \<Rightarrow> Proc res" where
  "GetGlobalReceiver_ask W throughput last_recv_id version p = AskForReceiverPull W throughput last_recv_id version True p"

definition GetGlobalReceiver_wake :: "Van \<Rightarrow> (int \<times> Van) option" where
  "GetGlobalReceiver_wake v =
     (if van_receiver_global v = -2 then None else Some (van_receiver_global v, v\<lparr>van_receiver_global := -2\<rparr>))"

subsection \<open>Pairing gradients\<close>

definition push_reply :: "int \<Rightarrow> Message \<Rightarrow> int \<Rightarrow> int \<Rightarrow> Message" where
  "push_reply me m recver target = empty_Message\<lparr>msg_meta := empty_Meta\<lparr>m_sender := me,
     m_app_id := m_app_id (msg_meta m), m_customer_id := m_customer_id (msg_meta m),
     m_timestamp := m_timestamp (msg_meta m), m_push := True, m_request := True,
     m_iters := target, m_recver := recver\<rparr>\<rparr>"

text \<open>Of two asking nodes, who sends (first) and who receives: a server always receives, else the throughputs decide.\<close>

definition push_roles :: "int \<Rightarrow> int list list \<Rightarrow> int \<Rightarrow> int \<Rightarrow> (int \<times> int) res" where
  "push_roles server A node_a node_b =
     (if node_a = server \<or> node_b = server then
        (if node_a = server then Inr (node_b, node_a) else Inr (node_a, node_b))
      else rbind (rd2 A node_a node_b) (\<lambda>ab. rbind (rd2 A node_b node_a) (\<lambda>ba.
        if ab > ba then Inr (node_a, node_b) else Inr (node_b, node_a))))"

definition reset_if_full :: "int \<Rightarrow> int list \<Rightarrow> int list" where
  "reset_if_full n B = (if sum_list B = n then map (\<lambda>_. 0) B else B)"

definition ask_push :: "World \<Rightarrow> int \<Rightarrow> int \<Rightarrow> int \<Rightarrow> int \<Rightarrow> bool \<Rightarrow> Message \<Rightarrow> Proc \<Rightarrow> Proc res" where
  "ask_push W off server me num_workers is_global m p =
     (let v = pr_van p; node = m_sender (msg_meta m) - off in
      if length (van_ask_q v) = 1 \<and> hd (van_ask_q v) = node then Inr p
      else (let q = van_ask_q v @ [node] in
        rbind (if 1 < length q then
                 rbind (push_roles server (van_A v) (q ! 0) (q ! 1)) (\<lambda>(snder, target).
                 rbind (wr (van_B1 v) snder 1) (\<lambda>B1.
                 rbind (Send W (push_reply me m (snder + off) (target + off)) is_global
                          (upd_van (\<lambda>v. v\<lparr>van_ask_q := drop 2 q, van_B1 := B1\<rparr>) p)) (\<lambda>(p1, _). Inr p1)))
               else Inr (upd_van (\<lambda>v. v\<lparr>van_ask_q := q\<rparr>) p))
          (\<lambda>p1. Inr (upd_van (\<lambda>v. v\<lparr>van_B1 := reset_if_full num_workers (van_B1 v)\<rparr>) p1))))"

definition ProcessAskPushCommand :: "World \<Rightarrow> Message \<Rightarrow> Proc \<Rightarrow> Proc res" where
  "ProcessAskPushCommand W m p =
     ask_push W 100 0 (n_id (van_my_node (pr_van p))) (po_num_workers (pr_po p)) False m p"

definition ProcessAskPushGlobalCommand :: "World \<Rightarrow> Message \<Rightarrow> Proc \<Rightarrow> Proc res" where
  "ProcessAskPushGlobalCommand W m p =
     ask_push W 0 8 (n_id (van_my_node_global (pr_van p))) (po_num_global_workers (pr_po p)) True m p"

subsection \<open>Choosing a receiver\<close>

definition pull_candidates :: "int list \<Rightarrow> nat \<Rightarrow> nat list" where
  "pull_candidates B n = filter (\<lambda>i. odd i \<and> B ! i = 0) [0..<n]"

text \<open>The greedy choice: the largest throughput above -1 among the nodes not yet served.\<close>

fun greedy_pick :: "int list \<Rightarrow> int list \<Rightarrow> nat list \<Rightarrow> int \<Rightarrow> int \<Rightarrow> int" where
  "greedy_pick row B [] receiver throughput = receiver"
| "greedy_pick row B (i # is) receiver throughput =
     (if B ! i = 0 \<and> row ! i > throughput then greedy_pick row B is (int i) (row ! i)
      else greedy_pick row B is receiver throughput)"

text \<open>The random choice: the candidate with the drawn number, counting from one.\<close>

definition random_pick :: "nat list \<Rightarrow> int \<Rightarrow> int" where
  "random_pick cands r = (if 1 \<le> r \<and> r \<le> int (length cands) then int (cands ! nat (r - 1)) else -1)"

definition choose_receiver :: "World \<Rightarrow> int \<Rightarrow> int \<Rightarrow> rat \<Rightarrow> int list \<Rightarrow> int list \<Rightarrow> int res" where
  "choose_receiver W unused first_draw max_greed_rate row B =
     defined (length row \<le> length B) ''B[i]''
      (let cands = pull_candidates B (length row);
           know = int (length (filter (\<lambda>i. row ! i \<noteq> -1) cands));
           unknow = int (length (filter (\<lambda>i. row ! i = -1) cands)) - unused;
           draw = cmod (w_rand W 0) 10 in
       defined (know + unknow \<noteq> 0) ''division by zero''
        (let ratio = of_int (cdiv know (know + unknow));
             greed_rate = (if ratio < max_greed_rate then ratio else max_greed_rate) in
         if know \<noteq> 0 \<and> of_int draw \<le> w_mul10 W greed_rate
         then Inr (greedy_pick row B [0..<length row] (-1) (-1))
         else Inr (random_pick cands (cmod (w_rand W 1) (unknow + know) + first_draw))))"

definition record_throughput :: "int \<Rightarrow> Message \<Rightarrow> Van \<Rightarrow> Van res" where
  "record_throughput off m v =
     (let meta = msg_meta m; req = m_sender meta - off in
      if m_app_id meta \<noteq> -1 then
        rbind (wr2 (van_A v) req (m_customer_id meta - off) (m_app_id meta)) (\<lambda>A.
        rbind (wr2 (van_lifetime v) req (m_customer_id meta - off) (m_version meta)) (\<lambda>lt.
          Inr (v\<lparr>van_A := A, van_lifetime := lt\<rparr>)))
      else Inr v)"

definition next_round :: "int \<Rightarrow> Van \<Rightarrow> Van" where
  "next_round num_workers v =
     (if sum_list (van_B v) = num_workers
      then v\<lparr>van_B := map (\<lambda>_. 0) (van_B v), van_iters := van_iters v + 1\<rparr> else v)"

definition ask_pull_choice :: "World \<Rightarrow> int \<Rightarrow> int \<Rightarrow> int \<Rightarrow> Message \<Rightarrow> Van \<Rightarrow> int res" where
  "ask_pull_choice W off unused first_draw m v =
     (if m_version (msg_meta m) \<le> van_iters v then Inr (-1)
      else rbind (rd (van_A v) (m_sender (msg_meta m) - off)) (\<lambda>row.
        choose_receiver W unused first_draw (van_max_greed_rate v) row (van_B v)))"

definition pull_reply :: "int \<Rightarrow> int \<Rightarrow> int \<Rightarrow> int \<Rightarrow> Message" where
  "pull_reply me recver ts cid = empty_Message\<lparr>msg_meta := empty_Meta\<lparr>m_sender := me, m_recver := recver,
     m_control := empty_Control\<lparr>c_cmd := REPLY\<rparr>, m_timestamp := ts, m_customer_id := cid\<rparr>\<rparr>"

definition ask_pull :: "World \<Rightarrow> int \<Rightarrow> int \<Rightarrow> int \<Rightarrow> int \<Rightarrow> int \<Rightarrow> bool \<Rightarrow> Message \<Rightarrow> Proc \<Rightarrow> Proc res" where
  "ask_pull W off unused first_draw me num_workers is_global m p =
     rbind (record_throughput off m (pr_van p)) (\<lambda>v0.
       let (ts, p1) = GetTimestamp (p\<lparr>pr_van := v0\<rparr>);
           v1 = next_round num_workers (pr_van p1) in
       rbind (ask_pull_choice W off unused first_draw m v1) (\<lambda>receiver.
       rbind (if receiver \<noteq> -1 then rbind (wr (van_B v1) receiver 1) (\<lambda>B. Inr (v1\<lparr>van_B := B\<rparr>, receiver + off))
              else Inr (v1, -1)) (\<lambda>(v2, cid).
       rbind (Send W (pull_reply me (m_sender (msg_meta m)) ts cid) is_global (p1\<lparr>pr_van := v2\<rparr>)) (\<lambda>(p2, _). Inr p2))))"

definition ProcessAskPullCommand :: "World \<Rightarrow> Message \<Rightarrow> Proc \<Rightarrow> Proc res" where
  "ProcessAskPullCommand W m p =
     ask_pull W 100 0 1 (n_id (van_my_node (pr_van p))) (po_num_workers (pr_po p)) False m p"

definition ProcessAskPullGlobalCommand :: "World \<Rightarrow> Message \<Rightarrow> Proc \<Rightarrow> Proc res" where
  "ProcessAskPullGlobalCommand W m p =
     ask_pull W 0 4 5 (n_id (van_my_node_global (pr_van p))) (po_num_global_workers (pr_po p)) True m p"

subsection \<open>The choice of a receiver\<close>

lemma greedy_pick_cases:
  "greedy_pick row B is rc th = rc \<and> (\<forall>i \<in> set is. B ! i = 0 \<longrightarrow> row ! i \<le> th) \<or>
   (\<exists>i \<in> set is. greedy_pick row B is rc th = int i \<and> B ! i = 0 \<and> row ! i > th)"
proof (induction "is" arbitrary: rc th)
  case (Cons i "is")
  show ?case
  proof (cases "B ! i = 0 \<and> row ! i > th")
    case True
    then show ?thesis using Cons.IH[of "int i" "row ! i"] by (auto intro: less_trans)
  next
    case False
    then show ?thesis using Cons.IH[of rc th] by auto
  qed
qed simp

text \<open>
  The scheduler's tables for a party of \<open>k\<close> workers: square matrices, throughputs only towards
  odd ids (workers), and 0/1 marks only on odd ids.
\<close>

definition ts_row :: "nat \<Rightarrow> int list \<Rightarrow> bool" where
  "ts_row k row \<longleftrightarrow> length row = 2 * k \<and> (\<forall>i < 2 * k. -1 \<le> row ! i \<and> (even i \<longrightarrow> row ! i = -1))"

definition ts_marks :: "nat \<Rightarrow> int list \<Rightarrow> bool" where
  "ts_marks k B \<longleftrightarrow> length B = 2 * k \<and> (\<forall>i < 2 * k. B ! i \<in> {0, 1} \<and> (even i \<longrightarrow> B ! i = 0))"

definition ts_inv :: "nat \<Rightarrow> Van \<Rightarrow> bool" where
  "ts_inv k v \<longleftrightarrow> length (van_A v) = 2 * k \<and> (\<forall>row \<in> set (van_A v). ts_row k row) \<and>
     length (van_lifetime v) = 2 * k \<and> (\<forall>row \<in> set (van_lifetime v). length row = 2 * k) \<and> ts_marks k (van_B v)"

lemma sum_marks:
  "\<forall>i < 2 * k. B ! i \<in> {0, 1} \<and> (even i \<longrightarrow> B ! i = 0) \<Longrightarrow>
   (\<Sum>i < 2 * k. (B ! i :: int)) + int (length (pull_candidates B (2 * k))) = int k"
proof (induction k)
  case (Suc k)
  have "(\<Sum>i < 2 * Suc k. B ! i) = (\<Sum>i < 2 * k. B ! i) + B ! (2 * k) + B ! (2 * k + 1)" by simp
  moreover have "pull_candidates B (2 * Suc k) = pull_candidates B (2 * k) @ (if B ! (2 * k + 1) = 0 then [2 * k + 1] else [])"
    by (simp add: pull_candidates_def)
  moreover have "B ! (2 * k) = 0" "B ! (2 * k + 1) \<in> {0, 1}" using Suc.prems by auto
  ultimately show ?case using Suc.IH Suc.prems by auto
qed (simp add: pull_candidates_def)

lemma ts_marks_sum:
  assumes "ts_marks k B"
  shows "sum_list B + int (length (pull_candidates B (2 * k))) = int k"
  using sum_marks[of k B] assms by (simp add: ts_marks_def sum_list_sum_nth atLeast0LessThan)

lemma ts_marks_reset [simp]: "ts_marks k B \<Longrightarrow> ts_marks k (map (\<lambda>_. 0) B)"
  by (simp add: ts_marks_def)

lemma pull_candidates_set: "set (pull_candidates B n) = {i. i < n \<and> odd i \<and> B ! i = 0}"
  by (auto simp: pull_candidates_def)

lemma filter_partition: "length (filter (\<lambda>i. f i \<noteq> c) xs) + length (filter (\<lambda>i. f i = c) xs) = length xs"
  using sum_length_filter_compl[of "\<lambda>i. f i \<noteq> c" xs] by simp

lemma choose_receiver_candidate:
  assumes "ts_row k row" "ts_marks k B" "pull_candidates B (2 * k) \<noteq> []" "0 \<le> w_rand W 1"
  shows "\<exists>i \<in> set (pull_candidates B (2 * k)). choose_receiver W 0 1 rate row B = Inr (int i)"
proof -
  let ?c = "pull_candidates B (2 * k)"
  let ?know = "int (length (filter (\<lambda>i. row ! i \<noteq> -1) ?c))"
  let ?unk = "int (length (filter (\<lambda>i. row ! i = -1) ?c))"
  have len: "length row = 2 * k" "length B = 2 * k" using assms(1,2) by (auto simp: ts_row_def ts_marks_def)
  have total: "?know + ?unk = int (length ?c)" using filter_partition[of "\<lambda>i. row ! i" "-1" ?c] by simp
  have pos: "0 < length ?c" using assms(3) by simp
  have greedy: "\<exists>i \<in> set ?c. greedy_pick row B [0..<2 * k] (-1) (-1) = int i" if "?know \<noteq> 0"
  proof -
    from that obtain j where "j \<in> set ?c" "row ! j \<noteq> -1" by (auto simp: filter_empty_conv)
    then have j: "j < 2 * k" "B ! j = 0" "row ! j > -1"
      using assms(1) by (auto simp: pull_candidates_set ts_row_def order_less_le)
    then obtain i where i: "i < 2 * k" "greedy_pick row B [0..<2 * k] (-1) (-1) = int i" "B ! i = 0" "row ! i > -1"
      using greedy_pick_cases[of row B "[0..<2 * k]" "-1" "-1"] by fastforce
    then have "odd i" using assms(1) by (auto simp: ts_row_def)
    with i show ?thesis by (auto simp: pull_candidates_set)
  qed
  have "cmod (w_rand W 1) (int (length ?c)) \<in> {0..<int (length ?c)}"
    using assms(4) pos by (auto simp: cmod_nonneg)
  then have random: "\<exists>i \<in> set ?c. random_pick ?c (cmod (w_rand W 1) (int (length ?c)) + 1) = int i"
    by (intro bexI[of _ "?c ! nat (cmod (w_rand W 1) (int (length ?c)))"]) (auto simp: random_pick_def)
  have unk: "?unk + ?know = int (length ?c)" using total by simp
  show ?thesis using pos greedy random
    unfolding choose_receiver_def Let_def len diff_0_right total unk
    by (auto simp: pos)
qed

lemma ts_marks_set:
  "ts_marks k B \<Longrightarrow> i \<in> set (pull_candidates B (2 * k)) \<Longrightarrow> ts_marks k (B[i := 1])"
  by (auto simp: ts_marks_def pull_candidates_set nth_list_update)

lemma wr2_in_range:
  assumes "length A = n" "\<forall>row \<in> set A. length row = n" "0 \<le> i" "i < int n" "0 \<le> j" "j < int n"
  shows "wr2 A i j x = Inr (A[nat i := (A ! nat i)[nat j := x]])"
proof -
  have "length (A ! nat i) = n" using assms by simp
  then show ?thesis using assms by (simp add: wr2_def rd_def wr_def)
qed

definition valid_report :: "nat \<Rightarrow> Message \<Rightarrow> bool" where
  "valid_report k m \<longleftrightarrow>
     (let meta = msg_meta m in 100 \<le> m_sender meta \<and> m_sender meta < 100 + 2 * int k \<and>
        (m_app_id meta = -1 \<or> 0 \<le> m_app_id meta \<and> 100 \<le> m_customer_id meta \<and>
           m_customer_id meta < 100 + 2 * int k \<and> odd (m_customer_id meta)))"

lemma record_throughput_inv:
  assumes "ts_inv k v" "valid_report k m"
  shows "\<exists>v'. record_throughput 100 m v = Inr v' \<and> ts_inv k v' \<and> van_B v' = van_B v \<and> van_iters v' = van_iters v \<and>
    van_outbox v' = van_outbox v \<and> van_resender v' = van_resender v"
proof (cases "m_app_id (msg_meta m) = -1")
  case True
  then show ?thesis using assms(1) by (auto simp: record_throughput_def Let_def)
next
  case False
  let ?r = "m_sender (msg_meta m) - 100" and ?c = "m_customer_id (msg_meta m) - 100"
  let ?A = "(van_A v)[nat ?r := (van_A v ! nat ?r)[nat ?c := m_app_id (msg_meta m)]]"
  let ?L = "(van_lifetime v)[nat ?r := (van_lifetime v ! nat ?r)[nat ?c := m_version (msg_meta m)]]"
  have rng: "0 \<le> ?r" "?r < int (2 * k)" "0 \<le> ?c" "?c < int (2 * k)" "odd (nat ?c)" "0 \<le> m_app_id (msg_meta m)"
    using assms(2) False by (auto simp: valid_report_def Let_def even_nat_iff)
  have rows: "length (van_A v) = 2 * k" "\<forall>row \<in> set (van_A v). length row = 2 * k"
    "length (van_lifetime v) = 2 * k" "\<forall>row \<in> set (van_lifetime v). length row = 2 * k"
    using assms(1) by (auto simp: ts_inv_def ts_row_def)
  have "wr2 (van_A v) ?r ?c (m_app_id (msg_meta m)) = Inr ?A" "wr2 (van_lifetime v) ?r ?c (m_version (msg_meta m)) = Inr ?L"
    using wr2_in_range[OF rows(1,2) rng(1-4)] wr2_in_range[OF rows(3,4) rng(1-4)] by auto
  then have "record_throughput 100 m v = Inr (v\<lparr>van_A := ?A, van_lifetime := ?L\<rparr>)"
    using False by (simp add: record_throughput_def Let_def)
  moreover have row: "ts_row k (van_A v ! nat ?r)" using assms(1) rng(1,2) by (auto simp: ts_inv_def)
  then have "ts_row k ((van_A v ! nat ?r)[nat ?c := m_app_id (msg_meta m)])"
    using rng by (auto simp: ts_row_def nth_list_update)
  then have "\<forall>row \<in> set ?A. ts_row k row" using assms(1) by (auto simp: ts_inv_def dest!: set_update_subset_insert[THEN subsetD])
  moreover have "length (van_lifetime v ! nat ?r) = 2 * k" using rows(3,4) rng(1,2) by simp
  then have "\<forall>row \<in> set ?L. length row = 2 * k" using rows(4) by (auto dest!: set_update_subset_insert[THEN subsetD])
  ultimately show ?thesis using assms(1) rows by (simp add: ts_inv_def)
qed

lemma next_round_inv:
  assumes "ts_inv k v" "0 < k"
  shows "ts_inv k (next_round (int k) v) \<and> pull_candidates (van_B (next_round (int k) v)) (2 * k) \<noteq> []"
proof -
  let ?v = "next_round (int k) v"
  have inv: "ts_inv k ?v" using assms(1) by (auto simp: next_round_def ts_inv_def)
  then have "ts_marks k (van_B ?v)" by (simp add: ts_inv_def)
  moreover have "sum_list (van_B ?v) \<noteq> int k" using assms(2) by (auto simp: next_round_def sum_list_triv comp_def)
  ultimately show ?thesis using inv ts_marks_sum by fastforce
qed

text \<open>What one question of a worker does to the van of the scheduler.\<close>

lemma ask_pull_choice_candidate:
  assumes "ts_inv k v" "0 < k" "valid_report k m" "0 \<le> w_rand W 1"
    "pull_candidates (van_B v) (2 * k) \<noteq> []" "van_iters v < m_version (msg_meta m)"
  shows "\<exists>i \<in> set (pull_candidates (van_B v) (2 * k)). ask_pull_choice W 100 0 1 m v = Inr (int i)"
proof -
  let ?r = "m_sender (msg_meta m) - 100"
  have "0 \<le> ?r" "?r < int (length (van_A v))" using assms(1,3) by (auto simp: ts_inv_def valid_report_def Let_def)
  then have "rd (van_A v) ?r = Inr (van_A v ! nat ?r)" "van_A v ! nat ?r \<in> set (van_A v)" by (auto simp: rd_def)
  then show ?thesis
    using choose_receiver_candidate[of k "van_A v ! nat ?r" "van_B v" W] assms by (auto simp: ask_pull_choice_def ts_inv_def)
qed

subsection \<open>Properties\<close>

text \<open>
  C14: TSEngine serves every worker once per round. A party's scheduler whose tables are in order
  answers every question: with "no receiver" when the asked version has been spread, and otherwise
  with a worker that has not been served in the current round, which it marks; a round ends when all
  workers are marked. The tables stay in order.
\<close>

theorem pull_receiver_unserved:
  assumes "ts_inv k (pr_van p)" "0 < k" "po_num_workers (pr_po p) = int k" "valid_report k m"
    and "0 \<le> w_rand W 1" "van_resender (pr_van p) = None" "\<forall>x. w_send W x False \<noteq> -1"
  shows "\<exists>p' r. ProcessAskPullCommand W m p = Inr p' \<and> ts_inv k (pr_van p') \<and>
    van_outbox (pr_van p') = van_outbox (pr_van p) @ [(r, Local)] \<and> m_recver (msg_meta r) = m_sender (msg_meta m) \<and>
    (let v1 = next_round (int k) (pr_van p) in
     if m_version (msg_meta m) \<le> van_iters v1
     then m_customer_id (msg_meta r) = -1 \<and> van_B (pr_van p') = van_B v1
     else \<exists>i < 2 * k. odd i \<and> van_B v1 ! i = 0 \<and> van_B (pr_van p') = (van_B v1)[i := 1] \<and>
       m_customer_id (msg_meta r) = 100 + int i)"
proof -
  obtain v0 where v0: "record_throughput 100 m (pr_van p) = Inr v0" "ts_inv k v0" "van_B v0 = van_B (pr_van p)"
    "van_iters v0 = van_iters (pr_van p)" "van_outbox v0 = van_outbox (pr_van p)" "van_resender v0 = None"
    using record_throughput_inv[OF assms(1,4)] assms(6) by auto
  define v0' where "v0' = van_timestamp_update (\<lambda>t. t + 1) v0"
  define v1 where "v1 = next_round (int k) v0'"
  have inv0: "ts_inv k v0'" using v0(2) by (simp add: v0'_def ts_inv_def)
  have B: "van_B v1 = van_B (next_round (int k) (pr_van p))" "van_iters v1 = van_iters (next_round (int k) (pr_van p))"
    using v0 by (auto simp: v1_def v0'_def next_round_def)
  have rest: "van_outbox v1 = van_outbox (pr_van p)" "van_resender v1 = None"
    using v0 by (auto simp: v1_def v0'_def next_round_def)
  have inv1: "ts_inv k v1" and cands: "pull_candidates (van_B v1) (2 * k) \<noteq> []"
    using next_round_inv[OF inv0 assms(2)] by (simp_all add: v1_def)
  have step: "ProcessAskPullCommand W m p =
      rbind (ask_pull_choice W 100 0 1 m v1) (\<lambda>receiver.
      rbind (if receiver \<noteq> -1 then rbind (wr (van_B v1) receiver 1) (\<lambda>B. Inr (v1\<lparr>van_B := B\<rparr>, receiver + 100))
             else Inr (v1, -1)) (\<lambda>(v2, cid).
      rbind (Send W (pull_reply (n_id (van_my_node (pr_van p))) (m_sender (msg_meta m)) (van_timestamp v0) cid) False
        (p\<lparr>pr_van := v2\<rparr>)) (\<lambda>(p2, _). Inr p2)))"
    by (simp add: ProcessAskPullCommand_def ask_pull_def v0(1) GetTimestamp_def upd_van_def assms(3) v1_def v0'_def Let_def
        cong: if_cong)
  show ?thesis
  proof (cases "m_version (msg_meta m) \<le> van_iters v1")
    case True
    let ?r = "pull_reply (n_id (van_my_node (pr_van p))) (m_sender (msg_meta m)) (van_timestamp v0) (-1)"
    have "Send W ?r False (p\<lparr>pr_van := v1\<rparr>) = Inr (p\<lparr>pr_van := v1\<lparr>van_outbox := van_outbox v1 @ [(?r, Local)],
        van_send_bytes := van_send_bytes v1 + word_of_int (w_send W ?r False)\<rparr>\<rparr>, w_send W ?r False)"
      using Send_succeeds[of "p\<lparr>pr_van := v1\<rparr>" W ?r False] rest(2) assms(7) by (simp add: upd_van_def)
    then show ?thesis using True inv1 rest(1) B
      by (simp add: step ask_pull_choice_def pull_reply_def ts_inv_def)
  next
    case False
    then obtain i where i: "i \<in> set (pull_candidates (van_B v1) (2 * k))" "ask_pull_choice W 100 0 1 m v1 = Inr (int i)"
      using ask_pull_choice_candidate[OF inv1 assms(2,4,5) cands] by auto
    let ?v2 = "v1\<lparr>van_B := (van_B v1)[i := 1]\<rparr>"
    let ?r = "pull_reply (n_id (van_my_node (pr_van p))) (m_sender (msg_meta m)) (van_timestamp v0) (int i + 100)"
    have len: "i < length (van_B v1)" using i(1) inv1 by (auto simp: pull_candidates_set ts_inv_def ts_marks_def)
    have "Send W ?r False (p\<lparr>pr_van := ?v2\<rparr>) = Inr (p\<lparr>pr_van := ?v2\<lparr>van_outbox := van_outbox v1 @ [(?r, Local)],
        van_send_bytes := van_send_bytes v1 + word_of_int (w_send W ?r False)\<rparr>\<rparr>, w_send W ?r False)"
      using Send_succeeds[of "p\<lparr>pr_van := ?v2\<rparr>" W ?r False] rest(2) assms(7) by (simp add: upd_van_def)
    then have "ProcessAskPullCommand W m p = Inr (p\<lparr>pr_van := ?v2\<lparr>van_outbox := van_outbox v1 @ [(?r, Local)],
        van_send_bytes := van_send_bytes v1 + word_of_int (w_send W ?r False)\<rparr>\<rparr>)"
      using len by (simp add: step i(2) wr_def)
    moreover have "ts_inv k ?v2" using inv1 ts_marks_set i(1) by (simp add: ts_inv_def)
    moreover have "\<not> m_version (msg_meta m) \<le> van_iters (next_round (int k) (pr_van p))" using False B by simp
    ultimately show ?thesis using i(1) rest(1) B
      by (auto simp: pull_reply_def ts_inv_def pull_candidates_set)
  qed
qed

definition pull_proc :: Proc where
  "pull_proc = \<lparr>pr_van = new_Van\<lparr>van_A := replicate 4 (replicate 4 (-1)), van_lifetime := replicate 4 (replicate 4 (-1)),
     van_B := replicate 4 0\<rparr>, pr_po = scheduler_postoffice, pr_cust = Map.empty, pr_env = Map.empty\<rparr>"

definition ask_msg :: Message where
  "ask_msg = empty_Message\<lparr>msg_meta := empty_Meta\<lparr>m_sender := 100, m_app_id := -1, m_version := 0\<rparr>\<rparr>"

theorem pull_receiver_unserved_witness:
  "\<exists>p' r i. ProcessAskPullCommand quiet_world ask_msg pull_proc = Inr p' \<and>
     van_outbox (pr_van p') = [(r, Local)] \<and> i < 4 \<and> odd i \<and> m_customer_id (msg_meta r) = 100 + int i"
proof -
  have inv: "ts_inv 2 (pr_van pull_proc)"
    by (auto simp: ts_inv_def ts_row_def ts_marks_def pull_proc_def new_Van_def less_Suc_eq numeral_eq_Suc)
  have round: "next_round 2 (pr_van pull_proc) = pr_van pull_proc"
    by (simp add: next_round_def pull_proc_def new_Van_def sum_list_replicate)
  have po: "po_num_workers (pr_po pull_proc) = int 2" "van_resender (pr_van pull_proc) = None"
    "van_outbox (pr_van pull_proc) = []" "van_iters (pr_van pull_proc) = -1"
    by (simp_all add: pull_proc_def scheduler_postoffice_def new_Van_def)
  have report: "valid_report 2 ask_msg" "m_version (msg_meta ask_msg) = 0"
    by (simp_all add: valid_report_def ask_msg_def)
  show ?thesis
    using pull_receiver_unserved[OF inv _ po(1) report(1), of quiet_world] po report round
    by (auto simp: quiet_world_def Let_def)
qed

text \<open>
  C28: TSEngine pairs distinct nodes. A node that asks alone waits; a node that asks while another
  one waits ends the wait with one message to one of the two, telling it to send its gradient to the
  other; when one of the two is the server of the party, it is the one that receives. A repeated
  question of the waiting node is ignored.
\<close>

theorem push_pairs_distinct:
  assumes "ProcessAskPushCommand W m p = Inr p'" "length (van_ask_q (pr_van p)) \<le> 1"
  shows "(case van_ask_q (pr_van p) of
      [] \<Rightarrow> van_ask_q (pr_van p') = [m_sender (msg_meta m) - 100] \<and> van_outbox (pr_van p') = van_outbox (pr_van p)
    | x # _ \<Rightarrow>
        if x = m_sender (msg_meta m) - 100 then p' = p
        else van_ask_q (pr_van p') = [] \<and>
          (\<exists>r. van_outbox (pr_van p') = van_outbox (pr_van p) @ [(r, Local)] \<and>
             m_recver (msg_meta r) \<noteq> m_iters (msg_meta r) \<and>
             {m_recver (msg_meta r), m_iters (msg_meta r)} = {x + 100, m_sender (msg_meta m)} \<and>
             (100 \<in> {x + 100, m_sender (msg_meta m)} \<longrightarrow> m_iters (msg_meta r) = 100)))"
proof (cases "van_ask_q (pr_van p)")
  case Nil
  then show ?thesis using assms(1) by (auto simp: ProcessAskPushCommand_def ask_push_def Let_def upd_van_def)
next
  case (Cons x xs)
  then have q: "van_ask_q (pr_van p) = [x]" using assms(2) by simp
  let ?n = "m_sender (msg_meta m) - 100"
  show ?thesis
  proof (cases "x = ?n")
    case True
    then show ?thesis using assms(1) q by (simp add: ProcessAskPushCommand_def ask_push_def Let_def)
  next
    case False
    from assms(1) False obtain s t B1 p1 k where
      roles: "push_roles 0 (van_A (pr_van p)) x ?n = Inr (s, t)" and
      snd: "Send W (push_reply (n_id (van_my_node (pr_van p))) m (s + 100) (t + 100)) False
        (upd_van (\<lambda>v. v\<lparr>van_ask_q := [], van_B1 := B1\<rparr>) p) = Inr (p1, k)" and
      p': "p' = upd_van (\<lambda>v. v\<lparr>van_B1 := reset_if_full (po_num_workers (pr_po p)) (van_B1 v)\<rparr>) p1"
      by (auto simp: ProcessAskPushCommand_def ask_push_def Let_def q res_simps)
    have st: "s \<noteq> t" "{s, t} = {x, ?n}" "0 \<in> {x, ?n} \<Longrightarrow> t = 0"
      using roles False by (auto simp: push_roles_def res_simps split: if_splits)
    from Send_result[OF snd] have
      "van_ask_q (pr_van p1) = []" "van_outbox (pr_van p1) = van_outbox (pr_van p) @
         [(push_reply (n_id (van_my_node (pr_van p))) m (s + 100) (t + 100), Local)]"
      by (auto simp: upd_van_def)
    moreover have "{s + 100, t + 100} = {x + 100, m_sender (msg_meta m)}" using st(2) by (auto simp: doubleton_eq_iff)
    ultimately show ?thesis using False q st p' by (auto simp: upd_van_def push_reply_def)
  qed
qed

definition push_ask :: "int \<Rightarrow> Message" where
  "push_ask i = empty_Message\<lparr>msg_meta := empty_Meta\<lparr>m_sender := i, m_app_id := 0, m_customer_id := 0, m_timestamp := 0\<rparr>\<rparr>"

theorem push_pairs_distinct_witness:
  "\<exists>p' r. ProcessAskPushCommand quiet_world (push_ask 101)
       (upd_van (\<lambda>v. v\<lparr>van_ask_q := [0], van_B1 := [0, 0, 0, 0]\<rparr>) pull_proc) = Inr p' \<and>
     van_outbox (pr_van p') = [(r, Local)] \<and> m_recver (msg_meta r) \<noteq> m_iters (msg_meta r) \<and> m_iters (msg_meta r) = 100"
proof -
  let ?p = "upd_van (\<lambda>v. v\<lparr>van_ask_q := [0], van_B1 := [0, 0, 0, 0]\<rparr>) pull_proc"
  have q: "van_ask_q (pr_van ?p) = [0]" "van_outbox (pr_van ?p) = []"
    by (simp_all add: upd_van_def pull_proc_def new_Van_def)
  have ok: "\<exists>p'. ProcessAskPushCommand quiet_world (push_ask 101) ?p = Inr p'"
    by (simp add: ProcessAskPushCommand_def ask_push_def upd_van_def pull_proc_def new_Van_def push_ask_def push_roles_def
        wr_def Send_def note_outgoing_def quiet_world_def Let_def)
  then obtain p' where p': "ProcessAskPushCommand quiet_world (push_ask 101) ?p = Inr p'" by blast
  have "m_sender (msg_meta (push_ask 101)) = 101" by (simp add: push_ask_def)
  with push_pairs_distinct[OF p'] q p' show ?thesis by auto
qed

end
