(* ===== verification/Commands.thy ===== *)
theory Commands
  imports Customers
begin

text \<open>
  Commands of the key-value store: the request types, their pairing with a data type into one
  integer by the Cantor function (\<^verbatim>\<open>kvstore_dist_server.h\<close>, repeated in \<^verbatim>\<open>van.h\<close>), and the heads
  of messages it makes the receiving threads route on.
\<close>

datatype RequestType = kDefaultPushPull | kRowSparsePushPull | kCompressedPushPull | kBSCompressedPushPull
  | OtherRequest int

fun int_of_RequestType :: "RequestType \<Rightarrow> int" where
  "int_of_RequestType kDefaultPushPull = 0"
| "int_of_RequestType kRowSparsePushPull = 1"
| "int_of_RequestType kCompressedPushPull = 2"
| "int_of_RequestType kBSCompressedPushPull = 3"
| "int_of_RequestType (OtherRequest i) = i"

definition RequestType_of_int :: "int \<Rightarrow> RequestType" where
  "RequestType_of_int i = (if i = 0 then kDefaultPushPull else if i = 1 then kRowSparsePushPull
     else if i = 2 then kCompressedPushPull else if i = 3 then kBSCompressedPushPull else OtherRequest i)"

record DataHandleType =
  dh_requestType :: RequestType
  dh_dtype :: int

definition GetCommandType :: "RequestType \<Rightarrow> int \<Rightarrow> int" where
  "GetCommandType requestType d =
     (let m = int_of_RequestType requestType in cdiv ((m + d) * (m + d + 1)) 2 + d)"

text \<open>
  The largest \<open>w\<close> whose triangular number does not exceed \<open>c\<close>, which is the value of the
  expression \<^verbatim>\<open>floor((sqrt(8 * cmd + 1) - 1) / 2)\<close>.
\<close>

function tri_root_from :: "nat \<Rightarrow> nat \<Rightarrow> nat" where
  "tri_root_from w c = (if (w + 1) * (w + 2) div 2 \<le> c then tri_root_from (w + 1) c else w)"
  by auto
termination
proof (relation "measure (\<lambda>(w, c). c - w)", goal_cases)
  case (2 w c)
  have "w < (w + 1) * (w + 2) div 2" by (induction w) auto
  with 2 show ?case by simp
qed simp

declare tri_root_from.simps [simp del]

definition tri_root :: "int \<Rightarrow> int" where
  "tri_root c = int (tri_root_from 0 (nat c))"

definition DepairDataHandleType :: "int \<Rightarrow> DataHandleType res" where
  "DepairDataHandleType cmd =
     defined (0 \<le> cmd \<and> 8 * cmd + 1 < 2 ^ 31) ''sqrt(8 * cmd + 1)''
      (let w = tri_root cmd; t = cdiv (w * w + w) 2; y = cmd - t; x = w - y in
       chk (0 \<le> x) ''x >= 0'' (chk (0 \<le> y) ''y >= 0''
         (Inr \<lparr>dh_requestType = RequestType_of_int x, dh_dtype = y\<rparr>)))"

subsection \<open>Pairing\<close>

lemma tri_root_from_spec:
  assumes "v * (v + 1) div 2 \<le> c"
  shows "tri_root_from v c * (tri_root_from v c + 1) div 2 \<le> c \<and>
    c < (tri_root_from v c + 1) * (tri_root_from v c + 2) div 2"
  using assms
proof (induction v c rule: tri_root_from.induct)
  case (1 v c)
  show ?case
  proof (cases "(v + 1) * (v + 2) div 2 \<le> c")
    case True
    then show ?thesis using 1 by (subst (1 2 3 4) tri_root_from.simps) (simp add: mult.commute)
  next
    case False
    then show ?thesis using 1(2) by (subst (1 2 3 4) tri_root_from.simps) simp
  qed
qed

definition tri :: "nat \<Rightarrow> nat" where
  "tri w = w * (w + 1) div 2"

lemma tri_Suc: "tri (Suc w) = tri w + w + 1"
  by (simp add: tri_def)

lemma tri_mono: "v \<le> w \<Longrightarrow> tri v \<le> tri w"
  by (induction w) (auto simp: tri_Suc le_Suc_eq)

lemma tri_root_bounds: "tri (tri_root_from 0 c) \<le> c" "c < tri (Suc (tri_root_from 0 c))"
  using tri_root_from_spec[of 0 c] by (auto simp: tri_def)

lemma tri_root_unique:
  assumes "tri w \<le> c" "c < tri (Suc w)"
  shows "tri_root_from 0 c = w"
proof (rule ccontr)
  assume "tri_root_from 0 c \<noteq> w"
  then consider "Suc w \<le> tri_root_from 0 c" | "Suc (tri_root_from 0 c) \<le> w" by linarith
  then show False using tri_mono tri_root_bounds[of c] assms by cases (meson leD le_trans)+
qed

lemma cdiv_two: "0 \<le> a \<Longrightarrow> cdiv a 2 = a div 2"
  by (simp add: cdiv_nonneg)

lemma int_tri: "int (tri w) = int w * (int w + 1) div 2"
  by (simp add: tri_def zdiv_int algebra_simps)

text \<open>The value of \<open>tri_root\<close> is the floating-point expression of the source, computed exactly.\<close>

lemma tri_root_sqrt: "0 \<le> c \<Longrightarrow> tri_root c = \<lfloor>(sqrt (real_of_int (8 * c + 1)) - 1) / 2\<rfloor>"
proof -
  assume "0 \<le> c"
  define n where "n = nat c"
  define w where "w = tri_root_from 0 n"
  have c: "real_of_int c = real n" using \<open>0 \<le> c\<close> by (simp add: n_def)
  have dbl: "2 * tri k = k * (k + 1)" for k by (induction k) (auto simp: tri_Suc tri_def)
  have "2 * tri w \<le> 2 * n" "2 * n < 2 * tri (Suc w)" using tri_root_bounds[of n] by (auto simp: w_def)
  then have lo: "w * (w + 1) \<le> 2 * n" and hi: "2 * n < (w + 1) * (w + 2)" by (simp_all only: dbl) auto
  have lo': "(2 * real w + 1)\<^sup>2 \<le> 8 * real n + 1" and hi': "8 * real n + 1 < (2 * real w + 3)\<^sup>2"
  proof -
    have "real (w * (w + 1)) \<le> real (2 * n)" using lo by (rule of_nat_mono)
    then show "(2 * real w + 1)\<^sup>2 \<le> 8 * real n + 1" by (simp add: power2_eq_square algebra_simps)
    have "real (2 * n) < real ((w + 1) * (w + 2))" using hi by (simp only: of_nat_less_iff)
    then show "8 * real n + 1 < (2 * real w + 3)\<^sup>2" by (simp add: power2_eq_square algebra_simps)
  qed
  have "2 * real w + 1 \<le> sqrt (8 * real n + 1)" using lo' by (rule real_le_rsqrt)
  moreover have "sqrt (8 * real n + 1) < 2 * real w + 3" using hi' by (intro real_less_lsqrt) auto
  ultimately have "\<lfloor>(sqrt (8 * real n + 1) - 1) / 2\<rfloor> = int w" by (intro floor_unique) auto
  then show ?thesis by (simp add: tri_root_def w_def[symmetric] n_def[symmetric] c)
qed

text \<open>
  C26: the Cantor pairing of commands is inverted. For every request type of the enumeration and
  every data type below 2^13, splitting the paired command gives both back.
\<close>

theorem DepairDataHandleType_GetCommandType:
  assumes "r \<in> {kDefaultPushPull, kRowSparsePushPull, kCompressedPushPull, kBSCompressedPushPull}" "0 \<le> d" "d < 2 ^ 13"
  shows "DepairDataHandleType (GetCommandType r d) = Inr \<lparr>dh_requestType = r, dh_dtype = d\<rparr>"
proof -
  define m where "m = int_of_RequestType r"
  have m: "0 \<le> m" "m \<le> 3" "RequestType_of_int m = r" using assms(1) by (auto simp: m_def RequestType_of_int_def)
  define w where "w = nat (m + d)"
  have w: "int w = m + d" using m assms(2) by (simp add: w_def)
  have cmd: "GetCommandType r d = int (tri w) + d"
    using m(1) assms(2) by (simp add: GetCommandType_def m_def[symmetric] int_tri w cdiv_two)
  have "nat (int (tri w) + d) = tri w + nat d" using assms(2) by (simp add: nat_add_distrib)
  moreover have "tri_root_from 0 (tri w + nat d) = w"
    using m assms(2) w by (intro tri_root_unique) (auto simp: tri_Suc)
  ultimately have root: "tri_root (int (tri w) + d) = int w" by (simp add: tri_root_def)
  have "w \<le> 2 ^ 13 + 2" using w m assms(3) by simp
  then have "tri w \<le> tri (2 ^ 13 + 2)" by (rule tri_mono)
  then have "8 * (int (tri w) + d) + 1 < 2 ^ 31" using assms(3) by (simp add: tri_def)
  moreover have "cdiv (int w * int w + int w) 2 = int (tri w)" by (simp add: cdiv_two int_tri algebra_simps)
  ultimately show ?thesis using root m assms(2) w by (simp add: DepairDataHandleType_def cmd Let_def)
qed

theorem DepairDataHandleType_GetCommandType_witness:
  "DepairDataHandleType (GetCommandType kBSCompressedPushPull 2) = Inr \<lparr>dh_requestType = kBSCompressedPushPull, dh_dtype = 2\<rparr>"
  using DepairDataHandleType_GetCommandType[of kBSCompressedPushPull 2] by simp

text \<open>
  Which commands \<open>Customer::Accept\<close> takes for pull requests. The heads it lists are the
  default requests for the data types 0, 1 and 2 (32-, 64- and 16-bit floats) and, of the compressed
  ones, only those for 32-bit floats: a pull of any other kind is handled by the push thread.
\<close>

theorem pull_heads_meaning:
  assumes "r \<in> {kDefaultPushPull, kRowSparsePushPull, kCompressedPushPull, kBSCompressedPushPull}" "0 \<le> d" "d < 2 ^ 13"
  shows "GetCommandType r d \<in> set valid_heads \<longleftrightarrow>
    r = kDefaultPushPull \<and> d \<le> 2 \<or> r \<in> {kCompressedPushPull, kBSCompressedPushPull} \<and> d = 0"
proof -
  define m where "m = int_of_RequestType r"
  have m: "0 \<le> m" "m \<le> 3" using assms(1) by (auto simp: m_def)
  define w where "w = nat (m + d)"
  have w: "int w = m + d" using m assms(2) by (simp add: w_def)
  have cmd: "GetCommandType r d = int (tri w) + d"
    using m(1) assms(2) by (simp add: GetCommandType_def m_def[symmetric] int_tri w cdiv_two)
  show ?thesis
  proof (cases "w \<le> 3")
    case True
    have tri: "tri 0 = 0" "tri (Suc 0) = 1" "tri 2 = 3" "tri 3 = 6" by (simp_all add: tri_def)
    have r: "(r = kDefaultPushPull) = (m = 0)" "(r \<in> {kCompressedPushPull, kBSCompressedPushPull}) = (m = 2 \<or> m = 3)"
      using assms(1) by (auto simp: m_def)
    have d: "d = int w - m" using w by simp
    consider "w = 0" | "w = 1" | "w = 2" | "w = 3" using True by linarith
    then show ?thesis unfolding cmd r using m assms(2) unfolding d
      by cases (auto simp: tri valid_heads_def)
  next
    case False
    then have "tri 4 \<le> tri w" by (intro tri_mono) simp
    then have "6 < GetCommandType r d" using cmd assms(2) by (simp add: tri_def)
    moreover have "\<not> (r = kDefaultPushPull \<and> d \<le> 2 \<or> r \<in> {kCompressedPushPull, kBSCompressedPushPull} \<and> d = 0)"
      using False w by (auto simp: m_def)
    ultimately show ?thesis by (auto simp: valid_heads_def)
  qed
qed

theorem pull_heads_meaning_witness:
  "GetCommandType kDefaultPushPull 2 \<in> set valid_heads \<and> GetCommandType kCompressedPushPull 2 \<notin> set valid_heads"
  using pull_heads_meaning[of kDefaultPushPull 2] pull_heads_meaning[of kCompressedPushPull 2] by simp

end
