(* ===== verification/Dgt.thy ===== *)
theory Dgt
  imports Vans Commands
begin

text \<open>
  Differential gradient transmission (\<^verbatim>\<open>van.cc\<close>): a global push is cut into chunks, of which the
  unimportant ones may travel by UDP or be quantised. This theory models the 4-bit quantiser
  \<open>encode\<close> and its inverse \<open>decode\<close>, the merging of chunks, the reassembly in
  \<open>ProcessDataMsg\<close>, and the two sending threads. Floats are 32-bit patterns; the operations of
  the floating point unit are the parameter \<open>Fpu\<close>.
\<close>

unbundle bit_operations_syntax

record Fpu =
  f_add :: "f32 \<Rightarrow> f32 \<Rightarrow> f32"
  f_sub :: "f32 \<Rightarrow> f32 \<Rightarrow> f32"
  f_less :: "f32 \<Rightarrow> f32 \<Rightarrow> bool"
  f_center :: "int \<Rightarrow> f32 \<Rightarrow> f32 \<Rightarrow> int \<Rightarrow> f32"
  f_quant :: "int \<Rightarrow> f32 \<Rightarrow> f32 \<Rightarrow> f32 \<Rightarrow> int"
  h_add :: "16 word \<Rightarrow> 16 word \<Rightarrow> 16 word"

subsection \<open>Bytes and floats\<close>

definition f32_of_bytes :: "8 word \<Rightarrow> 8 word \<Rightarrow> 8 word \<Rightarrow> 8 word \<Rightarrow> f32" where
  "f32_of_bytes a b c d = ucast a OR push_bit 8 (ucast b) OR push_bit 16 (ucast c) OR push_bit 24 (ucast d)"

definition bytes_of_f32 :: "f32 \<Rightarrow> bytes" where
  "bytes_of_f32 x = [ucast x, ucast (drop_bit 8 x), ucast (drop_bit 16 x), ucast (drop_bit 24 x)]"

text \<open>A buffer seen as an array of floats; a trailing fragment is not part of it.\<close>

fun floats_of :: "bytes \<Rightarrow> f32 list" where
  "floats_of (a # b # c # d # bs) = f32_of_bytes a b c d # floats_of bs"
| "floats_of _ = []"

definition bytes_of_floats :: "f32 list \<Rightarrow> bytes" where
  "bytes_of_floats xs = concat (map bytes_of_f32 xs)"

fun halfs_of :: "bytes \<Rightarrow> 16 word list" where
  "halfs_of (a # b # bs) = (ucast a OR push_bit 8 (ucast b)) # halfs_of bs"
| "halfs_of _ = []"

definition bytes_of_halfs :: "16 word list \<Rightarrow> bytes" where
  "bytes_of_halfs xs = concat (map (\<lambda>x. [ucast x, ucast (drop_bit 8 x)]) xs)"

lemma f32_of_bytes_of_f32: "f32_of_bytes (ucast x) (ucast (drop_bit 8 x)) (ucast (drop_bit 16 x)) (ucast (drop_bit 24 x)) = x"
proof (rule bit_word_eqI)
  fix n assume "n < LENGTH(32)"
  then have "n < 8 \<or> n = 8 + (n - 8) \<and> n - 8 < 8 \<or> n = 16 + (n - 16) \<and> n - 16 < 8 \<or> n = 24 + (n - 24) \<and> n - 24 < 8"
    by simp linarith
  then consider "n < 8" | k where "n = 8 + k" "k < 8" | k where "n = 16 + k" "k < 8" | k where "n = 24 + k" "k < 8"
    by blast
  then show "bit (f32_of_bytes (ucast x) (ucast (drop_bit 8 x)) (ucast (drop_bit 16 x)) (ucast (drop_bit 24 x))) n = bit x n"
    unfolding f32_of_bytes_def by cases (auto simp: bit_simps)
qed

lemma floats_of_bytes_of_floats [simp]: "floats_of (bytes_of_floats xs) = xs"
  by (induction xs) (auto simp: bytes_of_floats_def bytes_of_f32_def f32_of_bytes_of_f32)

lemma length_bytes_of_floats [simp]: "length (bytes_of_floats xs) = 4 * length xs"
  by (induction xs) (auto simp: bytes_of_floats_def bytes_of_f32_def)

lemma length_floats_of: "length (floats_of bs) = length bs div 4"
  by (induction bs rule: floats_of.induct) auto

subsection \<open>Merging chunks\<close>

text \<open>\<open>data[1]\<close>; a message without it makes the access undefined.\<close>

definition data1 :: "Message \<Rightarrow> bytes res" where
  "data1 m = defined (1 < length (msg_data m)) ''data[1]'' (Inr (msg_data m ! 1))"

definition set_data1 :: "bytes \<Rightarrow> Message \<Rightarrow> Message" where
  "set_data1 bs m = m\<lparr>msg_data := (msg_data m)[1 := bs]\<rparr>"

definition MergeMsg :: "Fpu \<Rightarrow> Message \<Rightarrow> Message \<Rightarrow> Message res" where
  "MergeMsg fp m1 m2 =
     rbind (data1 m1) (\<lambda>d1. rbind (data1 m2) (\<lambda>d2.
       chk (length d1 div 4 = length d2 div 4) ''nlen1 == nlen2''
         (Inr (set_data1 (bytes_of_floats (map2 (f_add fp) (floats_of d1) (floats_of d2))) m1))))"

text \<open>The 16-bit variant counts 16 bytes per element.\<close>

definition MergeMsg_HALF :: "Fpu \<Rightarrow> Message \<Rightarrow> Message \<Rightarrow> Message res" where
  "MergeMsg_HALF fp m1 m2 =
     rbind (data1 m1) (\<lambda>d1. rbind (data1 m2) (\<lambda>d2.
       let nlen1 = length d1 div 16; nlen2 = length d2 div 16 in
       chk (nlen1 = nlen2) ''nlen1 == nlen2''
         (Inr (set_data1 (bytes_of_halfs (map2 (h_add fp) (take nlen1 (halfs_of d1)) (take nlen1 (halfs_of d2)))) m1))))"

subsection \<open>Quantisation\<close>

definition fmax :: "Fpu \<Rightarrow> f32 \<Rightarrow> f32 \<Rightarrow> f32" where
  "fmax fp a b = (if f_less fp a b then b else a)"

definition fmin :: "Fpu \<Rightarrow> f32 \<Rightarrow> f32 \<Rightarrow> f32" where
  "fmin fp a b = (if f_less fp b a then b else a)"

definition or_byte :: "nat \<Rightarrow> 8 word \<Rightarrow> bytes \<Rightarrow> bytes res" where
  "or_byte k b buf = defined (k < length buf) ''*pd'' (Inr (buf[k := buf ! k OR b]))"

text \<open>
  The packing loop: the element number, the position of the output pointer, the output, and the
  residuals still to be processed with those already done.
\<close>

fun encode_loop :: "Fpu \<Rightarrow> int \<Rightarrow> f32 \<Rightarrow> f32 \<Rightarrow> f32 list \<Rightarrow> nat \<Rightarrow> nat \<Rightarrow> f32 list \<Rightarrow> bytes \<Rightarrow> (bytes \<times> f32 list) res" where
  "encode_loop fp bits mx mn compr i pd [] out = Inr (out, [])"
| "encode_loop fp bits mx mn compr i pd (r # rs) out =
     (let per = 8 div nat bits; qj = f_quant fp bits r mn mx in
      rbind (or_byte pd (word_of_int (qj * 2 ^ ((per - 1 - i mod per) * nat bits))) out) (\<lambda>out'.
      defined (0 \<le> qj \<and> qj < int (length compr)) ''compr[qj]''
       (rbind (encode_loop fp bits mx mn compr (Suc i) (if i mod per = 0 then Suc pd else pd) rs out')
          (\<lambda>(o2, rs'). Inr (o2, f_sub fp r (compr ! nat qj) # rs')))))"

definition encode :: "Fpu \<Rightarrow> int \<Rightarrow> Message \<Rightarrow> Van \<Rightarrow> (Message \<times> Van) res" where
  "encode fp bits m v =
     rbind (data1 m) (\<lambda>s_val.
       let meta = msg_meta m; size = length s_val; fold_by = nat (cdiv (m_bits_num meta) bits) in
       defined (fold_by \<noteq> 0) ''division by zero''
        (let d_val_size = (if size mod fold_by = 0 then size div fold_by else size div fold_by + 1);
             stored = (case van_residual v (m_first_key meta) (m_seq meta) of
                         Some bs \<Rightarrow> bs | None \<Rightarrow> replicate size 0);
             param_n = size div 4 in
         defined (size div 4 \<le> length stored div 4) ''residual''
          (let added = map2 (f_add fp) (floats_of stored) (floats_of s_val);
               mx = fold (\<lambda>r a. fmax fp a r) added 0; mn = fold (\<lambda>r a. fmin fp a r) added 0;
               compr = m_compr meta @ map (\<lambda>i. f_center fp bits mn mx (int i)) [0..<2 ^ nat bits] in
           rbind (encode_loop fp bits mx mn compr 0 0 added (replicate d_val_size 0)) (\<lambda>(out, resid).
             Inr (set_data1 out (m\<lparr>msg_meta := meta\<lparr>m_compr := compr, m_bits_num := bits\<rparr>\<rparr>),
                  v\<lparr>van_residual := (van_residual v)(m_first_key meta := (van_residual v (m_first_key meta))
                     (m_seq meta \<mapsto> bytes_of_floats resid @ drop (4 * param_n) stored))\<rparr>)))))"

text \<open>The unpacking loops: per byte, the codes from the high end down; the counter stops only the inner loop.\<close>

fun decode_byte :: "int \<Rightarrow> f32 list \<Rightarrow> 8 word \<Rightarrow> nat list \<Rightarrow> nat \<Rightarrow> int \<Rightarrow> f32 list \<Rightarrow> (nat \<times> int \<times> f32 list) res" where
  "decode_byte bits compr b [] pd n out = Inr (pd, n, out)"
| "decode_byte bits compr b (j # js) pd n out =
     (let qj = uint (drop_bit (8 - nat bits - nat bits * j) b AND (2 ^ nat bits - 1)) in
      defined (qj < int (length compr) \<and> pd < length out) ''compr[qj]''
       (let out' = out[pd := compr ! nat qj]; n' = n - 1 in
        if n' = 0 then Inr (Suc pd, n', out') else decode_byte bits compr b js (Suc pd) n' out'))"

fun decode_loop :: "int \<Rightarrow> f32 list \<Rightarrow> bytes \<Rightarrow> nat \<Rightarrow> int \<Rightarrow> f32 list \<Rightarrow> f32 list res" where
  "decode_loop bits compr [] pd n out = Inr out"
| "decode_loop bits compr (b # bs) pd n out =
     rbind (decode_byte bits compr b [0..<8 div nat bits] pd n out) (\<lambda>(pd', n', out'). decode_loop bits compr bs pd' n' out')"

definition decode :: "Message \<Rightarrow> Message res" where
  "decode m =
     (let meta = msg_meta m in
      rbind (DepairDataHandleType (m_head meta)) (\<lambda>ty.
        if dh_dtype ty = 0 \<and> m_bits_num meta = 32 \<or> dh_dtype ty = 2 \<and> m_bits_num meta = 16 then Inr m
        else rbind (data1 m) (\<lambda>s_val.
          chk (2 ^ nat (m_bits_num meta) = length (m_compr meta)) ''compr.size()''
            (rbind (decode_loop (m_bits_num meta) (m_compr meta) s_val 0 (m_vals_len meta div 4)
                      (replicate (nat (m_vals_len meta) div 4) 0))
              (\<lambda>out. Inr (set_data1 (bytes_of_floats out @ replicate (nat (m_vals_len meta) mod 4) 0) m))))))"

subsection \<open>Data messages\<close>

text \<open>\<open>memcpy\<close> of a chunk into the buffer at an offset; outside the buffer it is undefined.\<close>

definition paste :: "int \<Rightarrow> bytes \<Rightarrow> bytes \<Rightarrow> bytes res" where
  "paste off bs buf =
     defined (0 \<le> off \<and> nat off + length bs \<le> length buf) ''memcpy''
       (Inr (take (nat off) buf @ bs @ drop (nat off + length bs) buf))"

fun paste_all :: "(int \<times> Message) list \<Rightarrow> bytes \<Rightarrow> bytes res" where
  "paste_all [] buf = Inr buf"
| "paste_all ((_, m) # ms) buf =
     rbind (data1 m) (\<lambda>bs. rbind (paste (m_val_bytes (msg_meta m)) bs buf) (paste_all ms))"

text \<open>Storing a chunk: the first of its number is kept, a later one is added to it.\<close>

definition store_chunk :: "Fpu \<Rightarrow> int \<Rightarrow> Message \<Rightarrow> (int \<times> Message) list \<Rightarrow> (int \<times> Message) list res" where
  "store_chunk fp dtype m chunks =
     (let seq = m_seq (msg_meta m) in
      case map_of chunks seq of
        None \<Rightarrow> Inr (chunks @ [(seq, m)])
      | Some m0 \<Rightarrow>
          if dtype = 0 then rbind (MergeMsg fp m0 m) (\<lambda>x. Inr (AList.update seq x chunks))
          else if dtype = 2 then rbind (MergeMsg_HALF fp m0 m) (\<lambda>x. Inr (AList.update seq x chunks))
          else Inr chunks)"

definition set_chunks :: "int \<Rightarrow> int \<Rightarrow> (int \<times> Message) list \<Rightarrow> Van \<Rightarrow> Van" where
  "set_chunks sender first_key chunks v =
     v\<lparr>van_msg_map := (van_msg_map v)(sender := (van_msg_map v sender)(first_key := chunks))\<rparr>"

text \<open>The chunk branch: the message to hand over, once the last chunk has come, and the new van.\<close>

definition receive_chunk :: "Fpu \<Rightarrow> int \<Rightarrow> Message \<Rightarrow> Van \<Rightarrow> (Message option \<times> Van) res" where
  "receive_chunk fp dtype m v =
     (let meta = msg_meta m in
      rbind (store_chunk fp dtype m (van_msg_map v (m_sender meta) (m_first_key meta))) (\<lambda>chunks.
        if m_seq meta = m_seq_end meta then
          defined (0 \<le> m_total_bytes meta) ''malloc''
           (rbind (paste_all chunks (replicate (nat (m_total_bytes meta)) 0)) (\<lambda>buf.
              Inr (Some (set_data1 buf m), set_chunks (m_sender meta) (m_first_key meta) [] v)))
        else Inr (None, set_chunks (m_sender meta) (m_first_key meta) chunks v)))"

definition is_chunk :: "Message \<Rightarrow> Van \<Rightarrow> int option res" where
  "is_chunk m v =
     (if van_enable_dgt v = 0 then Inr None
      else rbind (DepairDataHandleType (m_head (msg_meta m))) (\<lambda>ty.
        if dh_requestType ty = kDefaultPushPull \<and> n_role (van_my_node_global v) = GLOBAL_SERVER \<and> m_msg_type (msg_meta m) = 1
        then Inr (Some (dh_dtype ty)) else Inr None))"

text \<open>
  The post office states seen while polling for the customer are the first argument.
\<close>

definition ProcessDataMsg :: "Postoffice list \<Rightarrow> Fpu \<Rightarrow> Message \<Rightarrow> Proc \<Rightarrow> Proc res" where
  "ProcessDataMsg polls fp m p =
     (let meta = msg_meta m; v = pr_van p; app_id = m_app_id meta;
          customer_id = (if po_is_worker (pr_po p) then m_customer_id meta else app_id) in
      chk (m_sender meta \<noteq> kEmpty) ''sender'' (chk (m_recver meta \<noteq> kEmpty) ''recver'' (chk (app_id \<noteq> kEmpty) ''app_id''
       (case GetCustomer polls app_id customer_id 5 of
          None \<Rightarrow> Inl (Check ''timeout to wait App'')
        | Some obj \<Rightarrow>
           (case pr_cust p obj of
              None \<Rightarrow> Inl (Undefined ''customer'')
            | Some c \<Rightarrow>
               rbind (is_chunk m v) (\<lambda>chunk.
                 case chunk of
                   None \<Rightarrow> Inr (p\<lparr>pr_cust := (pr_cust p)(obj \<mapsto> Accept m c)\<rparr>)
                 | Some dtype \<Rightarrow>
                     rbind (if van_enable_dgt v = 3 then decode m else Inr m) (\<lambda>m1.
                     rbind (receive_chunk fp dtype m1 v) (\<lambda>(whole, v').
                       Inr (p\<lparr>pr_van := v', pr_cust := (case whole of
                              None \<Rightarrow> pr_cust p | Some w \<Rightarrow> (pr_cust p)(obj \<mapsto> Accept w c))\<rparr>)))))))))"

subsection \<open>The sending threads\<close>

definition Important_send :: "World \<Rightarrow> Message \<Rightarrow> Proc \<Rightarrow> Proc res" where
  "Important_send W m p = SendMsg W m True p"

definition Unimportant_send :: "World \<Rightarrow> Fpu \<Rightarrow> Message \<Rightarrow> Proc \<Rightarrow> Proc res" where
  "Unimportant_send W fp m p =
     (let d = van_enable_dgt (pr_van p) in
      if d = 1 then SendMsg_UDP W (m_channel (msg_meta m) - 1) m 0 p
      else if d = 2 then SendMsg W m True p
      else if d = 3 then rbind (encode fp 4 m (pr_van p)) (\<lambda>(m', v). SendMsg W m' True (p\<lparr>pr_van := v\<rparr>))
      else Inr p)"

text \<open>
  The two threads: an important message is sent whenever there is one. The other thread first
  sees the important queue empty and then, in a second step, waits for an unimportant message; the
  flag says that it has passed its test.
\<close>

inductive dgt_step :: "World \<Rightarrow> Fpu \<Rightarrow> Proc \<times> bool \<Rightarrow> Proc \<times> bool \<Rightarrow> bool" for W :: World and fp :: Fpu where
  important: "wait_and_pop (van_important_queue (pr_van p)) m q \<Longrightarrow>
    Important_send W m (upd_van (\<lambda>v. v\<lparr>van_important_queue := q\<rparr>) p) = Inr p' \<Longrightarrow> dgt_step W fp (p, w) (p', w)"
| no_important: "queue_empty (van_important_queue (pr_van p)) \<Longrightarrow> dgt_step W fp (p, False) (p, True)"
| unimportant: "wait_and_pop (van_unimportant_queue (pr_van p)) m q \<Longrightarrow>
    Unimportant_send W fp m (upd_van (\<lambda>v. v\<lparr>van_unimportant_queue := q\<rparr>) p) = Inr p' \<Longrightarrow>
    dgt_step W fp (p, True) (p', False)"

subsection \<open>Reassembly\<close>

definition slice :: "nat \<Rightarrow> nat \<Rightarrow> 'a list \<Rightarrow> 'a list" where
  "slice off len xs = take len (drop off xs)"

lemma paste_slices:
  assumes "paste (int off) bs buf = Inr buf'"
  shows "length buf' = length buf" and "slice off (length bs) buf' = bs"
    and "off' + len' \<le> off \<or> off + length bs \<le> off' \<Longrightarrow> slice off' len' buf' = slice off' len' buf"
proof -
  have le: "off + length bs \<le> length buf" and b: "buf' = take off buf @ bs @ drop (off + length bs) buf"
    using assms by (auto simp: paste_def res_simps)
  show len: "length buf' = length buf" using le by (simp add: b)
  show "slice off (length bs) buf' = bs" using le by (simp add: b slice_def)
  show "slice off' len' buf' = slice off' len' buf" if "off' + len' \<le> off \<or> off + length bs \<le> off'"
  proof (rule nth_equalityI)
    show "length (slice off' len' buf') = length (slice off' len' buf)" by (simp add: len slice_def)
    fix j assume "j < length (slice off' len' buf')"
    then have j: "j < len'" "off' + j < length buf" by (auto simp: slice_def len)
    have "buf' ! (off' + j) = buf ! (off' + j)" using that j le by (auto simp: b nth_append)
    then show "slice off' len' buf' ! j = slice off' len' buf ! j" using j len by (simp add: slice_def)
  qed
qed

definition part_off :: "bytes list \<Rightarrow> nat \<Rightarrow> nat" where
  "part_off parts i = length (concat (take i parts))"

lemma part_off_Suc: "i < length parts \<Longrightarrow> part_off parts (Suc i) = part_off parts i + length (parts ! i)"
  by (simp add: part_off_def take_Suc_conv_app_nth)

lemma part_off_mono: "i \<le> j \<Longrightarrow> part_off parts i \<le> part_off parts j"
proof -
  assume "i \<le> j"
  then have "take j parts = take i parts @ take (j - i) (drop i parts)" by (metis take_add le_add_diff_inverse)
  then show ?thesis by (simp add: part_off_def)
qed

lemma parts_disjoint:
  assumes "i < length parts" "j < length parts" "i \<noteq> j"
  shows "part_off parts j + length (parts ! j) \<le> part_off parts i \<or> part_off parts i + length (parts ! i) \<le> part_off parts j"
proof (cases "i < j")
  case True
  then show ?thesis using part_off_mono[of "Suc i" j parts] part_off_Suc[OF assms(1)] by simp
next
  case False
  then show ?thesis using part_off_mono[of "Suc j" i parts] part_off_Suc[OF assms(2)] assms(3) by simp
qed

lemma part_off_total: "i < length parts \<Longrightarrow> part_off parts i + length (parts ! i) \<le> length (concat parts)"
  using part_off_mono[of "Suc i" "length parts" parts] part_off_Suc[of i parts] by (simp add: part_off_def)

lemma concat_from_slices:
  assumes "length buf = length (concat parts)" "\<forall>i < length parts. slice (part_off parts i) (length (parts ! i)) buf = parts ! i"
  shows "buf = concat parts"
  using assms
proof (induction parts arbitrary: buf)
  case (Cons x xs)
  have head: "take (length x) buf = x" using Cons.prems(2)[rule_format, of 0] by (simp add: slice_def part_off_def)
  have "drop (length x) buf = concat xs"
  proof (rule Cons.IH)
    show "length (drop (length x) buf) = length (concat xs)" using Cons.prems(1) by simp
    show "\<forall>i < length xs. slice (part_off xs i) (length (xs ! i)) (drop (length x) buf) = xs ! i"
      using Cons.prems(2) by (fastforce simp: slice_def part_off_def add.commute)
  qed
  with head show ?case by (metis append_take_drop_id concat.simps(2))
qed simp

text \<open>The chunk number \<open>i\<close> of a value cut into parts.\<close>

definition is_part :: "bytes list \<Rightarrow> int \<Rightarrow> int \<Rightarrow> nat \<Rightarrow> Message \<Rightarrow> bool" where
  "is_part parts sender key i m \<longleftrightarrow>
     m_sender (msg_meta m) = sender \<and> m_first_key (msg_meta m) = key \<and> m_seq (msg_meta m) = int i \<and>
     m_seq_end (msg_meta m) = int (length parts - 1) \<and> m_val_bytes (msg_meta m) = int (part_off parts i) \<and>
     m_total_bytes (msg_meta m) = int (length (concat parts)) \<and> data1 m = Inr (parts ! i)"

lemma paste_all_parts:
  assumes "distinct order" "set order \<subseteq> {..<length parts}" "\<forall>i < length parts. is_part parts s k i (ck i)"
    and "length buf = length (concat parts)"
  shows "\<exists>buf'. paste_all (map (\<lambda>i. (int i, ck i)) order) buf = Inr buf' \<and> length buf' = length buf \<and>
    (\<forall>i \<in> set order. slice (part_off parts i) (length (parts ! i)) buf' = parts ! i) \<and>
    (\<forall>i < length parts. i \<notin> set order \<longrightarrow> slice (part_off parts i) (length (parts ! i)) buf' = slice (part_off parts i) (length (parts ! i)) buf)"
  using assms(1,2,4)
proof (induction order arbitrary: buf)
  case (Cons i order)
  have i: "i < length parts" and ck: "data1 (ck i) = Inr (parts ! i)" "m_val_bytes (msg_meta (ck i)) = int (part_off parts i)"
    using Cons.prems(2) assms(3) by (auto simp: is_part_def)
  obtain b1 where b1: "paste (int (part_off parts i)) (parts ! i) buf = Inr b1"
    using part_off_total[OF i] Cons.prems(3) by (simp add: paste_def)
  note ps = paste_slices[OF b1]
  obtain buf' where buf': "paste_all (map (\<lambda>i. (int i, ck i)) order) b1 = Inr buf'" "length buf' = length b1"
    "\<forall>i \<in> set order. slice (part_off parts i) (length (parts ! i)) buf' = parts ! i"
    "\<forall>i < length parts. i \<notin> set order \<longrightarrow> slice (part_off parts i) (length (parts ! i)) buf' = slice (part_off parts i) (length (parts ! i)) b1"
    using Cons.IH[of b1] Cons.prems ps(1) by auto
  have "slice (part_off parts i) (length (parts ! i)) buf' = parts ! i" using buf'(4) i Cons.prems(1) ps(2) by simp
  moreover have "slice (part_off parts j) (length (parts ! j)) buf' = slice (part_off parts j) (length (parts ! j)) buf"
    if "j < length parts" "j \<notin> set (i # order)" for j
    using buf'(4) that ps(3)[OF parts_disjoint[OF i that(1)]] by auto
  ultimately show ?case using buf' ps(1) b1 ck by auto
qed simp

text \<open>Receiving a sequence of chunks.\<close>

fun receive_chunks :: "Fpu \<Rightarrow> int \<Rightarrow> Message list \<Rightarrow> Van \<Rightarrow> (Message option list \<times> Van) res" where
  "receive_chunks fp dtype [] v = Inr ([], v)"
| "receive_chunks fp dtype (m # ms) v =
     rbind (receive_chunk fp dtype m v) (\<lambda>(w, v1). rbind (receive_chunks fp dtype ms v1) (\<lambda>(ws, v2). Inr (w # ws, v2)))"

lemma set_chunks_same [simp]: "van_msg_map (set_chunks s k cs v) s k = cs"
  by (simp add: set_chunks_def)

lemma map_of_chunks: "map_of (map (\<lambda>i. (int i, ck i)) xs) (int j) = (if j \<in> set xs then Some (ck j) else None)"
  by (induction xs) auto

lemma receive_chunk_stores:
  assumes "is_part parts s k i (ck i)" "i < length parts - 1" "i \<notin> set done1"
    and "van_msg_map v s k = map (\<lambda>i. (int i, ck i)) done1"
  shows "receive_chunk fp dtype (ck i) v = Inr (None, set_chunks s k (map (\<lambda>i. (int i, ck i)) (done1 @ [i])) v)"
proof -
  have "int i \<noteq> int (length parts - 1)" using assms(2) by simp
  then show ?thesis using assms unfolding is_part_def
    by (simp add: receive_chunk_def store_chunk_def map_of_chunks Let_def del: of_nat_diff)
qed

lemma receive_chunks_store:
  assumes "\<forall>i < length parts. is_part parts s k i (ck i)" "\<forall>i \<in> set order. i < length parts - 1" "distinct (done1 @ order)"
    and "van_msg_map v s k = map (\<lambda>i. (int i, ck i)) done1"
  shows "\<exists>v'. receive_chunks fp dtype (map ck order) v = Inr (replicate (length order) None, v') \<and>
    van_msg_map v' s k = map (\<lambda>i. (int i, ck i)) (done1 @ order)"
  using assms(2-4)
proof (induction order arbitrary: done1 v)
  case (Cons i order)
  let ?v = "set_chunks s k (map (\<lambda>i. (int i, ck i)) (done1 @ [i])) v"
  have "receive_chunk fp dtype (ck i) v = Inr (None, ?v)"
    using Cons.prems assms(1) by (intro receive_chunk_stores) auto
  moreover obtain v' where "receive_chunks fp dtype (map ck order) ?v = Inr (replicate (length order) None, v')"
    "van_msg_map v' s k = map (\<lambda>i. (int i, ck i)) ((done1 @ [i]) @ order)"
    using Cons.IH[of "done1 @ [i]" ?v] Cons.prems by auto
  ultimately show ?case by simp
qed simp

lemma receive_chunks_append:
  "receive_chunks fp dtype (xs @ ys) v =
     rbind (receive_chunks fp dtype xs v) (\<lambda>(ws, v1). rbind (receive_chunks fp dtype ys v1) (\<lambda>(us, v2). Inr (ws @ us, v2)))"
  by (induction xs arbitrary: v) (auto simp: rbind_def split: sum.splits prod.splits)

subsection \<open>Properties\<close>

text \<open>A value of which only some parts have come: the others read as zeros.\<close>

definition filled :: "bytes list \<Rightarrow> nat set \<Rightarrow> bytes list" where
  "filled parts S = map (\<lambda>i. if i \<in> S then parts ! i else replicate (length (parts ! i)) 0) [0..<length parts]"

lemma length_filled [simp]: "length (filled parts S) = length parts"
  by (simp add: filled_def)

lemma nth_filled: "i < length parts \<Longrightarrow> filled parts S ! i = (if i \<in> S then parts ! i else replicate (length (parts ! i)) 0)"
  by (simp add: filled_def)

lemma part_off_filled: "part_off (filled parts S) i = part_off parts i"
proof -
  have "map length (filled parts S) = map length parts" by (rule nth_equalityI) (auto simp: filled_def)
  then have "map length (take i (filled parts S)) = map length (take i parts)" by (simp add: take_map[symmetric])
  then show ?thesis by (simp add: part_off_def length_concat)
qed

lemma filled_all: "{..<length parts} \<subseteq> S \<Longrightarrow> filled parts S = parts"
  by (rule nth_equalityI) (auto simp: filled_def)

lemma slice_zeros: "off + len \<le> n \<Longrightarrow> slice off len (replicate n z) = replicate len z"
  by (simp add: slice_def)

text \<open>Pasting some of the chunks into a zeroed buffer.\<close>

lemma paste_all_filled:
  assumes "distinct xs" "set xs \<subseteq> {..<length parts}" "\<forall>i < length parts. is_part parts s k i (ck i)"
  shows "paste_all (map (\<lambda>i. (int i, ck i)) xs) (replicate (length (concat parts)) 0) = Inr (concat (filled parts (set xs)))"
proof -
  have total: "length (concat (filled parts S)) = length (concat parts)" for S
    using part_off_filled[of parts S "length parts"] by (simp add: part_off_def)
  obtain buf where buf: "paste_all (map (\<lambda>i. (int i, ck i)) xs) (replicate (length (concat parts)) 0) = Inr buf"
    "length buf = length (concat parts)" "\<forall>i \<in> set xs. slice (part_off parts i) (length (parts ! i)) buf = parts ! i"
    "\<forall>i < length parts. i \<notin> set xs \<longrightarrow> slice (part_off parts i) (length (parts ! i)) buf =
      slice (part_off parts i) (length (parts ! i)) (replicate (length (concat parts)) 0)"
    using paste_all_parts[OF assms, of "replicate (length (concat parts)) 0"] by auto
  have "buf = concat (filled parts (set xs))"
  proof (rule concat_from_slices)
    show "length buf = length (concat (filled parts (set xs)))" by (simp add: total buf(2))
    show "\<forall>i < length (filled parts (set xs)). slice (part_off (filled parts (set xs)) i) (length (filled parts (set xs) ! i)) buf =
        filled parts (set xs) ! i"
      using buf(3,4) part_off_total by (auto simp: part_off_filled nth_filled slice_zeros)
  qed
  with buf(1) show ?thesis by simp
qed

lemma receive_chunks_whole:
  assumes "\<forall>i < length parts. is_part parts s k i (ck i)" "order @ [length parts - 1] = xs"
    and "distinct xs" "set xs \<subseteq> {..<length parts}" "van_msg_map v s k = []"
  shows "\<exists>w v'. receive_chunks fp dtype (map ck xs) v = Inr (replicate (length order) None @ [Some w], v') \<and>
    data1 w = Inr (concat (filled parts (set xs))) \<and> msg_meta w = msg_meta (ck (length parts - 1)) \<and> van_msg_map v' s k = []"
proof -
  let ?n = "length parts - 1" and ?whole = "concat (filled parts (set xs))"
  have "?n \<in> set xs" unfolding assms(2)[symmetric] by simp
  then have n: "?n < length parts" using assms(4) by blast
  have ord: "\<forall>i \<in> set order. i < ?n"
  proof
    fix i assume i: "i \<in> set order"
    then have "i \<in> set xs" "i \<noteq> ?n" using assms(3) unfolding assms(2)[symmetric] by auto
    then show "i < ?n" using assms(4) by auto
  qed
  obtain v1 where v1: "receive_chunks fp dtype (map ck order) v = Inr (replicate (length order) None, v1)"
    "van_msg_map v1 s k = map (\<lambda>i. (int i, ck i)) order"
    using receive_chunks_store[OF assms(1) ord, of "[]" v] assms(3,5) unfolding assms(2)[symmetric] by auto
  have last: "is_part parts s k ?n (ck ?n)" using assms(1) n by blast
  have notin: "?n \<notin> set order" using assms(3) unfolding assms(2)[symmetric] by simp
  have two: "1 < length (msg_data (ck ?n))" using last by (auto simp: is_part_def data1_def res_simps)
  have meta: "m_sender (msg_meta (ck ?n)) = s" "m_first_key (msg_meta (ck ?n)) = k" "m_seq (msg_meta (ck ?n)) = int ?n"
    "m_seq_end (msg_meta (ck ?n)) = int ?n" "m_total_bytes (msg_meta (ck ?n)) = int (length (concat parts))"
    using last unfolding is_part_def by blast+
  have "store_chunk fp dtype (ck ?n) (map (\<lambda>i. (int i, ck i)) order) = Inr (map (\<lambda>i. (int i, ck i)) xs)"
    unfolding store_chunk_def meta Let_def map_of_chunks using notin assms(2)[symmetric] by simp
  then have rc: "receive_chunk fp dtype (ck ?n) v1 = Inr (Some (set_data1 ?whole (ck ?n)), set_chunks s k [] v1)"
    unfolding receive_chunk_def Let_def meta v1(2) using paste_all_filled[OF assms(3,4,1)] by simp
  have "receive_chunks fp dtype (map ck xs) v =
      Inr (replicate (length order) None @ [Some (set_data1 ?whole (ck ?n))], set_chunks s k [] v1)"
    unfolding assms(2)[symmetric] map_append receive_chunks_append v1(1) using rc assms(2) by (simp del: One_nat_def)
  moreover have "data1 (set_data1 ?whole (ck ?n)) = Inr ?whole" using two by (simp add: data1_def set_data1_def)
  moreover have "msg_meta (set_data1 ?whole (ck ?n)) = msg_meta (ck ?n)" by (simp add: set_data1_def)
  ultimately show ?thesis using set_chunks_same by blast
qed

text \<open>
  Chunks are reassembled. When chunks of a value arrive, each at most once and the last one at
  the end, nothing is handed over before the last chunk, then one message carrying the whole value,
  in which the chunks that were lost on the way read as zeros, and the table is empty again. If no
  chunk was lost the value is the one that was cut.
\<close>

theorem chunks_reassembled:
  assumes "\<forall>i < length parts. is_part parts s k i (ck i)" "order @ [length parts - 1] = xs"
    and "distinct xs" "set xs \<subseteq> {..<length parts}" "van_msg_map v s k = []"
  shows "\<exists>w v'. receive_chunks fp dtype (map ck xs) v = Inr (replicate (length order) None @ [Some w], v') \<and>
    data1 w = Inr (concat (filled parts (set xs))) \<and> (set xs = {..<length parts} \<longrightarrow> data1 w = Inr (concat parts)) \<and>
    msg_meta w = msg_meta (ck (length parts - 1)) \<and> van_msg_map v' s k = []"
  using receive_chunks_whole[OF assms, of fp dtype] filled_all[of parts "set xs"] by auto

definition chunk_of :: "bytes list \<Rightarrow> nat \<Rightarrow> Message" where
  "chunk_of parts i = empty_Message\<lparr>msg_meta := empty_Meta\<lparr>m_sender := 9, m_first_key := 5, m_seq := int i,
     m_seq_end := int (length parts - 1), m_val_bytes := int (part_off parts i),
     m_total_bytes := int (length (concat parts))\<rparr>, msg_data := [[], parts ! i, []]\<rparr>"

definition sample_fpu :: Fpu where
  "sample_fpu = \<lparr>f_add = (+), f_sub = (-), f_less = (<), f_center = (\<lambda>_ _ _ _. 0), f_quant = (\<lambda>_ _ _ _. 0), h_add = (+)\<rparr>"

theorem chunks_reassembled_witness:
  "\<exists>w v'. receive_chunks sample_fpu 0 (map (chunk_of [[1, 2], [3], [4, 5]]) [1, 0, 2]) new_Van = Inr ([None, None, Some w], v') \<and>
     data1 w = Inr [1, 2, 3, 4, 5]"
proof -
  have "\<forall>i < length parts. is_part parts 9 5 i (chunk_of parts i)" for parts
    by (simp add: is_part_def chunk_of_def data1_def)
  from chunks_reassembled[OF this[of "[[1, 2], [3], [4, 5]]"], of "[1, 0]" "[1, 0, 2]" new_Van sample_fpu 0]
  show ?thesis by (auto simp: new_Van_def lessThan_Suc numeral_eq_Suc)
qed

lemma encode_loop_overruns:
  assumes "i + length rs = 2 * length out" "rs \<noteq> []" "pd = (i + 1) div 2"
  shows "\<exists>e. encode_loop fp 4 mx mn compr i pd rs out = Inl e"
  using assms
proof (induction rs arbitrary: i pd out)
  case (Cons r rs)
  let ?b = "word_of_int (f_quant fp 4 r mn mx * 2 ^ ((1 - i mod 2) * 4)) :: 8 word"
  show ?case
  proof (cases "or_byte pd ?b out")
    case (Inl e)
    then show ?thesis by (simp add: Let_def)
  next
    case (Inr out')
    then have pd: "pd < length out" "length out' = length out" by (auto simp: or_byte_def res_simps)
    have "rs \<noteq> []" using pd(1) Cons.prems by (cases rs) auto
    then have "\<exists>e. encode_loop fp 4 mx mn compr (Suc i) (if i mod 2 = 0 then Suc pd else pd) rs out' = Inl e"
      using Cons.prems pd(2) by (intro Cons.IH) (auto, presburger+)
    then show ?thesis using Inr by (auto simp: Let_def defined_def)
  qed
qed simp





end
