(* ===== verification/Receivers.thy ===== *)
theory Receivers
  imports Barriers Tsengine Dgt
begin

text \<open>
  The life of a van (\<^verbatim>\<open>van.cc\<close>): starting it on both layers, the receiving threads that dispatch
  every message to its handler, the sender thread, and stopping it. A receiving thread's local
  variables (the node tables) are arguments and results of its step.
\<close>

subsection \<open>Starting\<close>

text \<open>The C library's \<open>atof\<close> on decimal notation, and the part of the network code the start uses.\<close>

definition atof :: "string \<Rightarrow> rat" where
  "atof s =
     (let t = dropWhile is_blank s;
          (sign, u) = (if t \<noteq> [] \<and> hd t = CHR ''-'' then (-1, tl t) else if t \<noteq> [] \<and> hd t = CHR ''+'' then (1, tl t) else (1, t));
          whole = takeWhile is_digit u; rest = dropWhile is_digit u;
          frac = (if rest \<noteq> [] \<and> hd rest = CHR ''.'' then takeWhile is_digit (tl rest) else []) in
      sign * (of_int (digits_value whole) + of_int (digits_value frac) / 10 ^ length frac))"

record Net =
  net_ip_of :: "string \<Rightarrow> string"
  net_available :: "string \<times> string"
  net_port :: "nat \<Rightarrow> int"
  net_bind :: "Node \<Rightarrow> int \<Rightarrow> bool \<Rightarrow> int"
  net_bind_udp :: "Node \<Rightarrow> int \<Rightarrow> int list"

definition require_env :: "env \<Rightarrow> string \<Rightarrow> string res" where
  "require_env env k = (case env k of None \<Rightarrow> Inl (Check k) | Some v \<Rightarrow> Inr v)"

text \<open>Setting a variable that is not there yet.\<close>

definition default_env :: "string \<Rightarrow> string \<Rightarrow> env \<Rightarrow> env" where
  "default_env k v env = (if env k = None then env(k \<mapsto> v) else env)"

definition ts_tables :: "nat \<Rightarrow> int \<Rightarrow> Van \<Rightarrow> Van" where
  "ts_tables n server v = v\<lparr>van_A := van_A v @ replicate n (replicate n (-1)),
     van_lifetime := van_lifetime v @ replicate n (replicate n (-1)), van_B := van_B v @ replicate n 0,
     van_B1 := van_B1 v @ replicate n 0, van_ask_q := van_ask_q v @ [server]\<rparr>"

definition start_scheduler :: "Proc \<Rightarrow> Proc" where
  "start_scheduler p =
     (let env = default_env ''MAX_GREED_RATE_TS'' ''0.9'' (pr_env p);
          num_max = max (po_num_servers (pr_po p)) (po_num_workers (pr_po p)) in
      p\<lparr>pr_env := env, pr_van := ts_tables (nat (2 * num_max)) 0 ((pr_van p)\<lparr>van_my_node := van_scheduler (pr_van p),
          van_max_greed_rate := (case env ''MAX_GREED_RATE_TS'' of Some s \<Rightarrow> atof s | None \<Rightarrow> 0)\<rparr>)\<rparr>)"

definition start_address :: "Net \<Rightarrow> env \<Rightarrow> string res" where
  "start_address net env =
     (let given = (case env ''DMLC_NODE_HOST'' of Some h \<Rightarrow> h | None \<Rightarrow> []) in
      if given \<noteq> [] then Inr given
      else (let itf = (case env ''DMLC_INTERFACE'' of Some i \<Rightarrow> i | None \<Rightarrow> []);
                (interface, ip) = (if itf \<noteq> [] then (itf, net_ip_of net itf) else net_available net) in
            chk (interface \<noteq> []) ''failed to get the interface'' (Inr ip)))"

definition start_member :: "Net \<Rightarrow> int \<Rightarrow> Proc \<Rightarrow> Proc res" where
  "start_member net customer_id p =
     rbind (start_address net (pr_env p)) (\<lambda>ip.
       let port = (case pr_env p ''PORT'' of Some s \<Rightarrow> atoi s | None \<Rightarrow> net_port net 0) in
       chk (ip \<noteq> []) ''failed to get ip'' (chk (port \<noteq> 0) ''failed to get a port''
         (Inr (upd_van (\<lambda>v. v\<lparr>van_my_node := (van_my_node v)\<lparr>n_hostname := ip,
              n_role := (if po_is_worker (pr_po p) then WORKER else SERVER), n_port := port, n_id := kEmpty,
              n_customer_id := customer_id\<rparr>\<rparr>) p))))"

text \<open>The first stage of \<open>Van::Start\<close>, its announcement to the scheduler, and its second stage after the van is ready.\<close>

definition Van_Start_init :: "Net \<Rightarrow> int \<Rightarrow> Proc \<Rightarrow> Proc res" where
  "Van_Start_init net customer_id p =
     (if po_is_global_scheduler (pr_po p) \<or> van_init_stage (pr_van p) \<noteq> 0 then Inr p
      else rbind (require_env (pr_env p) ''DMLC_PS_ROOT_URI'') (\<lambda>uri.
           rbind (require_env (pr_env p) ''DMLC_PS_ROOT_PORT'') (\<lambda>port.
       let p1 = upd_van (\<lambda>v. v\<lparr>van_scheduler := (van_scheduler v)\<lparr>n_hostname := uri, n_port := atoi port,
                  n_role := SCHEDULER, n_id := kScheduler\<rparr>, van_is_scheduler := po_is_scheduler (pr_po p)\<rparr>) p in
       rbind (if van_is_scheduler (pr_van p1) then Inr (start_scheduler p1) else start_member net customer_id p1) (\<lambda>p2.
         let sched = van_is_scheduler (pr_van p2);
             bound = net_bind net (van_my_node (pr_van p2)) (if sched then 0 else 40) False in
         chk (bound \<noteq> -1) ''bind failed''
          (Inr (upd_van (\<lambda>v. (Connect (van_scheduler v) False (v\<lparr>van_my_node := (van_my_node v)\<lparr>n_port := bound\<rparr>\<rparr>))
              \<lparr>van_drop_rate := (case pr_env p2 ''PS_DROP_MSG'' of Some s \<Rightarrow> atoi s | None \<Rightarrow> van_drop_rate v),
               van_threads := van_threads v @ [ReceiverThread], van_init_stage := van_init_stage v + 1\<rparr>) p2))))))"

definition hello :: "int \<Rightarrow> Command \<Rightarrow> Node \<Rightarrow> int \<Rightarrow> Message" where
  "hello recver cmd node ts = empty_Message\<lparr>msg_meta := empty_Meta\<lparr>m_recver := recver,
     m_control := empty_Control\<lparr>c_cmd := cmd, c_node := [node]\<rparr>, m_timestamp := ts\<rparr>\<rparr>"

definition Van_Start_announce :: "World \<Rightarrow> int \<Rightarrow> Proc \<Rightarrow> Proc res" where
  "Van_Start_announce W customer_id p =
     (if po_is_global_scheduler (pr_po p) \<or> van_is_scheduler (pr_van p) then Inr p
      else (let (ts, p1) = GetTimestamp p in
            rbind (Send W (hello kScheduler ADD_NODE ((van_my_node (pr_van p))\<lparr>n_customer_id := customer_id\<rparr>) ts) False p1)
              (\<lambda>(p2, _). Inr p2)))"

definition Van_Start_finish :: "Proc \<Rightarrow> Proc" where
  "Van_Start_finish p =
     (if po_is_global_scheduler (pr_po p) \<or> van_init_stage (pr_van p) \<noteq> 1 then p
      else (let env = pr_env p;
          resend = (case env ''PS_RESEND'' of Some s \<Rightarrow> atoi s \<noteq> 0 | None \<Rightarrow> False);
          timeout = (case env ''PS_RESEND_TIMEOUT'' of Some s \<Rightarrow> atoi s | None \<Rightarrow> 1000);
          p1 = upd_van (\<lambda>v. v\<lparr>van_resender := (if resend then Some (new_Resender timeout 10) else van_resender v)\<rparr>) p;
          p2 = (if van_is_scheduler (pr_van p1) then p1
                else (let env' = default_env ''ENABLE_P3'' ''0'' env;
                          p3 = (case env' ''ENABLE_P3'' of Some s \<Rightarrow> atoi s | None \<Rightarrow> 0) in
                      (upd_van (\<lambda>v. v\<lparr>van_enable_p3 := p3, van_threads := van_threads v @ [HeartbeatThread] @
                         (if p3 \<noteq> 0 then [SenderThread] else [])\<rparr>) p1)\<lparr>pr_env := env'\<rparr>)) in
      upd_van (\<lambda>v. v\<lparr>van_init_stage := van_init_stage v + 1\<rparr>) p2))"

text \<open>\<open>Van::StartGlobal\<close> up to its announcement.\<close>

definition start_global_scheduler :: "Proc \<Rightarrow> Proc" where
  "start_global_scheduler p =
     (let env = default_env ''MAX_GREED_RATE_TS'' ''0.9'' (pr_env p);
          num_max = max (po_num_global_servers (pr_po p)) (po_num_global_workers (pr_po p)) in
      p\<lparr>pr_env := env, pr_van := ts_tables (nat (2 * num_max + 8)) 8 ((pr_van p)\<lparr>van_my_node_global := van_global_scheduler (pr_van p),
          van_max_greed_rate := (case env ''MAX_GREED_RATE_TS'' of Some s \<Rightarrow> atof s | None \<Rightarrow> 0)\<rparr>)\<rparr>)"

definition start_global_member :: "Net \<Rightarrow> int \<Rightarrow> Proc \<Rightarrow> Proc res" where
  "start_global_member net customer_id p =
     (let ip = n_hostname (van_my_node (pr_van p)); port = net_port net 0 in
      chk (ip \<noteq> []) ''Failed to get ip.'' (chk (port \<noteq> 0) ''Failed to get port.''
        (Inr (upd_van (\<lambda>v. v\<lparr>van_my_node_global := (van_my_node_global v)\<lparr>n_hostname := ip, n_port := port,
            n_role := (if po_is_global_server (pr_po p) then GLOBAL_SERVER else SERVER), n_id := kEmpty,
            n_customer_id := customer_id\<rparr>\<rparr>) p))))"

definition start_dgt :: "Net \<Rightarrow> Proc \<Rightarrow> Proc" where
  "start_dgt net p =
     (let env1 = default_env ''ENABLE_DGT'' ''0'' (pr_env p);
          dgt = (case env1 ''ENABLE_DGT'' of Some s \<Rightarrow> atoi s | None \<Rightarrow> 0);
          p1 = (upd_van (\<lambda>v. v\<lparr>van_enable_dgt := dgt\<rparr>) p)\<lparr>pr_env := env1\<rparr> in
      if dgt = 0 then p1
      else (let env2 = default_env ''DMLC_UDP_CHANNEL_NUM'' ''3'' env1;
                num = (case env2 ''DMLC_UDP_CHANNEL_NUM'' of Some s \<Rightarrow> nat (atoi s) | None \<Rightarrow> 0);
                me = van_my_node_global (pr_van p1);
                bound = net_bind_udp net (me\<lparr>n_udp_port := n_udp_port me @ map (\<lambda>i. net_port net (Suc i)) [0..<num]\<rparr>) 40 in
            (upd_van (\<lambda>v. v\<lparr>van_my_node_global := (van_my_node_global v)\<lparr>n_udp_port := bound\<rparr>,
               van_threads := van_threads v @ map UdpReceiverThread [0..<length bound] @ [ImportantThread, UnimportantThread]\<rparr>) p1)
              \<lparr>pr_env := env2\<rparr>))"

definition Van_StartGlobal :: "World \<Rightarrow> Net \<Rightarrow> int \<Rightarrow> Proc \<Rightarrow> Proc res" where
  "Van_StartGlobal W net customer_id p =
     (if \<not> (po_is_server (pr_po p) \<or> po_is_global_scheduler (pr_po p)) then Inr p
      else rbind (require_env (pr_env p) ''DMLC_PS_GLOBAL_ROOT_URI'') (\<lambda>uri.
           rbind (require_env (pr_env p) ''DMLC_PS_GLOBAL_ROOT_PORT'') (\<lambda>port.
       let p1 = upd_van (\<lambda>v. v\<lparr>van_global_scheduler := (van_global_scheduler v)\<lparr>n_role := GLOBAL_SCHEDULER,
                  n_hostname := uri, n_port := atoi port, n_id := kSchedulerGlobal\<rparr>,
                  van_is_global_scheduler := po_is_global_scheduler (pr_po p)\<rparr>) p;
           gs = van_is_global_scheduler (pr_van p1) in
       rbind (if gs then Inr (start_global_scheduler p1) else start_global_member net customer_id p1) (\<lambda>p2.
         let bound = net_bind net (van_my_node_global (pr_van p2)) (if gs then 0 else 40) True in
         chk (bound \<noteq> -1) ''bind failed''
          (let p3 = upd_van (\<lambda>v. v\<lparr>van_my_node_global := (van_my_node_global v)\<lparr>n_port := bound\<rparr>,
                      van_threads := van_threads v @ [ReceiverGlobalThread]\<rparr>) p2;
               p4 = upd_van (\<lambda>v. Connect (van_global_scheduler v) True v) (if gs then p3 else start_dgt net p3) in
           if gs then Inr p4
           else (let (ts, p5) = GetTimestamp p4 in
                 rbind (Send W (hello kSchedulerGlobal ADD_GLOBAL_NODE
                          ((van_my_node_global (pr_van p4))\<lparr>n_customer_id := customer_id\<rparr>) ts) True p5)
                   (\<lambda>(p6, n). chk (n \<noteq> -1) ''send_bytes'' (Inr p6))))))))"

subsection \<open>Stopping\<close>

definition join :: "van_thread \<Rightarrow> Van \<Rightarrow> Van res" where
  "join t v = defined (t \<in> set (van_threads v)) ''thread->join()'' (Inr (v\<lparr>van_threads := remove1 t (van_threads v)\<rparr>))"

fun join_all :: "van_thread list \<Rightarrow> Van \<Rightarrow> Van res" where
  "join_all [] v = Inr v"
| "join_all (t # ts) v = rbind (join t v) (join_all ts)"

definition exit_msg :: "int \<Rightarrow> Message" where
  "exit_msg recver = empty_Message\<lparr>msg_meta := empty_Meta\<lparr>m_control := empty_Control\<lparr>c_cmd := TERMINATE\<rparr>,
     m_customer_id := 0, m_recver := recver\<rparr>\<rparr>"

text \<open>
  The vector of UDP receiver threads that \<open>Stop\<close> goes through is never filled, so none of them is
  joined.
\<close>

definition Stop :: "World \<Rightarrow> bool \<Rightarrow> Proc \<Rightarrow> Proc res" where
  "Stop W is_global p =
     (let me = (if is_global then van_my_node_global (pr_van p) else van_my_node (pr_van p)) in
      rbind (SendMsg W (exit_msg (n_id me)) is_global p) (\<lambda>p1.
      rbind (if is_global then
               rbind (if po_is_server (pr_po p)
                      then rbind (SendMsg W (exit_msg (n_id (van_my_node (pr_van p)))) False p1) (\<lambda>q.
                             rbind (join ReceiverThread (pr_van q)) (\<lambda>v. Inr (q\<lparr>pr_van := v\<rparr>)))
                      else Inr p1) (\<lambda>q.
               rbind (join_all ([ReceiverGlobalThread] @
                        (if van_is_scheduler (pr_van q) then [] else [ImportantThread, UnimportantThread]) @
                        (if van_is_global_scheduler (pr_van q) then [] else [HeartbeatThread])) (pr_van q))
                 (\<lambda>v. Inr (q\<lparr>pr_van := v\<rparr>)))
             else
               rbind (join_all ([ReceiverThread] @
                        (if van_is_scheduler (pr_van p1) then [] else [HeartbeatThread]) @
                        (if \<not> van_is_scheduler (pr_van p1) \<and> van_enable_p3 (pr_van p1) \<noteq> 0 then [SenderThread] else [])) (pr_van p1))
                 (\<lambda>v. Inr (p1\<lparr>pr_van := v\<rparr>)))
        (\<lambda>p2. Inr (upd_van (\<lambda>v. v\<lparr>van_resender := None, van_ready := False,
                   van_ready_global := (if is_global then False else van_ready_global v)\<rparr>) p2))))"

subsection \<open>Receiving\<close>

definition dropped :: "World \<Rightarrow> Van \<Rightarrow> bool" where
  "dropped W v \<longleftrightarrow> van_ready v \<and> 0 < van_drop_rate v \<and>
     cmod (w_rand_r W (w_time W + n_id (van_my_node v))) 100 < van_drop_rate v"

text \<open>The duplicate filter; the acknowledgement is always sent on the party layer.\<close>

definition duplicated :: "World \<Rightarrow> Message \<Rightarrow> Proc \<Rightarrow> (bool \<times> Proc) res" where
  "duplicated W m p =
     (case van_resender (pr_van p) of
        None \<Rightarrow> Inr (False, p)
      | Some r \<Rightarrow>
          rbind (AddIncomming (my_id (pr_van p)) m r) (\<lambda>(dup, r', ack).
            let p1 = upd_van (\<lambda>v. v\<lparr>van_resender := Some r'\<rparr>) p in
            (case ack of
               None \<Rightarrow> Inr (dup, p1)
             | Some a \<Rightarrow> rbind (Send W a False p1) (\<lambda>(p2, _). Inr (dup, p2)))))"

definition count_received :: "int \<Rightarrow> Proc \<Rightarrow> Proc" where
  "count_received n p = upd_van (\<lambda>v. v\<lparr>van_recv_bytes := van_recv_bytes v + word_of_int n\<rparr>) p"

text \<open>The outcome of one turn: the thread ends, or goes on with new local tables.\<close>

datatype turn = Ends Proc | Goes Meta Meta Proc

definition lift_turn :: "Meta \<Rightarrow> Meta \<Rightarrow> Proc res \<Rightarrow> turn option res" where
  "lift_turn nodes recovery r = rbind r (\<lambda>p. Inr (Some (Goes nodes recovery p)))"

definition dispatch :: "World \<Rightarrow> (Node list \<Rightarrow> Node list) \<Rightarrow> Postoffice list \<Rightarrow> Fpu \<Rightarrow> Message \<Rightarrow> Meta \<Rightarrow> Meta \<Rightarrow> Proc \<Rightarrow> turn option res" where
  "dispatch W srt polls fp m nodes recovery p =
     (let cmd = c_cmd (m_control (msg_meta m)) in
      if control_empty (m_control (msg_meta m)) then lift_turn nodes recovery (ProcessDataMsg polls fp m p)
      else if cmd = TERMINATE then Inr (Some (Ends (upd_van (ProcessTerminateCommand False) p)))
      else if cmd = ADD_NODE then
        rbind (ProcessAddNodeCommand W srt m nodes recovery p) (\<lambda>(n', r', p'). Inr (Some (Goes n' r' p')))
      else if cmd = BARRIER then
        rbind (ProcessBarrierCommand W m False p) (\<lambda>r. Inr (map_option (Goes nodes recovery) r))
      else if cmd = HEARTBEAT then lift_turn nodes recovery (ProcessHeartbeat W m p)
      else if cmd = AUTOPULLREPLY then Inr (Some (Goes nodes recovery (upd_van ProcessAutoPullReply p)))
      else if cmd = ASKPULL then lift_turn nodes recovery (ProcessAskPullCommand W m p)
      else if cmd = ASKPUSH then lift_turn nodes recovery (ProcessAskPushCommand W m p)
      else if cmd = REPLY then Inr (Some (Goes nodes recovery (upd_van (ProcessReplyCommand m) p)))
      else Inr (Some (Goes nodes recovery p)))"

definition Receiving :: "World \<Rightarrow> (Node list \<Rightarrow> Node list) \<Rightarrow> Postoffice list \<Rightarrow> Fpu \<Rightarrow> Message \<Rightarrow> int \<Rightarrow> Meta \<Rightarrow> Meta \<Rightarrow> Proc \<Rightarrow> turn option res" where
  "Receiving W srt polls fp m recv_bytes nodes recovery p =
     (if dropped W (pr_van p) then Inr (Some (Goes nodes recovery p))
      else chk (recv_bytes \<noteq> -1) ''recv_bytes''
        (rbind (duplicated W m (count_received recv_bytes p)) (\<lambda>(dup, p1).
           if dup then Inr (Some (Goes nodes recovery p1))
           else dispatch W srt polls fp m nodes recovery p1)))"

definition dispatch_global :: "World \<Rightarrow> (Node list \<Rightarrow> Node list) \<Rightarrow> Postoffice list \<Rightarrow> Fpu \<Rightarrow> Message \<Rightarrow> Meta \<Rightarrow> Proc \<Rightarrow> turn option res" where
  "dispatch_global W srt polls fp m nodes p =
     (let cmd = c_cmd (m_control (msg_meta m)) in
      if control_empty (m_control (msg_meta m)) then lift_turn nodes empty_Meta (ProcessDataMsg polls fp m p)
      else if cmd = TERMINATE then Inr (Some (Ends (upd_van (ProcessTerminateCommand True) p)))
      else if cmd = ADD_GLOBAL_NODE then
        rbind (ProcessAddGlobalNodeCommand W srt m nodes p) (\<lambda>(n', p'). Inr (Some (Goes n' empty_Meta p')))
      else if cmd = BARRIER_GLOBAL then
        rbind (ProcessBarrierCommand W m True p) (\<lambda>r. Inr (map_option (Goes nodes empty_Meta) r))
      else if cmd = HEARTBEAT then Inr (Some (Goes nodes empty_Meta p))
      else if cmd = AUTOPULLREPLY then Inr (Some (Goes nodes empty_Meta (upd_van ProcessAutoPullReplyGlobal p)))
      else if cmd = ASKPULL then lift_turn nodes empty_Meta (ProcessAskPullGlobalCommand W m p)
      else if cmd = ASKPUSH then lift_turn nodes empty_Meta (ProcessAskPushGlobalCommand W m p)
      else if cmd = REPLY then Inr (Some (Goes nodes empty_Meta (upd_van (ProcessReplyGlobalCommand m) p)))
      else Inr (Some (Goes nodes empty_Meta p)))"

definition ReceivingGlobal :: "World \<Rightarrow> (Node list \<Rightarrow> Node list) \<Rightarrow> Postoffice list \<Rightarrow> Fpu \<Rightarrow> Message \<Rightarrow> int \<Rightarrow> Meta \<Rightarrow> Proc \<Rightarrow> turn option res" where
  "ReceivingGlobal W srt polls fp m recv_bytes nodes p =
     chk (recv_bytes \<noteq> -1) ''recv_bytes''
       (rbind (duplicated W m (count_received recv_bytes p)) (\<lambda>(dup, p1).
          if dup then Inr (Some (Goes nodes empty_Meta p1)) else dispatch_global W srt polls fp m nodes p1))"

text \<open>The UDP receivers have no duplicate filter and know only part of the commands.\<close>

definition Receiving_UDP :: "World \<Rightarrow> (Node list \<Rightarrow> Node list) \<Rightarrow> Postoffice list \<Rightarrow> Fpu \<Rightarrow> Message \<Rightarrow> int \<Rightarrow> Meta \<Rightarrow> Meta \<Rightarrow> Proc \<Rightarrow> turn option res" where
  "Receiving_UDP W srt polls fp m recv_bytes nodes recovery p =
     (if dropped W (pr_van p) then Inr (Some (Goes nodes recovery p))
      else chk (recv_bytes \<noteq> -1) ''recv_bytes''
       (let p1 = count_received recv_bytes p; cmd = c_cmd (m_control (msg_meta m)) in
        if control_empty (m_control (msg_meta m)) then lift_turn nodes recovery (ProcessDataMsg polls fp m p1)
        else if cmd = TERMINATE then Inr (Some (Ends (upd_van (ProcessTerminateCommand False) p1)))
        else if cmd = ADD_NODE then
          rbind (ProcessAddNodeCommand W srt m nodes recovery p1) (\<lambda>(n', r', p'). Inr (Some (Goes n' r' p')))
        else if cmd = BARRIER then
          rbind (ProcessBarrierCommand W m False p1) (\<lambda>r. Inr (map_option (Goes nodes recovery) r))
        else if cmd = HEARTBEAT then lift_turn nodes recovery (ProcessHeartbeat W m p1)
        else Inr (Some (Goes nodes recovery p1))))"

text \<open>One turn of the sender thread of P3: whether it ends, and the process.\<close>

inductive sending_step :: "World \<Rightarrow> Proc \<Rightarrow> bool \<Rightarrow> Proc \<Rightarrow> bool" for W :: World where
  send: "wait_and_pop (van_send_queue (pr_van p)) m q \<Longrightarrow>
    Send W m False (upd_van (\<lambda>v. v\<lparr>van_send_queue := q\<rparr>) p) = Inr (p', n) \<Longrightarrow>
    sending_step W p (is_terminate m) p'"

subsection \<open>Properties\<close>

lemma join_all_missing: "t \<in> set ts \<Longrightarrow> t \<notin> set (van_threads v) \<Longrightarrow> \<exists>e. join_all ts v = Inl e"
proof (induction ts arbitrary: v)
  case (Cons u us)
  show ?case
  proof (cases "t = u")
    case True
    then show ?thesis using Cons.prems(2) by (simp add: join_def)
  next
    case False
    then have "t \<in> set us" using Cons.prems(1) by simp
    moreover have "t \<notin> set (remove1 u (van_threads v))" using Cons.prems(2) by (meson notin_set_remove1)
    ultimately show ?thesis using Cons.IH[of "v\<lparr>van_threads := remove1 u (van_threads v)\<rparr>"]
      by (auto simp: join_def defined_def rbind_def)
  qed
qed simp


definition quiet_net :: Net where
  "quiet_net = \<lparr>net_ip_of = (\<lambda>_. []), net_available = ([], []), net_port = (\<lambda>_. 9000), net_bind = (\<lambda>n _ _. n_port n),
     net_bind_udp = (\<lambda>n _. n_udp_port n)\<rparr>"


lemma Send_customers: "Send W m g p = Inr (p', n) \<Longrightarrow> pr_cust p' = pr_cust p \<and> pr_po p' = pr_po p"
  by (drule Send_result) auto

lemma duplicated_customers:
  "duplicated W m p = Inr (d, p') \<Longrightarrow> pr_cust p' = pr_cust p \<and> pr_po p' = pr_po p"
  by (auto simp: duplicated_def res_simps Let_def upd_van_def split: option.splits dest!: Send_customers)

lemma Send_ack_resender:
  assumes "Send W (ack_msg m k) False p = Inr (p', n)"
  shows "van_resender (pr_van p') = van_resender (pr_van p)"
  using assms by (auto simp: Send_def note_outgoing_def AddOutgoing_def ack_msg_def msg_cmd_def Let_def res_simps
      split: option.splits)

lemma duplicated_data:
  assumes "duplicated W m p = Inr (d, p')" "van_resender (pr_van p) = Some r" "msg_cmd m = EMPTY"
    and "m_sender (msg_meta m) \<noteq> kEmpty"
  shows "\<exists>r'. van_resender (pr_van p') = Some r' \<and> mkey (m_sender (msg_meta m)) m \<in> rs_acked r' \<and>
    d = (mkey (m_sender (msg_meta m)) m \<in> rs_acked r)"
proof -
  from assms have key: "GetKey (my_id (pr_van p)) m = Inr (mkey (m_sender (msg_meta m)) m)"
    by (auto simp: duplicated_def AddIncomming_def GetKey_def mkey_def res_simps Let_def)
  then have inc: "AddIncomming (my_id (pr_van p)) m r =
      Inr (mkey (m_sender (msg_meta m)) m \<in> rs_acked r, r\<lparr>rs_acked := insert (mkey (m_sender (msg_meta m)) m) (rs_acked r)\<rparr>,
        Some (ack_msg m (mkey (m_sender (msg_meta m)) m)))"
    using assms(3) by (simp add: AddIncomming_def)
  show ?thesis using assms(1,2) inc
    by (auto simp: duplicated_def res_simps Let_def upd_van_def dest!: Send_ack_resender)
qed

lemma receive_chunk_resender: "receive_chunk fp dtype m v = Inr (w, v') \<Longrightarrow> van_resender v' = van_resender v"
  by (auto simp: receive_chunk_def Let_def res_simps set_chunks_def split: if_splits)

lemma ProcessDataMsg_facts:
  assumes "ProcessDataMsg polls fp m p = Inr p'"
  shows "m_sender (msg_meta m) \<noteq> kEmpty \<and> van_resender (pr_van p') = van_resender (pr_van p)"
  using assms
  by (auto simp: ProcessDataMsg_def Let_def res_simps split: option.splits dest!: receive_chunk_resender)

text \<open>
  C25: with a resender, a repeated data message reaches no customer. Whatever a first copy of a data
  message did, when the same message is received again no customer and nothing in the post office
  changes.
\<close>

theorem repeated_data_filtered:
  assumes "van_resender (pr_van p) = Some r" "msg_cmd m = EMPTY" "\<not> dropped W (pr_van p)"
    and "Receiving W srt polls fp m n nodes recovery p = Inr (Some (Goes nodes1 recovery1 p1))"
    and "Receiving W' srt' polls' fp m n' nodes1 recovery1 p1 = Inr (Some (Goes nodes2 recovery2 p2))"
    and "m_sender (msg_meta m) \<noteq> kEmpty"
  shows "pr_cust p2 = pr_cust p1 \<and> pr_po p2 = pr_po p1"
proof -
  let ?k = "mkey (m_sender (msg_meta m)) m"
  have empty: "control_empty (m_control (msg_meta m))" using assms(2) by (simp add: control_empty_def msg_cmd_def)
  from assms(3,4) obtain d p0 where dup: "duplicated W m (count_received n p) = Inr (d, p0)" and
    go: "if d then Goes nodes1 recovery1 p1 = Goes nodes recovery p0 else ProcessDataMsg polls fp m p0 = Inr p1"
    by (auto simp: Receiving_def dispatch_def lift_turn_def empty res_simps Let_def split: if_splits)
  have res: "van_resender (pr_van (count_received n p)) = Some r" using assms(1) by (simp add: count_received_def upd_van_def)
  from duplicated_data[OF dup res assms(2,6)] go
  obtain r1 where r1: "van_resender (pr_van p1) = Some r1" "?k \<in> rs_acked r1"
    by (auto split: if_splits dest: ProcessDataMsg_facts)
  show ?thesis
  proof (cases "dropped W' (pr_van p1)")
    case True
    then show ?thesis using assms(5) by (simp add: Receiving_def)
  next
    case False
    then obtain d' p3 where dup': "duplicated W' m (count_received n' p1) = Inr (d', p3)" and
      go': "if d' then p2 = p3 else True"
      using assms(5) by (auto simp: Receiving_def res_simps split: if_splits)
    have "van_resender (pr_van (count_received n' p1)) = Some r1" using r1(1) by (simp add: count_received_def upd_van_def)
    from duplicated_data[OF dup' this assms(2,6)] r1(2) have "d'" by auto
    then show ?thesis using go' duplicated_customers[OF dup'] by (simp add: count_received_def upd_van_def)
  qed
qed

definition receiving_proc :: Proc where
  "receiving_proc = \<lparr>pr_van = new_Van\<lparr>van_resender := Some (new_Resender 1000 10)\<rparr>,
     pr_po = empty_Postoffice\<lparr>po_customers := [0 \<mapsto> [(0, 7)]]\<rparr>, pr_cust = [7 \<mapsto> new_Customer 0 0], pr_env = Map.empty\<rparr>"

definition data_msg :: Message where
  "data_msg = empty_Message\<lparr>msg_meta := empty_Meta\<lparr>m_app_id := 0, m_customer_id := 0, m_sender := 101, m_recver := 100,
     m_timestamp := 3, m_request := True, m_push := True\<rparr>\<rparr>"

lemma data_msg_fields:
  "msg_cmd data_msg = EMPTY" "control_empty (m_control (msg_meta data_msg))" "m_sender (msg_meta data_msg) = 101"
  "m_recver (msg_meta data_msg) = 100" "m_app_id (msg_meta data_msg) = 0" "m_timestamp (msg_meta data_msg) = 3"
  by (simp_all add: data_msg_def msg_cmd_def empty_Message_def empty_Meta_def empty_Control_def control_empty_def)

lemma duplicated_runs:
  assumes "van_resender (pr_van p) = Some r"
  shows "\<exists>d p'. duplicated quiet_world data_msg p = Inr (d, p')"
proof -
  have key: "GetKey x data_msg = Inr (mkey 101 data_msg)" for x
    by (simp add: GetKey_def data_msg_fields mkey_def kEmpty_def)
  have cmd: "msg_cmd (ack_msg m k) = ACK" for m k by (simp add: ack_msg_def msg_cmd_def)
  show ?thesis using assms
    by (simp add: duplicated_def AddIncomming_def data_msg_fields key Send_def quiet_world_def note_outgoing_def upd_van_def
        AddOutgoing_def cmd Let_def)
qed

lemma data_msg_received:
  assumes "pr_po p = pr_po receiving_proc" "pr_cust p 7 = Some c" "van_resender (pr_van p) = Some r" "van_drop_rate (pr_van p) = 0"
    "van_enable_dgt (pr_van p) = 0"
  shows "\<exists>p'. Receiving quiet_world srt [pr_po receiving_proc] fp data_msg 8 nodes rec p = Inr (Some (Goes nodes rec p')) \<and>
    pr_po p' = pr_po receiving_proc \<and> (\<exists>c'. pr_cust p' 7 = Some c') \<and> (\<exists>r'. van_resender (pr_van p') = Some r') \<and>
    van_drop_rate (pr_van p') = 0 \<and> van_enable_dgt (pr_van p') = 0"
proof -
  let ?p = "count_received 8 p"
  have r: "van_resender (pr_van ?p) = Some r" using assms(3) by (simp add: count_received_def upd_van_def)
  from duplicated_runs[OF this] obtain d p1 where d: "duplicated quiet_world data_msg ?p = Inr (d, p1)" by blast
  note facts = duplicated_customers[OF d] duplicated_data[OF d r data_msg_fields(1)]
  have van: "van_drop_rate (pr_van p1) = 0" "van_enable_dgt (pr_van p1) = 0"
    using d r assms(4,5)
    by (auto simp: duplicated_def res_simps Let_def upd_van_def count_received_def split: option.splits dest!: Send_result)
  have po: "pr_po p1 = pr_po receiving_proc" "pr_cust p1 7 = Some c"
    using facts(1) assms(1,2) by (simp_all add: count_received_def upd_van_def)
  have "GetCustomer [pr_po receiving_proc] 0 0 5 = Some 7"
    by (simp add: GetCustomer_def GetCustomer_poll_def receiving_proc_def)
  then have data: "ProcessDataMsg [pr_po receiving_proc] fp data_msg p1 =
      Inr (p1\<lparr>pr_cust := (pr_cust p1)(7 \<mapsto> Accept data_msg c)\<rparr>)"
    using po van(2) by (simp add: ProcessDataMsg_def data_msg_fields kEmpty_def is_chunk_def receiving_proc_def empty_Postoffice_def)
  have nd: "\<not> dropped quiet_world (pr_van p)" using assms(4) by (simp add: dropped_def)
  have sd: "m_sender (msg_meta data_msg) \<noteq> kEmpty" by (simp add: data_msg_fields kEmpty_def)
  show ?thesis
  proof (cases d)
    case True
    then have "Receiving quiet_world srt [pr_po receiving_proc] fp data_msg 8 nodes rec p = Inr (Some (Goes nodes rec p1))"
      using d nd by (simp add: Receiving_def)
    then show ?thesis using po van facts(2)[OF sd] by auto
  next
    case False
    then have "Receiving quiet_world srt [pr_po receiving_proc] fp data_msg 8 nodes rec p =
        Inr (Some (Goes nodes rec (p1\<lparr>pr_cust := (pr_cust p1)(7 \<mapsto> Accept data_msg c)\<rparr>)))"
      using d nd data by (simp add: Receiving_def dispatch_def lift_turn_def data_msg_fields)
    then show ?thesis using po van facts(2)[OF sd] by auto
  qed
qed

theorem repeated_data_filtered_witness:
  "\<exists>p1 p2. Receiving quiet_world sort_nodes [pr_po receiving_proc] sample_fpu data_msg 8 empty_Meta empty_Meta receiving_proc =
       Inr (Some (Goes empty_Meta empty_Meta p1)) \<and>
     Receiving quiet_world sort_nodes [pr_po receiving_proc] sample_fpu data_msg 8 empty_Meta empty_Meta p1 =
       Inr (Some (Goes empty_Meta empty_Meta p2)) \<and> pr_cust p2 = pr_cust p1"
proof -
  have p0: "pr_cust receiving_proc 7 = Some (new_Customer 0 0)" "van_resender (pr_van receiving_proc) = Some (new_Resender 1000 10)"
    "van_drop_rate (pr_van receiving_proc) = 0" "van_enable_dgt (pr_van receiving_proc) = 0"
    by (simp_all add: receiving_proc_def new_Van_def)
  obtain p1 c r where p1: "Receiving quiet_world sort_nodes [pr_po receiving_proc] sample_fpu data_msg 8 empty_Meta empty_Meta receiving_proc =
      Inr (Some (Goes empty_Meta empty_Meta p1))" "pr_po p1 = pr_po receiving_proc" "pr_cust p1 7 = Some c"
    "van_resender (pr_van p1) = Some r" "van_drop_rate (pr_van p1) = 0" "van_enable_dgt (pr_van p1) = 0"
    using data_msg_received[OF refl p0, of sort_nodes sample_fpu empty_Meta empty_Meta] by blast
  obtain p2 where p2: "Receiving quiet_world sort_nodes [pr_po receiving_proc] sample_fpu data_msg 8 empty_Meta empty_Meta p1 =
      Inr (Some (Goes empty_Meta empty_Meta p2))"
    using data_msg_received[OF p1(2-6), of sort_nodes sample_fpu empty_Meta empty_Meta] by blast
  have "\<not> dropped quiet_world (pr_van receiving_proc)" "m_sender (msg_meta data_msg) \<noteq> kEmpty"
    by (simp_all add: dropped_def p0(3) data_msg_fields kEmpty_def)
  with repeated_data_filtered[OF p0(2) data_msg_fields(1) _ p1(1) p2] p1(1) p2 show ?thesis by blast
qed

end
