(* ===== verification/SimpleApps.thy ===== *)
theory SimpleApps
  imports Receivers
begin

text \<open>
  \<open>SimpleApp\<close> (\<^verbatim>\<open>include/ps/simple_app.h\<close>): requests with a number and a string, sent to every node
  of a group, and their responses. The customer object the application owns is the entry of the
  process' customer table at the application's address; the handlers an application installs are
  parameters.
\<close>

subsection \<open>The customer of an application\<close>

definition with_cust :: "nat \<Rightarrow> (Customer \<Rightarrow> (Customer \<times> 'a) res) \<Rightarrow> Proc \<Rightarrow> (Proc \<times> 'a) res" where
  "with_cust a f p =
     (case pr_cust p a of
        None \<Rightarrow> Inl (Undefined ''obj_'')
      | Some c \<Rightarrow> rbind (f c) (\<lambda>(c', x). Inr (p\<lparr>pr_cust := (pr_cust p)(a \<mapsto> c')\<rparr>, x)))"

definition obj :: "nat \<Rightarrow> Proc \<Rightarrow> Customer res" where
  "obj a p = (case pr_cust p a of None \<Rightarrow> Inl (Undefined ''obj_'') | Some c \<Rightarrow> Inr c)"

definition obj_NewRequest :: "nat \<Rightarrow> int \<Rightarrow> bool \<Rightarrow> Proc \<Rightarrow> (Proc \<times> int) res" where
  "obj_NewRequest a recver is_global p = with_cust a (NewRequest (pr_po p) recver is_global) p"

definition obj_AddResponse :: "nat \<Rightarrow> int \<Rightarrow> int \<Rightarrow> Proc \<Rightarrow> Proc res" where
  "obj_AddResponse a ts num p =
     rbind (with_cust a (\<lambda>c. rbind (AddResponse ts num c) (\<lambda>c'. Inr (c', ()))) p) (\<lambda>(p', _). Inr p')"

definition obj_NumResponse :: "nat \<Rightarrow> int \<Rightarrow> Proc \<Rightarrow> int res" where
  "obj_NumResponse a ts p = rbind (obj a p) (\<lambda>c. NumResponse c ts)"

subsection \<open>Operations\<close>

record SimpleData =
  sd_head :: int
  sd_body :: string
  sd_sender :: int
  sd_timestamp :: int
  sd_customer_id :: int

fun send_each :: "World \<Rightarrow> bool \<Rightarrow> Meta \<Rightarrow> int list \<Rightarrow> Proc \<Rightarrow> Proc res" where
  "send_each W is_global mt [] p = Inr p"
| "send_each W is_global mt (r # rs) p =
     rbind (Send W (empty_Message\<lparr>msg_meta := mt\<lparr>m_recver := r\<rparr>\<rparr>) is_global p) (\<lambda>(p1, _).
       send_each W is_global mt rs p1)"

definition request_meta :: "int \<Rightarrow> string \<Rightarrow> int \<Rightarrow> Customer \<Rightarrow> Meta" where
  "request_meta req_head req_body ts c = empty_Meta\<lparr>m_head := req_head, m_body := req_body, m_timestamp := ts,
     m_request := True, m_simple_app := True, m_app_id := cu_app_id c, m_customer_id := cu_customer_id c\<rparr>"

definition SimpleApp_Request :: "World \<Rightarrow> nat \<Rightarrow> int \<Rightarrow> string \<Rightarrow> int \<Rightarrow> bool \<Rightarrow> Proc \<Rightarrow> (Proc \<times> int) res" where
  "SimpleApp_Request W this req_head req_body recv_id is_global p =
     rbind (obj_NewRequest this recv_id False p) (\<lambda>(p1, ts).
     rbind (obj this p1) (\<lambda>c.
     rbind (GetNodeIDs (pr_po p1) recv_id is_global) (\<lambda>ids.
     rbind (send_each W is_global (request_meta req_head req_body ts c) ids p1) (\<lambda>p2. Inr (p2, ts)))))"

definition SimpleApp_Response :: "World \<Rightarrow> nat \<Rightarrow> SimpleData \<Rightarrow> string \<Rightarrow> Proc \<Rightarrow> Proc res" where
  "SimpleApp_Response W this req res_body p =
     rbind (obj this p) (\<lambda>c.
     rbind (Send W (empty_Message\<lparr>msg_meta := empty_Meta\<lparr>m_head := sd_head req, m_body := res_body,
              m_timestamp := sd_timestamp req, m_request := False, m_simple_app := True, m_app_id := cu_app_id c,
              m_customer_id := sd_customer_id req, m_recver := sd_sender req\<rparr>\<rparr>) (sd_sender req < kOffset) p)
       (\<lambda>(p1, _). Inr p1))"

definition simple_data :: "Message \<Rightarrow> SimpleData" where
  "simple_data m = \<lparr>sd_head = m_head (msg_meta m), sd_body = m_body (msg_meta m), sd_sender = m_sender (msg_meta m),
     sd_timestamp = m_timestamp (msg_meta m), sd_customer_id = m_customer_id (msg_meta m)\<rparr>"

definition SimpleApp_Process :: "(SimpleData \<Rightarrow> 's \<Rightarrow> 's res) \<Rightarrow> (SimpleData \<Rightarrow> 's \<Rightarrow> 's res) \<Rightarrow> Message \<Rightarrow> 's \<Rightarrow> 's res" where
  "SimpleApp_Process request_handle response_handle m s =
     (if m_request (msg_meta m) then request_handle (simple_data m) s else response_handle (simple_data m) s)"

text \<open>The handlers the constructor installs: an empty response, and nothing.\<close>

definition default_request_handle :: "World \<Rightarrow> nat \<Rightarrow> SimpleData \<Rightarrow> Proc \<Rightarrow> Proc res" where
  "default_request_handle W this recved p = SimpleApp_Response W this recved [] p"

definition default_response_handle :: "SimpleData \<Rightarrow> Proc \<Rightarrow> Proc res" where
  "default_response_handle recved p = Inr p"

subsection \<open>What is sent\<close>

definition chan :: "bool \<Rightarrow> channel" where
  "chan g = (if g then Global else Local)"

lemma sent_only_fields:
  assumes "sent_only p q"
  shows "pr_cust q = pr_cust p" "pr_po q = pr_po p" "pr_env q = pr_env p"
  using assms by (auto simp: sent_only_def)

lemma send_each_facts:
  assumes "send_each W g mt rs p = Inr p'"
  shows "van_outbox (pr_van p') = van_outbox (pr_van p) @ map (\<lambda>r. (empty_Message\<lparr>msg_meta := mt\<lparr>m_recver := r\<rparr>\<rparr>, chan g)) rs \<and>
    sent_only p p'"
  using assms
proof (induction rs arbitrary: p)
  case (Cons r rs)
  from Cons.prems obtain p1 n where snd: "Send W (empty_Message\<lparr>msg_meta := mt\<lparr>m_recver := r\<rparr>\<rparr>) g p = Inr (p1, n)"
    and rest: "send_each W g mt rs p1 = Inr p'" by (auto simp: res_simps)
  have out: "van_outbox (pr_van p1) = van_outbox (pr_van p) @ [(empty_Message\<lparr>msg_meta := mt\<lparr>m_recver := r\<rparr>\<rparr>, chan g)]"
    using Send_facts(1)[OF snd] by (simp add: chan_def)
  have "sent_only p p'" using sent_only_trans[OF Send_facts(2)[OF snd]] Cons.IH[OF rest] by simp
  then show ?case using Cons.IH[OF rest] out by simp
qed simp

lemma obj_NewRequest_facts:
  assumes "obj_NewRequest a r g p = Inr (p', ts)"
  shows "\<exists>c c' ids. pr_cust p a = Some c \<and> p' = p\<lparr>pr_cust := (pr_cust p)(a \<mapsto> c')\<rparr> \<and> GetNodeIDs (pr_po p) r g = Inr ids \<and>
    tracked c' ts \<and> entry c' ts = (int (length ids), 0) \<and> cu_app_id c' = cu_app_id c \<and> cu_customer_id c' = cu_customer_id c \<and>
    ts = int (length (cu_tracker c))"
proof -
  from assms obtain c c' where c: "pr_cust p a = Some c" "NewRequest (pr_po p) r g c = Inr (c', ts)"
    "p' = p\<lparr>pr_cust := (pr_cust p)(a \<mapsto> c')\<rparr>"
    by (auto simp: obj_NewRequest_def with_cust_def res_simps split: option.splits)
  moreover have "cu_app_id c' = cu_app_id c" "cu_customer_id c' = cu_customer_id c"
    using c(2) by (auto simp: NewRequest_def res_simps)
  ultimately show ?thesis using NewRequest_entry[OF c(2)] by auto
qed

text \<open>
  C38: a request on the global layer waits for the wrong number of responses. \<open>Request\<close> counts the
  members of the group on the party's layer whatever layer it sends on: it sends one message to each
  member of the global group, but the timestamp it returns is complete after as many responses as the
  party's group of the same number has members.
\<close>

theorem global_request_miscounts:
  assumes "SimpleApp_Request W this h body r True p = Inr (p', ts)"
    and "GetNodeIDs (pr_po p) r False = Inr party" "GetNodeIDs (pr_po p) r True = Inr ids"
  shows "\<exists>c' msgs. pr_cust p' this = Some c' \<and> entry c' ts = (int (length party), 0) \<and>
    van_outbox (pr_van p') = van_outbox (pr_van p) @ map (\<lambda>m. (m, Global)) msgs \<and>
    map (\<lambda>m. m_recver (msg_meta m)) msgs = ids"
proof -
  from assms(1) obtain p1 c where
    new: "obj_NewRequest this r False p = Inr (p1, ts)" and c: "obj this p1 = Inr c"
    and each: "send_each W True (request_meta h body ts c) ids p1 = Inr p'"
  proof -
    assume *: "\<And>p1 c. obj_NewRequest this r False p = Inr (p1, ts) \<Longrightarrow> obj this p1 = Inr c \<Longrightarrow>
      send_each W True (request_meta h body ts c) ids p1 = Inr p' \<Longrightarrow> thesis"
    from assms(1) obtain p1 ids' c where new: "obj_NewRequest this r False p = Inr (p1, ts)" "obj this p1 = Inr c"
      "GetNodeIDs (pr_po p1) r True = Inr ids'" "send_each W True (request_meta h body ts c) ids' p1 = Inr p'"
      by (auto simp: SimpleApp_Request_def res_simps)
    have "pr_po p1 = pr_po p" using obj_NewRequest_facts[OF new(1)] by auto
    with new assms(3) * show thesis by auto
  qed
  from obj_NewRequest_facts[OF new] assms(2) obtain c' where
    c': "p1 = p\<lparr>pr_cust := (pr_cust p)(this \<mapsto> c')\<rparr>" "entry c' ts = (int (length party), 0)" by auto
  let ?msgs = "map (\<lambda>r. empty_Message\<lparr>msg_meta := (request_meta h body ts c)\<lparr>m_recver := r\<rparr>\<rparr>) ids"
  have "van_outbox (pr_van p') = van_outbox (pr_van p) @ map (\<lambda>m. (m, Global)) ?msgs"
    using send_each_facts[OF each] by (simp add: c'(1) chan_def comp_def)
  moreover have "pr_cust p' this = Some c'" using send_each_facts[OF each] sent_only_fields(1) c'(1) by fastforce
  moreover have "map (\<lambda>m. m_recver (msg_meta m)) ?msgs = ids" by (simp add: comp_def)
  ultimately show ?thesis using c'(2) by blast
qed

text \<open>A party's server that also knows two global servers.\<close>

definition two_layer_proc :: Proc where
  "two_layer_proc = \<lparr>pr_van = new_Van,
     pr_po = empty_Postoffice\<lparr>po_node_ids := [2 \<mapsto> [100]], po_node_global_ids := [2 \<mapsto> [8, 10]], po_num_servers := 1,
       po_num_global_servers := 2\<rparr>,
     pr_cust = [7 \<mapsto> new_Customer 0 0], pr_env = Map.empty\<rparr>"

theorem global_request_miscounts_witness:
  "\<exists>p' c'. SimpleApp_Request quiet_world 7 1 [] 2 True two_layer_proc = Inr (p', 0) \<and> pr_cust p' 7 = Some c' \<and>
     entry c' 0 = (1, 0) \<and> length (van_outbox (pr_van p')) = 2"
proof -
  have "\<exists>p'. SimpleApp_Request quiet_world 7 1 [] 2 True two_layer_proc = Inr (p', 0)"
    by (simp add: SimpleApp_Request_def two_layer_proc_def obj_NewRequest_def with_cust_def NewRequest_def GetNodeIDs_def
        new_Customer_def obj_def Send_def Let_def quiet_world_def note_outgoing_def new_Van_def empty_Postoffice_def)
  then obtain p' where p': "SimpleApp_Request quiet_world 7 1 [] 2 True two_layer_proc = Inr (p', 0)" by blast
  have ids: "GetNodeIDs (pr_po two_layer_proc) 2 False = Inr [100]" "GetNodeIDs (pr_po two_layer_proc) 2 True = Inr [8, 10]"
    "van_outbox (pr_van two_layer_proc) = []"
    by (simp_all add: two_layer_proc_def GetNodeIDs_def new_Van_def)
  from global_request_miscounts[OF p' ids(1,2)] p' show ?thesis by (auto simp: ids(3))
qed

end
