(* ===== verification/Sarrays.thy ===== *)
theory Sarrays
  imports Postoffices
begin

text \<open>
  The shared arrays of ps-lite (\<^verbatim>\<open>include/ps/sarray.h\<close>). An array is a view, a block with an offset,
  a size and a capacity, on memory that several arrays may share, as \<open>std::shared_ptr\<close> lets them; the
  memory is an explicit store of blocks, so that what one array writes is seen through the others.
  Elements are of one type \<open>'v\<close>; the assignment between element types, which reinterprets the bytes,
  is modelled on sizes here and on contents where messages are unpacked. The memory \<open>new V[n]\<close>
  returns has indeterminate contents, a parameter of the store.
\<close>

subsection \<open>The store\<close>

record 'v Store =
  st_blocks :: "nat \<Rightarrow> 'v list"
  st_next :: nat
  st_junk :: "nat \<Rightarrow> 'v"

record SArray =
  sa_block :: nat
  sa_off :: nat
  sa_size :: nat
  sa_capacity :: nat

text \<open>The empty array points to no block; block 0 is the null pointer.\<close>

definition empty_SArray :: SArray where
  "empty_SArray = \<lparr>sa_block = 0, sa_off = 0, sa_size = 0, sa_capacity = 0\<rparr>"

definition new_block :: "nat \<Rightarrow> 'v Store \<Rightarrow> nat \<times> 'v Store" where
  "new_block n s = (st_next s, s\<lparr>st_blocks := (st_blocks s)(st_next s := map (st_junk s) [0..<n]),
     st_next := Suc (st_next s)\<rparr>)"

definition memread :: "nat \<Rightarrow> nat \<Rightarrow> nat \<Rightarrow> 'v Store \<Rightarrow> 'v list res" where
  "memread b off n s = defined (off + n \<le> length (st_blocks s b)) ''read'' (Inr (take n (drop off (st_blocks s b))))"

definition memwrite :: "nat \<Rightarrow> nat \<Rightarrow> 'v list \<Rightarrow> 'v Store \<Rightarrow> 'v Store res" where
  "memwrite b off xs s = defined (off + length xs \<le> length (st_blocks s b)) ''write''
     (Inr (s\<lparr>st_blocks := (st_blocks s)(b := take off (st_blocks s b) @ xs @ drop (off + length xs) (st_blocks s b))\<rparr>))"

subsection \<open>Operations\<close>

definition sa_reset :: "nat \<Rightarrow> nat \<Rightarrow> SArray" where
  "sa_reset data n = \<lparr>sa_block = data, sa_off = 0, sa_size = n, sa_capacity = n\<rparr>"

definition sa_resize :: "nat \<Rightarrow> 'v \<Rightarrow> SArray \<Rightarrow> 'v Store \<Rightarrow> (SArray \<times> 'v Store) res" where
  "sa_resize n val a s =
     rbind (if n \<le> sa_capacity a then Inr (a\<lparr>sa_size := n\<rparr>, s)
            else let (new_data, s1) = new_block (n + 5) s in
              rbind (memread (sa_block a) (sa_off a) (sa_size a) s1) (\<lambda>old.
              rbind (memwrite new_data 0 old s1) (\<lambda>s2. Inr (sa_reset new_data n, s2))))
       (\<lambda>(a1, s1). if n \<le> sa_size a then Inr (a1, s1)
          else rbind (memwrite (sa_block a1) (sa_off a1 + sa_size a) (replicate (n - sa_size a) val) s1)
                 (\<lambda>s2. Inr (a1, s2)))"

definition sa_reserve :: "nat \<Rightarrow> 'v \<Rightarrow> SArray \<Rightarrow> 'v Store \<Rightarrow> (SArray \<times> 'v Store) res" where
  "sa_reserve n zero a s =
     (if n \<le> sa_capacity a then Inr (a, s)
      else rbind (sa_resize n zero a s) (\<lambda>(a1, s1). Inr (a1\<lparr>sa_size := sa_size a\<rparr>, s1)))"

definition sa_push_back :: "'v \<Rightarrow> 'v \<Rightarrow> SArray \<Rightarrow> 'v Store \<Rightarrow> (SArray \<times> 'v Store) res" where
  "sa_push_back zero val a s =
     rbind (if sa_size a = sa_capacity a then sa_reserve (sa_size a * 2 + 5) zero a s else Inr (a, s))
       (\<lambda>(a1, s1). rbind (memwrite (sa_block a1) (sa_off a1 + sa_size a1) [val] s1)
          (\<lambda>s2. Inr (a1\<lparr>sa_size := sa_size a1 + 1\<rparr>, s2)))"

definition sa_pop_back :: "SArray \<Rightarrow> SArray" where
  "sa_pop_back a = (if sa_size a \<noteq> 0 then a\<lparr>sa_size := sa_size a - 1\<rparr> else a)"

definition sa_CopyFrom :: "'v \<Rightarrow> 'v list \<Rightarrow> SArray \<Rightarrow> 'v Store \<Rightarrow> (SArray \<times> 'v Store) res" where
  "sa_CopyFrom zero data a s =
     rbind (sa_resize (length data) zero a s) (\<lambda>(a1, s1).
       rbind (memwrite (sa_block a1) (sa_off a1) data s1) (\<lambda>s2. Inr (a1, s2)))"

text \<open>
  \<open>append\<close> takes its argument by reference: when it is the array itself, the size read after the
  resize is the new one. \<open>self\<close> tells whether the two are the same object.
\<close>

definition sa_append :: "bool \<Rightarrow> 'v \<Rightarrow> SArray \<Rightarrow> SArray \<Rightarrow> 'v Store \<Rightarrow> (SArray \<times> 'v Store) res" where
  "sa_append self zero arr a s =
     (if sa_size arr = 0 then Inr (a, s)
      else rbind (sa_resize (sa_size a + sa_size arr) zero a s) (\<lambda>(a1, s1).
        let arr1 = (if self then a1 else arr) in
        rbind (memread (sa_block arr1) (sa_off arr1) (sa_size arr1) s1) (\<lambda>xs.
        rbind (memwrite (sa_block a1) (sa_off a1 + sa_size a) xs s1) (\<lambda>s2. Inr (a1, s2)))))"

definition sa_segment :: "nat \<Rightarrow> nat \<Rightarrow> SArray \<Rightarrow> SArray res" where
  "sa_segment begin_ix end_ix a =
     chk (begin_ix \<le> end_ix) ''end >= begin'' (chk (end_ix \<le> sa_size a) ''end <= size()''
       (Inr \<lparr>sa_block = sa_block a, sa_off = sa_off a + begin_ix, sa_size = end_ix - begin_ix,
             sa_capacity = end_ix - begin_ix\<rparr>))"

text \<open>The size and capacity an array of elements of \<open>v\<close> bytes gets from one of \<open>w\<close> bytes.\<close>

definition sa_reinterpret :: "nat \<Rightarrow> nat \<Rightarrow> nat \<Rightarrow> nat \<Rightarrow> (nat \<times> nat) res" where
  "sa_reinterpret w v sz cap =
     (let n = sz * w div v in
      chk (n * v = sz * w) ''cannot be divided'' (Inr (n, cap * w div v)))"

definition sa_back :: "SArray \<Rightarrow> 'v Store \<Rightarrow> 'v res" where
  "sa_back a s = chk (sa_size a \<noteq> 0) ''!empty()''
     (rbind (memread (sa_block a) (sa_off a + sa_size a - 1) 1 s) (\<lambda>xs. Inr (hd xs)))"

definition sa_front :: "SArray \<Rightarrow> 'v Store \<Rightarrow> 'v res" where
  "sa_front a s = chk (sa_size a \<noteq> 0) ''!empty()''
     (rbind (memread (sa_block a) (sa_off a) 1 s) (\<lambda>xs. Inr (hd xs)))"

subsection \<open>Arrays as lists\<close>

text \<open>The list an array stands for, and when a view is in order.\<close>

definition contents :: "SArray \<Rightarrow> 'v Store \<Rightarrow> 'v list" where
  "contents a s = take (sa_size a) (drop (sa_off a) (st_blocks s (sa_block a)))"

definition sa_ok :: "SArray \<Rightarrow> 'v Store \<Rightarrow> bool" where
  "sa_ok a s \<longleftrightarrow> sa_size a \<le> sa_capacity a \<and> sa_off a + sa_capacity a \<le> length (st_blocks s (sa_block a)) \<and>
     sa_block a < st_next s"

lemma length_contents: "sa_ok a s \<Longrightarrow> length (contents a s) = sa_size a"
  by (auto simp: contents_def sa_ok_def)

text \<open>Arrays whose memory a change leaves alone.\<close>

definition apart :: "SArray \<Rightarrow> SArray \<Rightarrow> bool" where
  "apart a b \<longleftrightarrow> sa_block a \<noteq> sa_block b \<or> sa_off a + sa_capacity a \<le> sa_off b \<or> sa_off b + sa_capacity b \<le> sa_off a"

lemma memwrite_ok:
  assumes "off + length xs \<le> length (st_blocks s b)"
  shows "\<exists>s'. memwrite b off xs s = Inr s' \<and> st_next s' = st_next s \<and>
    (\<forall>c. length (st_blocks s' c) = length (st_blocks s c)) \<and> (\<forall>c. c \<noteq> b \<longrightarrow> st_blocks s' c = st_blocks s c) \<and>
    st_blocks s' b = take off (st_blocks s b) @ xs @ drop (off + length xs) (st_blocks s b)"
  using assms by (simp add: memwrite_def)

lemma memread_ok: "sa_ok a s \<Longrightarrow> memread (sa_block a) (sa_off a) (sa_size a) s = Inr (contents a s)"
  by (simp add: memread_def contents_def sa_ok_def)

text \<open>A write inside a view replaces that part of its contents and no other array's.\<close>

lemma memwrite_contents:
  assumes "sa_off a + n + length xs \<le> length (st_blocks s (sa_block a))" "memwrite (sa_block a) (sa_off a + n) xs s = Inr s'"
  shows "take (n + length xs) (drop (sa_off a) (st_blocks s' (sa_block a))) =
    take n (drop (sa_off a) (st_blocks s (sa_block a))) @ xs"
proof -
  let ?B = "st_blocks s (sa_block a)"
  have B': "st_blocks s' (sa_block a) = take (sa_off a + n) ?B @ xs @ drop (sa_off a + n + length xs) ?B"
    using assms by (auto simp: memwrite_def res_simps)
  have "drop (sa_off a) (take (sa_off a + n) ?B) = take n (drop (sa_off a) ?B)" by (simp add: drop_take)
  then show ?thesis using assms(1) by (simp add: B' drop_append)
qed

lemma memwrite_apart:
  assumes "memwrite (sa_block a) (sa_off a + n) xs s = Inr s'" "n + length xs \<le> sa_capacity a" "apart a b" "sa_ok b s"
  shows "contents b s' = contents b s"
proof (cases "sa_block a = sa_block b")
  case True
  let ?B = "st_blocks s (sa_block b)" and ?o = "sa_off a + n"
  have B': "st_blocks s' (sa_block b) = take ?o ?B @ xs @ drop (?o + length xs) ?B" and l: "?o + length xs \<le> length ?B"
    using assms(1) True by (auto simp: memwrite_def res_simps)
  consider "sa_off a + sa_capacity a \<le> sa_off b" | "sa_off b + sa_capacity b \<le> sa_off a"
    using assms(3) True by (auto simp: apart_def)
  then show ?thesis
  proof cases
    case 1
    then have "?o + length xs \<le> sa_off b" using assms(2) by linarith
    then have "drop (sa_off b) (st_blocks s' (sa_block b)) = drop (sa_off b) ?B"
      using l by (simp add: B' drop_append add.commute)
    then show ?thesis by (simp add: contents_def)
  next
    case 2
    then have "sa_off b + sa_size b \<le> ?o" using assms(4) by (simp add: sa_ok_def)
    then have "take (sa_off b + sa_size b) (st_blocks s' (sa_block b)) = take (sa_off b + sa_size b) ?B"
      using l by (simp add: B')
    then show ?thesis by (simp add: contents_def take_drop add.commute)
  qed
next
  case False
  then have "st_blocks s' (sa_block b) = st_blocks s (sa_block b)" using assms(1) by (auto simp: memwrite_def res_simps)
  then show ?thesis by (simp add: contents_def)
qed

text \<open>What an operation may do to the rest of the memory: arrays apart from the one it works on keep their contents.\<close>

definition frame :: "SArray \<Rightarrow> 'v Store \<Rightarrow> 'v Store \<Rightarrow> bool" where
  "frame a s s' \<longleftrightarrow> (\<forall>b. sa_ok b s \<longrightarrow> apart a b \<longrightarrow> sa_ok b s' \<and> contents b s' = contents b s)"

lemma memwrite_frame:
  assumes "memwrite (sa_block a) (sa_off a + n) xs s = Inr s'" "n + length xs \<le> sa_capacity a"
  shows "frame a s s'"
proof -
  have "sa_ok b s'" if "sa_ok b s" for b
    using assms(1) that by (auto simp: sa_ok_def memwrite_def res_simps)
  then show ?thesis using memwrite_apart[OF assms] by (simp add: frame_def)
qed

lemma frame_refl [simp]: "frame a s s"
  by (simp add: frame_def)

lemma frame_trans: "frame a s s' \<Longrightarrow> frame a s' s'' \<Longrightarrow> frame a s s''"
  by (simp add: frame_def)

text \<open>Moving an array to a fresh block.\<close>

lemma relocate:
  assumes "sa_ok a s" "sa_size a \<le> n" "new_block (n + 5) s = (b, s1)"
  shows "\<exists>s2. memread (sa_block a) (sa_off a) (sa_size a) s1 = Inr (contents a s) \<and>
    memwrite b 0 (contents a s) s1 = Inr s2 \<and> sa_ok (sa_reset b n) s2 \<and> frame c s s2 \<and>
    take (sa_size a) (st_blocks s2 b) = contents a s \<and> length (st_blocks s2 b) = n + 5 \<and>
    (\<forall>d. sa_ok d s \<longrightarrow> sa_block d \<noteq> b)"
proof -
  have b: "b = st_next s" and s1: "s1 = s\<lparr>st_blocks := (st_blocks s)(b := map (st_junk s) [0..<n + 5]), st_next := Suc b\<rparr>"
    using assms(3) by (auto simp: new_block_def)
  have other: "sa_ok d s \<Longrightarrow> sa_block d \<noteq> b" for d by (auto simp: sa_ok_def b)
  have rd: "memread (sa_block a) (sa_off a) (sa_size a) s1 = Inr (contents a s)"
    using memread_ok[OF assms(1)] other[OF assms(1)] by (simp add: memread_def s1)
  have len: "length (contents a s) = sa_size a" using length_contents[OF assms(1)] .
  let ?s2 = "s1\<lparr>st_blocks := (st_blocks s1)(b := contents a s @ drop (sa_size a) (st_blocks s1 b))\<rparr>"
  have wr: "memwrite b 0 (contents a s) s1 = Inr ?s2"
    using assms(2) len by (simp add: memwrite_def s1)
  have "frame c s ?s2"
    unfolding frame_def
  proof (intro allI impI)
    fix d assume d: "sa_ok d s"
    then show "sa_ok d ?s2 \<and> contents d ?s2 = contents d s"
      using other[OF d] by (simp add: sa_ok_def contents_def s1 b)
  qed
  moreover have "sa_ok (sa_reset b n) ?s2" using assms(2) len by (simp add: sa_ok_def sa_reset_def s1)
  ultimately show ?thesis using rd wr len assms(2) other by (auto simp: s1)
qed

text \<open>Resizing cuts or pads; the capacity afterwards is at least the size.\<close>

lemma sa_resize_spec:
  assumes "sa_ok a s"
  shows "\<exists>a' s'. sa_resize n v a s = Inr (a', s') \<and> sa_ok a' s' \<and> sa_size a' = n \<and> frame a s s' \<and>
    contents a' s' = take n (contents a s) @ replicate (n - sa_size a) v \<and>
    (\<forall>d. sa_ok d s \<longrightarrow> apart a d \<longrightarrow> apart a' d)"
proof (cases "n \<le> sa_capacity a")
  case True
  let ?a1 = "a\<lparr>sa_size := n\<rparr>"
  show ?thesis
  proof (cases "n \<le> sa_size a")
    case less: True
    then have "sa_resize n v a s = Inr (?a1, s)" using True by (simp add: sa_resize_def)
    moreover have "contents ?a1 s = take n (contents a s)" using less by (simp add: contents_def min_def)
    ultimately show ?thesis using assms less by (auto simp: sa_ok_def apart_def)
  next
    case False
    let ?xs = "replicate (n - sa_size a) v"
    have fits: "sa_off a + sa_size a + length ?xs \<le> length (st_blocks s (sa_block a))"
      using assms True False by (auto simp: sa_ok_def)
    then obtain s' where wr: "memwrite (sa_block a) (sa_off a + sa_size a) ?xs s = Inr s'"
      by (auto simp: memwrite_def)
    have "sa_resize n v a s = Inr (?a1, s')" using True False wr by (simp add: sa_resize_def)
    moreover have "sa_ok ?a1 s'" using assms True wr by (auto simp: sa_ok_def memwrite_def res_simps)
    moreover have "contents ?a1 s' = take n (contents a s) @ ?xs"
      using memwrite_contents[OF fits wr] False length_contents[OF assms] by (simp add: contents_def)
    moreover have "frame a s s'" using memwrite_frame[OF wr] True False by simp
    ultimately show ?thesis by (auto simp: apart_def)
  qed
next
  case False
  then have n: "sa_size a < n" using assms by (auto simp: sa_ok_def)
  obtain b s1 where nb: "new_block (n + 5) s = (b, s1)" by fastforce
  from relocate[OF assms _ nb, of a] n obtain s2 where
    s2: "memread (sa_block a) (sa_off a) (sa_size a) s1 = Inr (contents a s)" "memwrite b 0 (contents a s) s1 = Inr s2"
      "sa_ok (sa_reset b n) s2" "frame a s s2" "take (sa_size a) (st_blocks s2 b) = contents a s" "length (st_blocks s2 b) = n + 5"
      and far: "\<forall>d. sa_ok d s \<longrightarrow> sa_block d \<noteq> b"
    by auto
  let ?xs = "replicate (n - sa_size a) v" and ?a1 = "sa_reset b n"
  have a1: "sa_block ?a1 = b" "sa_off ?a1 = 0" "sa_size ?a1 = n" "sa_capacity ?a1 = n" by (simp_all add: sa_reset_def)
  have fits: "sa_off ?a1 + sa_size a + length ?xs \<le> length (st_blocks s2 (sa_block ?a1))" using n s2(6) by (simp add: a1)
  then obtain s' where wr: "memwrite (sa_block ?a1) (sa_off ?a1 + sa_size a) ?xs s2 = Inr s'" by (auto simp: memwrite_def)
  have "sa_resize n v a s = Inr (?a1, s')" using False n nb s2(1,2) wr by (simp add: sa_resize_def a1)
  moreover have "sa_ok ?a1 s'" using s2(3) wr by (auto simp: sa_ok_def memwrite_def res_simps)
  moreover have "contents ?a1 s' = take n (contents a s) @ ?xs"
    using memwrite_contents[OF fits wr] n s2(5) length_contents[OF assms] by (simp add: contents_def a1)
  moreover have "frame a s s'"
  proof -
    have "frame ?a1 s2 s'" using memwrite_frame[OF wr] n by (simp add: a1)
    then have "sa_ok d s' \<and> contents d s' = contents d s2" if "sa_ok d s" "sa_ok d s2" for d
      using that far by (auto simp: frame_def apart_def a1)
    then show ?thesis using s2(4) by (auto simp: frame_def)
  qed
  ultimately show ?thesis using far by (auto simp: apart_def a1)
qed

text \<open>Writing inside the capacity of a view.\<close>

lemma write_spec:
  assumes "sa_ok a s" "n + length xs \<le> sa_capacity a"
  shows "\<exists>s'. memwrite (sa_block a) (sa_off a + n) xs s = Inr s' \<and> frame a s s' \<and>
    sa_ok (a\<lparr>sa_size := n + length xs\<rparr>) s' \<and>
    (n \<le> sa_size a \<longrightarrow> contents (a\<lparr>sa_size := n + length xs\<rparr>) s' = take n (contents a s) @ xs)"
proof -
  have fits: "sa_off a + n + length xs \<le> length (st_blocks s (sa_block a))" using assms by (auto simp: sa_ok_def)
  then obtain s' where wr: "memwrite (sa_block a) (sa_off a + n) xs s = Inr s'" by (auto simp: memwrite_def)
  have "contents (a\<lparr>sa_size := n + length xs\<rparr>) s' = take n (contents a s) @ xs" if "n \<le> sa_size a"
    using memwrite_contents[OF fits wr] that by (simp add: contents_def min_def)
  moreover have "sa_ok (a\<lparr>sa_size := n + length xs\<rparr>) s'"
    using wr assms by (auto simp: sa_ok_def memwrite_def res_simps)
  ultimately show ?thesis using wr memwrite_frame[OF wr assms(2)] by auto
qed

lemma sa_reserve_spec:
  assumes "sa_ok a s"
  shows "\<exists>a' s'. sa_reserve n z a s = Inr (a', s') \<and> sa_ok a' s' \<and> sa_size a' = sa_size a \<and> n \<le> sa_capacity a' \<and>
    frame a s s' \<and> contents a' s' = contents a s \<and> (\<forall>d. sa_ok d s \<longrightarrow> apart a d \<longrightarrow> apart a' d)"
proof (cases "n \<le> sa_capacity a")
  case False
  from sa_resize_spec[OF assms, of n z] obtain a1 s1 where
    r: "sa_resize n z a s = Inr (a1, s1)" "sa_ok a1 s1" "sa_size a1 = n" "frame a s s1"
      "contents a1 s1 = take n (contents a s) @ replicate (n - sa_size a) z" "\<forall>d. sa_ok d s \<longrightarrow> apart a d \<longrightarrow> apart a1 d"
    by blast
  let ?a' = "a1\<lparr>sa_size := sa_size a\<rparr>"
  have n: "sa_size a \<le> n" "length (contents a s) = sa_size a" using False assms length_contents by (auto simp: sa_ok_def)
  have "contents ?a' s1 = take (sa_size a) (contents a1 s1)" using n r(3) by (simp add: contents_def min_def)
  also have "\<dots> = contents a s" using n r(5) by simp
  finally have "contents ?a' s1 = contents a s" .
  moreover have "sa_ok ?a' s1" "n \<le> sa_capacity ?a'" using r(2,3) n(1) by (auto simp: sa_ok_def)
  ultimately show ?thesis using False r by (auto simp: sa_reserve_def apart_def)
qed (use assms in \<open>simp add: sa_reserve_def\<close>)

lemma sa_push_back_spec:
  assumes "sa_ok a s"
  shows "\<exists>a' s'. sa_push_back z v a s = Inr (a', s') \<and> sa_ok a' s' \<and> frame a s s' \<and> contents a' s' = contents a s @ [v]"
proof -
  obtain a1 s1 where r: "(if sa_size a = sa_capacity a then sa_reserve (sa_size a * 2 + 5) z a s else Inr (a, s)) = Inr (a1, s1)"
    and a1: "sa_ok a1 s1" "sa_size a1 = sa_size a" "sa_size a < sa_capacity a1" "frame a s s1" "contents a1 s1 = contents a s"
      "\<forall>d. sa_ok d s \<longrightarrow> apart a d \<longrightarrow> apart a1 d"
  proof (cases "sa_size a = sa_capacity a")
    case True
    from sa_reserve_spec[OF assms, of "sa_size a * 2 + 5" z] obtain a1 s1 where
      "sa_reserve (sa_size a * 2 + 5) z a s = Inr (a1, s1)" "sa_ok a1 s1" "sa_size a1 = sa_size a"
      "sa_size a * 2 + 5 \<le> sa_capacity a1" "frame a s s1" "contents a1 s1 = contents a s"
      "\<forall>d. sa_ok d s \<longrightarrow> apart a d \<longrightarrow> apart a1 d" by blast
    then show ?thesis using True by (intro that[of a1 s1]) auto
  next
    case False
    then show ?thesis using assms by (intro that[of a s]) (auto simp: sa_ok_def)
  qed
  from write_spec[OF a1(1), of "sa_size a1" "[v]"] a1(2,3) obtain s2 where
    w: "memwrite (sa_block a1) (sa_off a1 + sa_size a1) [v] s1 = Inr s2" "frame a1 s1 s2"
      "sa_ok (a1\<lparr>sa_size := sa_size a1 + 1\<rparr>) s2" "contents (a1\<lparr>sa_size := sa_size a1 + 1\<rparr>) s2 = take (sa_size a1) (contents a1 s1) @ [v]"
    by auto
  have "frame a s s2" using a1(4,6) w(2) by (auto simp: frame_def)
  then show ?thesis using r w a1(5) length_contents[OF a1(1)] by (auto simp: sa_push_back_def)
qed

lemma sa_CopyFrom_spec:
  assumes "sa_ok a s"
  shows "\<exists>a' s'. sa_CopyFrom z xs a s = Inr (a', s') \<and> sa_ok a' s' \<and> frame a s s' \<and> contents a' s' = xs"
proof -
  from sa_resize_spec[OF assms, of "length xs" z] obtain a1 s1 where
    r: "sa_resize (length xs) z a s = Inr (a1, s1)" "sa_ok a1 s1" "sa_size a1 = length xs" "frame a s s1"
      "\<forall>d. sa_ok d s \<longrightarrow> apart a d \<longrightarrow> apart a1 d" by blast
  have c: "length xs \<le> sa_capacity a1" "a1\<lparr>sa_size := length xs\<rparr> = a1" using r(2,3) by (auto simp: sa_ok_def)
  from write_spec[OF r(2), of 0 xs] c(1) obtain s2 where
    w: "memwrite (sa_block a1) (sa_off a1) xs s1 = Inr s2" "frame a1 s1 s2" "sa_ok (a1\<lparr>sa_size := length xs\<rparr>) s2"
      "contents (a1\<lparr>sa_size := length xs\<rparr>) s2 = xs" by auto
  have "frame a s s2" using r(4,5) w(2) by (auto simp: frame_def)
  then show ?thesis using r(1) w c(2) by (auto simp: sa_CopyFrom_def)
qed

lemma sa_append_spec:
  assumes "sa_ok a s" "sa_ok b s" "apart a b"
  shows "\<exists>a' s'. sa_append False z b a s = Inr (a', s') \<and> sa_ok a' s' \<and> frame a s s' \<and>
    contents a' s' = contents a s @ contents b s"
proof (cases "sa_size b = 0")
  case True
  then show ?thesis using assms by (auto simp: sa_append_def contents_def)
next
  case False
  let ?n = "sa_size a + sa_size b"
  from sa_resize_spec[OF assms(1), of ?n z] obtain a1 s1 where
    r: "sa_resize ?n z a s = Inr (a1, s1)" "sa_ok a1 s1" "sa_size a1 = ?n" "frame a s s1"
      "contents a1 s1 = take ?n (contents a s) @ replicate (?n - sa_size a) z" "\<forall>d. sa_ok d s \<longrightarrow> apart a d \<longrightarrow> apart a1 d"
    by blast
  have b: "sa_ok b s1" "contents b s1 = contents b s" "length (contents b s) = sa_size b"
    using r(4) assms length_contents by (auto simp: frame_def)
  have c: "sa_size a + length (contents b s) \<le> sa_capacity a1" "a1\<lparr>sa_size := sa_size a + length (contents b s)\<rparr> = a1"
    using r(2,3) b(3) by (auto simp: sa_ok_def)
  have "sa_size a \<le> sa_size a1" by (simp add: r(3))
  with write_spec[OF r(2) c(1)] obtain s2 where
    w: "memwrite (sa_block a1) (sa_off a1 + sa_size a) (contents b s) s1 = Inr s2" "frame a1 s1 s2" "sa_ok a1 s2"
      "contents a1 s2 = take (sa_size a) (contents a1 s1) @ contents b s" unfolding c(2) by blast
  have "take (sa_size a) (contents a1 s1) = contents a s" using length_contents[OF assms(1)] by (simp add: r(5))
  moreover have "frame a s s2" using r(4,6) w(2) by (auto simp: frame_def)
  ultimately show ?thesis using False r(1) w memread_ok[OF b(1)] b(2) by (auto simp: sa_append_def)
qed

lemma sa_segment_contents:
  assumes "sa_ok a s" "i \<le> j" "j \<le> sa_size a"
  shows "\<exists>b. sa_segment i j a = Inr b \<and> sa_ok b s \<and> contents b s = take (j - i) (drop i (contents a s)) \<and>
    sa_capacity b = sa_size b"
proof -
  let ?b = "\<lparr>sa_block = sa_block a, sa_off = sa_off a + i, sa_size = j - i, sa_capacity = j - i\<rparr>"
  have "sa_segment i j a = Inr ?b" using assms by (simp add: sa_segment_def)
  moreover have "sa_ok ?b s" using assms by (auto simp: sa_ok_def)
  moreover have "contents ?b s = take (j - i) (drop i (contents a s))"
    using assms by (simp add: contents_def drop_take add.commute)
  ultimately show ?thesis by auto
qed

subsection \<open>Filling an array\<close>

text \<open>
  What a client that only appends needs of an array: a view as a list, and an append that extends it
  and keeps what the client relies on. \<open>fill\<close> is the loop of the constructors from a range.
\<close>

locale growable_array =
  fixes ok :: "'a \<Rightarrow> 's \<Rightarrow> bool" and view :: "'a \<Rightarrow> 's \<Rightarrow> 'v list"
    and push :: "'v \<Rightarrow> 'a \<Rightarrow> 's \<Rightarrow> ('a \<times> 's) res"
  assumes push_ok: "ok a s \<Longrightarrow> \<exists>a' s'. push v a s = Inr (a', s') \<and> ok a' s' \<and> view a' s' = view a s @ [v]"
begin

fun fill :: "'v list \<Rightarrow> 'a \<Rightarrow> 's \<Rightarrow> ('a \<times> 's) res" where
  "fill [] a s = Inr (a, s)"
| "fill (v # vs) a s = rbind (push v a s) (\<lambda>(a', s'). fill vs a' s')"

lemma fill_view: "ok a s \<Longrightarrow> \<exists>a' s'. fill vs a s = Inr (a', s') \<and> ok a' s' \<and> view a' s' = view a s @ vs"
proof (induction vs arbitrary: a s)
  case (Cons v vs)
  from push_ok[OF Cons.prems, of v] obtain a1 s1 where
    "push v a s = Inr (a1, s1)" "ok a1 s1" "view a1 s1 = view a s @ [v]" by blast
  with Cons.IH[of a1 s1] show ?case by auto
qed auto

end

interpretation sarray: growable_array sa_ok contents "sa_push_back z"
proof unfold_locales
  show "\<exists>a' s'. sa_push_back z v a s = Inr (a', s') \<and> sa_ok a' s' \<and> contents a' s' = contents a s @ [v]"
    if "sa_ok a s" for a s and v :: 'a
    using sa_push_back_spec[OF that, of z v] by blast
qed

definition empty_store :: "'v \<Rightarrow> 'v Store" where
  "empty_store junk = \<lparr>st_blocks = (\<lambda>_. []), st_next = 1, st_junk = (\<lambda>_. junk)\<rparr>"

lemma empty_SArray_ok: "sa_ok empty_SArray (empty_store junk)"
  by (simp add: sa_ok_def empty_SArray_def empty_store_def)

text \<open>
  C16: shared arrays implement lists. On an array in order, resizing pads or cuts, appending an
  element, a separate array or a whole buffer gives the list one expects, popping removes the last
  element, a segment is the corresponding sublist, and no operation disturbs an array whose memory
  is apart from the one it is applied to.
\<close>

theorem sarray_refines_list:
  assumes "sa_ok a s" "sa_ok b s" "apart a b" "i \<le> j" "j \<le> sa_size a"
  shows "(\<exists>a' s'. sa_resize n v a s = Inr (a', s') \<and> sa_ok a' s' \<and> frame a s s' \<and>
      contents a' s' = take n (contents a s) @ replicate (n - length (contents a s)) v) \<and>
    (\<exists>a' s'. sa_push_back z v a s = Inr (a', s') \<and> sa_ok a' s' \<and> frame a s s' \<and> contents a' s' = contents a s @ [v]) \<and>
    (\<exists>a' s'. sa_CopyFrom z xs a s = Inr (a', s') \<and> sa_ok a' s' \<and> frame a s s' \<and> contents a' s' = xs) \<and>
    (\<exists>a' s'. sa_append False z b a s = Inr (a', s') \<and> sa_ok a' s' \<and> frame a s s' \<and>
      contents a' s' = contents a s @ contents b s) \<and>
    sa_ok (sa_pop_back a) s \<and> contents (sa_pop_back a) s = butlast (contents a s) \<and>
    (\<exists>a'. sa_segment i j a = Inr a' \<and> sa_ok a' s \<and> contents a' s = take (j - i) (drop i (contents a s)))"
proof (intro conjI)
  note len = length_contents[OF assms(1)]
  show "\<exists>a' s'. sa_resize n v a s = Inr (a', s') \<and> sa_ok a' s' \<and> frame a s s' \<and>
      contents a' s' = take n (contents a s) @ replicate (n - length (contents a s)) v"
    using sa_resize_spec[OF assms(1), of n v] unfolding len by blast
  show "sa_ok (sa_pop_back a) s" using assms(1) by (auto simp: sa_pop_back_def sa_ok_def)
  show "contents (sa_pop_back a) s = butlast (contents a s)"
    using len by (auto simp: sa_pop_back_def contents_def butlast_conv_take min_def)
  show "\<exists>a'. sa_segment i j a = Inr a' \<and> sa_ok a' s \<and> contents a' s = take (j - i) (drop i (contents a s))"
    using sa_segment_contents[OF assms(1,4,5)] by blast
qed (rule sa_push_back_spec sa_CopyFrom_spec sa_append_spec; fact assms)+

text \<open>Two arrays of two elements in one block, as two segments of a message buffer are.\<close>

definition half_view :: "nat \<Rightarrow> SArray" where
  "half_view i = \<lparr>sa_block = 1, sa_off = 2 * i, sa_size = 2, sa_capacity = 2\<rparr>"

definition block_store :: "nat Store" where
  "block_store = \<lparr>st_blocks = (\<lambda>b. if b = 1 then [1, 2, 3, 4] else []), st_next = 2, st_junk = (\<lambda>_. 0)\<rparr>"

theorem sarray_refines_list_witness:
  "\<exists>a' s'. sa_append False 0 (half_view 1) (half_view 0) block_store = Inr (a', s') \<and>
     contents a' s' = [1, 2, 3, 4] \<and> contents (half_view 1) s' = [3, 4]"
proof -
  have h: "sa_ok (half_view 0) block_store" "sa_ok (half_view 1) block_store" "apart (half_view 0) (half_view 1)"
    by (simp_all add: sa_ok_def half_view_def block_store_def apart_def)
  have "\<exists>a' s'. sa_append False 0 (half_view 1) (half_view 0) block_store = Inr (a', s') \<and> sa_ok a' s' \<and>
      frame (half_view 0) block_store s' \<and> contents a' s' = contents (half_view 0) block_store @ contents (half_view 1) block_store"
    using sarray_refines_list[OF h, OF le_refl le0, of 0 0 0 "[]"] by (elim conjE)
  then obtain a' s' where
    "sa_append False 0 (half_view 1) (half_view 0) block_store = Inr (a', s')" "frame (half_view 0) block_store s'"
    "contents a' s' = contents (half_view 0) block_store @ contents (half_view 1) block_store" by blast
  then show ?thesis using h(2,3) by (auto simp: frame_def contents_def half_view_def block_store_def)
qed


definition six_view :: SArray where
  "six_view = \<lparr>sa_block = 1, sa_off = 0, sa_size = 6, sa_capacity = 6\<rparr>"


end
