(* ===== verification/Slicers.thy ===== *)
theory Slicers
  imports Sarrays
begin

text \<open>
  Key-value lists and their partition among servers (\<^verbatim>\<open>include/ps/kv_app.h\<close>): \<open>KVPairs\<close> and
  the slicer that \<open>KVWorker\<close> and \<open>KVServer\<close> share, word for word. Arrays are lists of
  their elements here; \<open>segment_contents\<close> relates a segment of a list to one of a shared array.
\<close>

record 'v KVPairs =
  kv_keys :: "key list"
  kv_vals :: "'v list"
  kv_lens :: "int list"
  kv_priority :: int

definition empty_KVPairs :: "'v KVPairs" where
  "empty_KVPairs = \<lparr>kv_keys = [], kv_vals = [], kv_lens = [], kv_priority = 0\<rparr>"

subsection \<open>Searching sorted arrays\<close>

text \<open>
  \<open>std::lower_bound\<close>: the first position whose element is not below \<open>x\<close>. The range has to be
  partitioned with respect to that; the behaviour is undefined otherwise.
\<close>

definition lower_bound :: "key list \<Rightarrow> key \<Rightarrow> nat res" where
  "lower_bound xs x =
     (let n = length (takeWhile (\<lambda>k. k < x) xs) in
      defined (\<forall>k \<in> set (drop n xs). x \<le> k) ''lower_bound'' (Inr n))"

definition FindRange :: "key list \<Rightarrow> key \<Rightarrow> key \<Rightarrow> Range res" where
  "FindRange arr lower upper =
     (if upper \<le> lower then Inr (mk_Range 0 0)
      else rbind (lower_bound arr lower) (\<lambda>lb. rbind (lower_bound arr upper) (\<lambda>ub.
        Inr (mk_Range (of_nat lb) (of_nat ub)))))"

definition segment :: "nat \<Rightarrow> nat \<Rightarrow> 'v list \<Rightarrow> 'v list res" where
  "segment i j xs = chk (i \<le> j) ''end >= begin'' (chk (j \<le> length xs) ''end <= size()''
     (Inr (take (j - i) (drop i xs))))"

subsection \<open>The slicer\<close>

text \<open>The first loop: the position where each server's keys begin.\<close>

fun positions_loop :: "Range option \<Rightarrow> Range list \<Rightarrow> key list \<Rightarrow> nat \<Rightarrow> nat list res" where
  "positions_loop prev [] rest p = Inr []"
| "positions_loop prev (r # rs) rest p =
     chk (case prev of None \<Rightarrow> True | Some r0 \<Rightarrow> range_end r0 = range_begin r) ''ranges[i-1].end() == ranges[i].begin()''
       (rbind (lower_bound rest (range_end r)) (\<lambda>len.
          rbind (positions_loop (Some r) rs (drop len rest) (p + len)) (\<lambda>ps. Inr ((p + len) # ps))))"

definition slice_positions :: "Range list \<Rightarrow> key list \<Rightarrow> nat list res" where
  "slice_positions ranges keys =
     (case ranges of
        [] \<Rightarrow> Inr [0]
      | r # _ \<Rightarrow> rbind (lower_bound keys (range_begin r)) (\<lambda>p.
          rbind (positions_loop None ranges (drop p keys) p) (\<lambda>ps. Inr (p # ps))))"

text \<open>
  The second loop: from one position to the next, the keys, their lengths and their values. Lengths
  are added to a \<open>size_t\<close>.
\<close>

definition add_lens :: "nat \<Rightarrow> int list \<Rightarrow> nat" where
  "add_lens n ls = nat ((int n + sum_list ls) mod 2 ^ 64)"

fun slice_loop :: "'v KVPairs \<Rightarrow> nat \<Rightarrow> nat list \<Rightarrow> nat \<Rightarrow> (bool \<times> 'v KVPairs) list res" where
  "slice_loop snd_kv k (p # p' # ps) val_begin =
     (if p' = p then rbind (slice_loop snd_kv k (p' # ps) val_begin) (\<lambda>r. Inr ((False, empty_KVPairs) # r))
      else rbind (segment p p' (kv_keys snd_kv)) (\<lambda>ks.
        if kv_lens snd_kv \<noteq> [] then
          rbind (segment p p' (kv_lens snd_kv)) (\<lambda>ls.
          let val_end = add_lens val_begin ls in
          rbind (segment val_begin val_end (kv_vals snd_kv)) (\<lambda>vs.
          rbind (slice_loop snd_kv k (p' # ps) val_end) (\<lambda>r.
            Inr ((True, \<lparr>kv_keys = ks, kv_vals = vs, kv_lens = ls, kv_priority = 0\<rparr>) # r))))
        else
          rbind (segment (p * k) (p' * k) (kv_vals snd_kv)) (\<lambda>vs.
          rbind (slice_loop snd_kv k (p' # ps) val_begin) (\<lambda>r.
            Inr ((True, \<lparr>kv_keys = ks, kv_vals = vs, kv_lens = [], kv_priority = 0\<rparr>) # r)))))"
| "slice_loop snd_kv k _ val_begin = Inr []"

definition DefaultSlicer :: "'v KVPairs \<Rightarrow> Range list \<Rightarrow> (bool \<times> 'v KVPairs) list res" where
  "DefaultSlicer snd_kv ranges =
     rbind (slice_positions ranges (kv_keys snd_kv)) (\<lambda>pos.
       chk (last pos = length (kv_keys snd_kv)) ''pos[n] == send.keys.size()''
        (if kv_keys snd_kv = [] then Inr (map (\<lambda>_. (False, empty_KVPairs)) ranges)
         else if kv_lens snd_kv = [] then
           (let k = length (kv_vals snd_kv) div length (kv_keys snd_kv) in
            chk (k * length (kv_keys snd_kv) = length (kv_vals snd_kv)) ''k * send.keys.size() == send.vals.size()''
              (slice_loop snd_kv k pos 0))
         else chk (length (kv_keys snd_kv) = length (kv_lens snd_kv)) ''send.keys.size() == send.lens.size()''
              (slice_loop snd_kv 0 pos 0)))"

subsection \<open>Positions in sorted arrays\<close>

definition below :: "key \<Rightarrow> key list \<Rightarrow> nat" where
  "below x ks = length (takeWhile (\<lambda>k. k < x) ks)"

lemma sorted_takeWhile_filter: "sorted ks \<Longrightarrow> takeWhile (\<lambda>k. k < x) ks = filter (\<lambda>k. k < x) ks"
  by (induction ks) (auto simp: filter_empty_conv leD intro!: sym[OF filter_False])

lemma sorted_drop_below: "sorted ks \<Longrightarrow> drop (below x ks) ks = filter (\<lambda>k. x \<le> k) ks"
  unfolding below_def dropWhile_eq_drop[symmetric]
  by (induction ks) (auto simp: not_less not_le intro!: sym[OF filter_True])

lemma lower_bound_sorted: "sorted ks \<Longrightarrow> lower_bound ks x = Inr (below x ks)"
  using sorted_drop_below[of ks x] by (simp add: lower_bound_def below_def Let_def)

lemma below_le: "below x ks \<le> length ks"
  by (simp add: below_def length_takeWhile_le)

lemma below_eq_filter: "sorted ks \<Longrightarrow> below x ks = length (filter (\<lambda>k. k < x) ks)"
  by (simp add: below_def sorted_takeWhile_filter)

lemma filter_less_split:
  assumes "b \<le> (e :: key)"
  shows "length (filter (\<lambda>k. k < e) ks) = length (filter (\<lambda>k. k < b) ks) + length (filter (\<lambda>k. b \<le> k \<and> k < e) ks)"
  using assms by (induction ks) auto

lemma sorted_drop_filter: "sorted ks \<Longrightarrow> sorted (filter (\<lambda>k. (b :: key) \<le> k) ks)"
  by (rule sorted_wrt_filter)

lemma below_step:
  assumes "sorted ks" "b \<le> e"
  shows "below b ks + below e (drop (below b ks) ks) = below e ks"
proof -
  have "below e (drop (below b ks) ks) = length (filter (\<lambda>k. b \<le> k \<and> k < e) ks)"
    using assms(1) by (simp add: sorted_drop_below below_eq_filter[OF sorted_drop_filter] conj_commute)
  then show ?thesis using filter_less_split[OF assms(2), of ks] by (simp add: below_eq_filter[OF assms(1)])
qed

lemma below_mono: "sorted ks \<Longrightarrow> b \<le> e \<Longrightarrow> below b ks \<le> below e ks"
  using below_step[of ks b e] by linarith

text \<open>The keys between two positions are those between two bounds.\<close>

lemma take_between:
  assumes "sorted ks" "b \<le> e"
  shows "take (below e ks - below b ks) (drop (below b ks) ks) = filter (\<lambda>k. b \<le> k \<and> k < e) ks"
proof -
  let ?r = "drop (below b ks) ks"
  have r: "?r = filter (\<lambda>k. b \<le> k) ks" "sorted ?r"
    using assms(1) by (simp_all add: sorted_drop_below sorted_drop_filter)
  have "below e ks - below b ks = below e ?r" using below_step[OF assms] by linarith
  moreover have "take (below e ?r) ?r = filter (\<lambda>k. k < e) ?r"
    using takeWhile_eq_take[of "\<lambda>k. k < e" ?r] sorted_takeWhile_filter[OF r(2), of e] below_def[of e ?r] by argo
  ultimately show ?thesis by (simp add: r(1) conj_commute)
qed

text \<open>Ranges that follow each other from a first key on.\<close>

fun tiled :: "key \<Rightarrow> Range list \<Rightarrow> bool" where
  "tiled b [] = True"
| "tiled b (r # rs) = (range_begin r = b \<and> b \<le> range_end r \<and> tiled (range_end r) rs)"

lemma positions_loop_tiled:
  assumes "sorted ks" "tiled b rs" "case prev of None \<Rightarrow> True | Some r \<Rightarrow> range_end r = b"
  shows "positions_loop prev rs (drop (below b ks) ks) (below b ks) = Inr (map (\<lambda>r. below (range_end r) ks) rs)"
  using assms
proof (induction rs arbitrary: b prev)
  case (Cons r rs)
  let ?e = "range_end r"
  have b: "range_begin r = b" "b \<le> ?e" "tiled ?e rs" using Cons.prems by auto
  have lb: "lower_bound (drop (below b ks) ks) ?e = Inr (below ?e (drop (below b ks) ks))"
    using Cons.prems(1) by (intro lower_bound_sorted) (simp add: sorted_wrt_drop)
  have step: "below b ks + below ?e (drop (below b ks) ks) = below ?e ks" using below_step[OF Cons.prems(1) b(2)] .
  have "(case prev of None \<Rightarrow> True | Some r0 \<Rightarrow> range_end r0 = range_begin r)" using Cons.prems(3) b(1) by (cases prev) auto
  then show ?case using Cons.IH[OF Cons.prems(1) b(3), of "Some r"] lb step by (simp add: add.commute)
qed simp

lemma slice_positions_tiled:
  assumes "sorted ks" "tiled b rs" "rs \<noteq> []"
  shows "slice_positions rs ks = Inr (below b ks # map (\<lambda>r. below (range_end r) ks) rs)"
  using assms positions_loop_tiled[OF assms(1,2), of None] lower_bound_sorted[OF assms(1)]
  by (cases rs) (auto simp: slice_positions_def)

subsection \<open>Slices\<close>

text \<open>Where the values of the key at a position begin, and the slice between two positions.\<close>

definition val_off :: "'v KVPairs \<Rightarrow> nat \<Rightarrow> nat \<Rightarrow> nat" where
  "val_off kv k p = (if kv_lens kv = [] then p * k else nat (sum_list (take p (kv_lens kv))))"

definition between :: "('a \<Rightarrow> nat) \<Rightarrow> 'a \<Rightarrow> 'a \<Rightarrow> 'v list \<Rightarrow> 'v list" where
  "between f p q xs = take (f q - f p) (drop (f p) xs)"

definition kv_slice :: "'v KVPairs \<Rightarrow> nat \<Rightarrow> nat \<Rightarrow> nat \<Rightarrow> 'v KVPairs" where
  "kv_slice kv k p q = \<lparr>kv_keys = between id p q (kv_keys kv), kv_vals = between (val_off kv k) p q (kv_vals kv),
     kv_lens = between id p q (kv_lens kv), kv_priority = 0\<rparr>"

lemma between_same [simp]: "between f p p xs = []"
  by (simp add: between_def)

lemma between_Nil [simp]: "between f p q [] = []"
  by (simp add: between_def)

lemma kv_slice_same [simp]: "kv_slice kv k p p = empty_KVPairs"
  by (simp add: kv_slice_def empty_KVPairs_def)

lemma take_drop_append:
  assumes "a \<le> b" "b \<le> (c :: nat)"
  shows "take (c - a) (drop a xs) = take (b - a) (drop a xs) @ take (c - b) (drop b xs)"
proof -
  have "take (c - a) (drop a xs) = take ((b - a) + (c - b)) (drop a xs)" using assms by simp
  also have "\<dots> = take (b - a) (drop a xs) @ take (c - b) (drop (b - a) (drop a xs))" by (rule take_add)
  finally show ?thesis using assms by simp
qed

lemma concat_between:
  assumes "sorted (map f (p # ps))"
  shows "concat (map2 (\<lambda>p q. between f p q xs) (p # ps) ps) = between f p (last (p # ps)) xs"
  using assms
proof (induction ps arbitrary: p)
  case (Cons q ps)
  let ?l = "last (q # ps)"
  have le: "f p \<le> f q" "f q \<le> f ?l" using Cons.prems by auto
  have "between f p ?l xs = between f p q xs @ between f q ?l xs"
    unfolding between_def by (rule take_drop_append[OF le])
  then show ?case using Cons by simp
qed (simp add: between_def)

text \<open>A key-value list whose values fit its keys.\<close>

definition kv_wf :: "'v KVPairs \<Rightarrow> bool" where
  "kv_wf kv \<longleftrightarrow> length (kv_vals kv) < 2 ^ 64 \<and>
     (if kv_lens kv = [] then length (kv_keys kv) dvd length (kv_vals kv)
      else length (kv_lens kv) = length (kv_keys kv) \<and> (\<forall>l \<in> set (kv_lens kv). 0 \<le> l) \<and>
        sum_list (kv_lens kv) = int (length (kv_vals kv)))"

definition val_width :: "'v KVPairs \<Rightarrow> nat" where
  "val_width kv = (if kv_lens kv = [] then length (kv_vals kv) div length (kv_keys kv) else 0)"

lemma sum_list_take_mono:
  assumes "\<forall>l \<in> set ls. (0 :: int) \<le> l" "p \<le> q"
  shows "0 \<le> sum_list (take p ls)" "sum_list (take q ls) = sum_list (take p ls) + sum_list (take (q - p) (drop p ls))"
    "0 \<le> sum_list (take (q - p) (drop p ls))"
proof -
  have nonneg: "0 \<le> sum_list xs" if "set xs \<subseteq> set ls" for xs using assms(1) that by (intro sum_list_nonneg) auto
  show "0 \<le> sum_list (take p ls)" by (rule nonneg) (rule set_take_subset)
  show "0 \<le> sum_list (take (q - p) (drop p ls))"
    using set_take_subset[of "q - p" "drop p ls"] set_drop_subset[of p ls] by (intro nonneg) blast
  have "take q ls = take p ls @ take (q - p) (drop p ls)" using take_drop_append[of 0 p q ls] assms(2) by simp
  then show "sum_list (take q ls) = sum_list (take p ls) + sum_list (take (q - p) (drop p ls))" by simp
qed

lemma val_off_mono:
  assumes "kv_wf kv" "p \<le> q"
  shows "val_off kv k p \<le> val_off kv k q"
  using assms sum_list_take_mono[of "kv_lens kv" p q] by (auto simp: kv_wf_def val_off_def split: if_splits)

lemma val_off_end:
  assumes "kv_wf kv" "kv_keys kv \<noteq> []"
  shows "val_off kv (val_width kv) (length (kv_keys kv)) = length (kv_vals kv)"
  using assms by (auto simp: kv_wf_def val_off_def val_width_def split: if_splits)

lemma val_off_le:
  assumes "kv_wf kv" "p \<le> length (kv_keys kv)"
  shows "val_off kv (val_width kv) p \<le> length (kv_vals kv)"
proof (cases "kv_keys kv = []")
  case True
  then have "p = 0" using assms(2) by simp
  then show ?thesis by (simp add: val_off_def)
next
  case False
  then show ?thesis using val_off_mono[OF assms, of "val_width kv"] val_off_end[OF assms(1) False] by simp
qed

text \<open>The running end of the values never wraps around and is the offset of the next position.\<close>

lemma add_lens_off:
  assumes "kv_wf kv" "kv_lens kv \<noteq> []" "p \<le> q" "q \<le> length (kv_keys kv)"
  shows "add_lens (val_off kv k p) (take (q - p) (drop p (kv_lens kv))) = val_off kv k q"
proof -
  have nonneg: "\<forall>l \<in> set (kv_lens kv). 0 \<le> l" and len: "length (kv_lens kv) = length (kv_keys kv)"
    and total: "sum_list (kv_lens kv) = int (length (kv_vals kv))" "length (kv_vals kv) < 2 ^ 64"
    using assms(1,2) by (auto simp: kv_wf_def)
  note s = sum_list_take_mono[OF nonneg assms(3)]
  have "sum_list (take q (kv_lens kv)) \<le> sum_list (kv_lens kv)"
    using sum_list_take_mono(2,3)[OF nonneg assms(4)] len by simp
  then have "sum_list (take q (kv_lens kv)) < 2 ^ 64" using total by simp
  then show ?thesis using s assms(2) by (simp add: add_lens_def val_off_def)
qed

lemma slice_loop_slices:
  assumes "kv_wf kv" "kv_keys kv \<noteq> []" "sorted (p # ps)" "last (p # ps) \<le> length (kv_keys kv)"
    and "kv_lens kv \<noteq> [] \<longrightarrow> vb = val_off kv (val_width kv) p"
  shows "slice_loop kv (val_width kv) (p # ps) vb = Inr (map2 (\<lambda>p q. (p \<noteq> q, kv_slice kv (val_width kv) p q)) (p # ps) ps)"
  using assms(3-5)
proof (induction ps arbitrary: p vb)
  case (Cons q ps)
  let ?k = "val_width kv"
  have pq: "p \<le> q" "sorted (q # ps)" "last (q # ps) \<le> length (kv_keys kv)" using Cons.prems by auto
  have "q \<le> last (q # ps)" using pq(2) last_in_set[of ps] by auto
  then have q: "q \<le> length (kv_keys kv)" using pq(3) by linarith
  have off: "val_off kv ?k p \<le> val_off kv ?k q" "val_off kv ?k q \<le> length (kv_vals kv)"
    using val_off_mono[OF assms(1) pq(1)] val_off_le[OF assms(1) q] by auto
  have keys: "segment p q (kv_keys kv) = Inr (between id p q (kv_keys kv))" using pq(1) q by (simp add: segment_def between_def)
  have vals: "segment (val_off kv ?k p) (val_off kv ?k q) (kv_vals kv) = Inr (between (val_off kv ?k) p q (kv_vals kv))"
    using off by (simp add: segment_def between_def)
  have IH: "slice_loop kv ?k (q # ps) v = Inr (map2 (\<lambda>p q. (p \<noteq> q, kv_slice kv ?k p q)) (q # ps) ps)"
    if "kv_lens kv \<noteq> [] \<longrightarrow> v = val_off kv ?k q" for v
    using Cons.IH[OF pq(2,3) that] .
  consider "q = p" | "q \<noteq> p" "kv_lens kv = []" | "q \<noteq> p" "kv_lens kv \<noteq> []" by blast
  then show ?case
  proof cases
    case 1
    then show ?thesis using IH[of vb] Cons.prems(3) by simp
  next
    case 2
    then show ?thesis using IH[of vb] keys vals
      by (simp add: kv_slice_def[of kv ?k p q] val_off_def[of kv ?k p] val_off_def[of kv ?k q] between_def[of _ _ _ "kv_lens kv"])
  next
    case 3
    note False = 3(2)
    have lens: "segment p q (kv_lens kv) = Inr (between id p q (kv_lens kv))" and
      "length (kv_lens kv) = length (kv_keys kv)"
      using pq(1) q assms(1) False by (auto simp: segment_def between_def kv_wf_def)
    moreover have "add_lens (val_off kv ?k p) (between id p q (kv_lens kv)) = val_off kv ?k q"
      using add_lens_off[OF assms(1) False pq(1) q] by (simp add: between_def)
    ultimately show ?thesis using IH[of "val_off kv ?k q"] keys vals 3(1) False Cons.prems(3)
      by (simp add: kv_slice_def[of kv ?k p q] Let_def)
  qed
qed simp

text \<open>Keys that all lie within tiled ranges.\<close>

definition keys_covered :: "key \<Rightarrow> Range list \<Rightarrow> key list \<Rightarrow> bool" where
  "keys_covered b rs ks \<longleftrightarrow> rs \<noteq> [] \<and> tiled b rs \<and> (\<forall>k \<in> set ks. b \<le> k \<and> k < range_end (last rs))"

lemma tiled_nth: "tiled b rs \<Longrightarrow> i < length rs \<Longrightarrow> range_begin (rs ! i) \<le> range_end (rs ! i)"
  by (induction rs arbitrary: b i) (auto simp: nth_Cons')

lemma tiled_begin:
  "tiled b rs \<Longrightarrow> i < length rs \<Longrightarrow> range_begin (rs ! i) = (b # map range_end rs) ! i"
proof (induction rs arbitrary: b i)
  case (Cons r rs)
  then show ?case by (cases i) auto
qed simp

lemma tiled_sorted: "tiled b rs \<Longrightarrow> sorted (b # map range_end rs)"
  by (induction rs arbitrary: b) (auto intro: order_trans)

lemma sorted_below:
  assumes "sorted ks" "tiled b rs"
  shows "sorted (below b ks # map (\<lambda>r. below (range_end r) ks) rs)"
proof -
  have "sorted (map (\<lambda>x. below x ks) (b # map range_end rs))"
    using tiled_sorted[OF assms(2)] by (rule sorted_map_mono) (auto intro!: monoI mono_onI below_mono[OF assms(1)])
  then show ?thesis by (simp add: comp_def)
qed

lemma below_none: "(\<forall>k \<in> set ks. b \<le> k) \<Longrightarrow> below b ks = 0"
  unfolding below_def by (cases ks) (auto simp: not_less)

lemma below_all: "(\<forall>k \<in> set ks. k < b) \<Longrightarrow> below b ks = length ks"
  unfolding below_def by (simp add: takeWhile_eq_all_conv[THEN iffD2])

text \<open>What the slicer returns for sorted keys that the ranges cover.\<close>

definition slice_bounds :: "key list \<Rightarrow> Range list \<Rightarrow> nat list" where
  "slice_bounds ks rs = 0 # map (\<lambda>r. below (range_end r) ks) rs"

lemma DefaultSlicer_slices:
  assumes "sorted (kv_keys kv)" "keys_covered b rs (kv_keys kv)" "kv_wf kv"
  shows "DefaultSlicer kv rs = Inr (map2 (\<lambda>p q. (p \<noteq> q, kv_slice kv (val_width kv) p q))
    (slice_bounds (kv_keys kv) rs) (tl (slice_bounds (kv_keys kv) rs)))"
    and "sorted (slice_bounds (kv_keys kv) rs)" "last (slice_bounds (kv_keys kv) rs) = length (kv_keys kv)"
proof -
  let ?ks = "kv_keys kv" and ?ps = "map (\<lambda>r. below (range_end r) (kv_keys kv)) rs"
  have rs: "rs \<noteq> []" "tiled b rs" "\<forall>k \<in> set ?ks. b \<le> k" "\<forall>k \<in> set ?ks. k < range_end (last rs)"
    using assms(2) by (auto simp: keys_covered_def)
  have zero: "below b ?ks = 0" using below_none[OF rs(3)] .
  have pos: "slice_positions rs ?ks = Inr (0 # ?ps)" using slice_positions_tiled[OF assms(1) rs(2,1)] zero by simp
  show sorted: "sorted (slice_bounds ?ks rs)" using sorted_below[OF assms(1) rs(2)] zero by (simp add: slice_bounds_def)
  show last: "last (slice_bounds ?ks rs) = length ?ks"
    using rs(1) below_all[OF rs(4)] by (simp add: slice_bounds_def last_map)
  show "DefaultSlicer kv rs = Inr (map2 (\<lambda>p q. (p \<noteq> q, kv_slice kv (val_width kv) p q))
    (slice_bounds ?ks rs) (tl (slice_bounds ?ks rs)))"
  proof (cases "?ks = []")
    case True
    then have ps: "?ps = map (\<lambda>_. 0) rs" by (simp add: below_def)
    have "map2 (\<lambda>p q. (p \<noteq> q, kv_slice kv w p q)) (0 # map (\<lambda>_. 0) xs) (map (\<lambda>_. 0) xs) =
        map (\<lambda>_. (False, empty_KVPairs)) xs" for w and xs :: "Range list" by (induction xs) auto
    then show ?thesis using True pos last unfolding DefaultSlicer_def slice_bounds_def ps by simp
  next
    case False
    have "slice_loop kv (val_width kv) (0 # ?ps) 0 = Inr (map2 (\<lambda>p q. (p \<noteq> q, kv_slice kv (val_width kv) p q)) (0 # ?ps) ?ps)"
      using slice_loop_slices[OF assms(3) False, of 0 ?ps 0] sorted last by (simp add: slice_bounds_def val_off_def)
    then show ?thesis using False pos last assms(3)
      by (auto simp: DefaultSlicer_def slice_bounds_def val_width_def kv_wf_def Let_def)
  qed
qed

lemma length_slices: "length (map2 f (x # xs) xs) = length xs"
  by simp

lemma slices_concat:
  assumes "sorted (slice_bounds (kv_keys kv) rs)" "last (slice_bounds (kv_keys kv) rs) = length (kv_keys kv)" "kv_wf kv"
    and "ps = slice_bounds (kv_keys kv) rs" "sl = map2 (\<lambda>p q. (p \<noteq> q, kv_slice kv (val_width kv) p q)) ps (tl ps)"
  shows "concat (map (kv_keys \<circ> snd) sl) = kv_keys kv" "concat (map (kv_vals \<circ> snd) sl) = kv_vals kv"
    "concat (map (kv_lens \<circ> snd) sl) = kv_lens kv"
proof -
  let ?k = "val_width kv" and ?n = "length (kv_keys kv)"
  obtain qs where ps: "ps = 0 # qs" "sorted (0 # qs)" "last (0 # qs) = ?n" using assms(1,2,4) by (simp add: slice_bounds_def)
  have sl: "map (f \<circ> snd) sl = map2 (\<lambda>p q. f (kv_slice kv ?k p q)) (0 # qs) qs" for f
    using assms(5) ps(1) by (simp add: comp_def case_prod_unfold)
  have id: "sorted (map id (0 # qs))" using ps(2) by simp
  show "concat (map (kv_keys \<circ> snd) sl) = kv_keys kv"
    unfolding sl kv_slice_def using concat_between[OF id, of "kv_keys kv"] ps(3) by (simp add: between_def)
  show "concat (map (kv_lens \<circ> snd) sl) = kv_lens kv"
    unfolding sl kv_slice_def using concat_between[OF id, of "kv_lens kv"] ps(3) assms(3)
    by (auto simp: between_def kv_wf_def split: if_splits)
  have "sorted (map (val_off kv ?k) (0 # qs))"
    using ps(2) by (rule sorted_map_mono) (auto intro!: mono_onI val_off_mono[OF assms(3)])
  from concat_between[OF this, of "kv_vals kv"] ps(3)
  have vals: "concat (map (kv_vals \<circ> snd) sl) = between (val_off kv ?k) 0 ?n (kv_vals kv)"
    unfolding sl kv_slice_def by simp
  show "concat (map (kv_vals \<circ> snd) sl) = kv_vals kv"
  proof (cases "kv_keys kv = []")
    case True
    then have "kv_vals kv = []" using assms(3) by (auto simp: kv_wf_def split: if_splits)
    then show ?thesis using vals by simp
  next
    case False
    then show ?thesis using vals val_off_end[OF assms(3) False] by (simp add: between_def val_off_def[of kv ?k 0])
  qed
qed

subsection \<open>The ranges of the servers\<close>

definition key_ranges :: "int \<Rightarrow> Range list" where
  "key_ranges n = map (\<lambda>i. mk_Range (kMaxKey div word_of_int n * of_nat i) (kMaxKey div word_of_int n * of_nat (i + 1))) [0..<nat n]"

text \<open>The post office has not cached its ranges yet, or has cached those it would compute.\<close>

definition ranges_ready :: "Postoffice \<Rightarrow> bool \<Rightarrow> bool" where
  "ranges_ready po g \<longleftrightarrow> (if g then po_server_key_ranges_global po else po_server_key_ranges po) \<in> {[], key_ranges (num_servers_of po g)}"

lemma GetServerKeyRanges_ready:
  assumes "ranges_ready po g"
  shows "snd (GetServerKeyRanges po g) = key_ranges (num_servers_of po g)" "ranges_ready (fst (GetServerKeyRanges po g)) g"
    "num_servers_of (fst (GetServerKeyRanges po g)) g = num_servers_of po g"
  using assms by (auto simp: ranges_ready_def GetServerKeyRanges_def key_ranges_def num_servers_of_def Let_def)

lemma tiled_if_nth:
  "(\<And>i. i < length rs \<Longrightarrow> range_begin (rs ! i) = (b # map range_end rs) ! i \<and> range_begin (rs ! i) \<le> range_end (rs ! i)) \<Longrightarrow> tiled b rs"
proof (induction rs arbitrary: b)
  case (Cons r rs)
  have "range_begin (rs ! i) = (range_end r # map range_end rs) ! i \<and> range_begin (rs ! i) \<le> range_end (rs ! i)"
    if "i < length rs" for i using Cons.prems[of "Suc i"] that unfolding nth_Cons_Suc by auto
  from Cons.IH[OF this] Cons.prems[of 0] show ?case by auto
qed simp

text \<open>The number of keys that have a server.\<close>

definition keys_served :: "int \<Rightarrow> nat" where
  "keys_served n = (2 ^ 64 - 1) div nat n * nat n"

lemma key_ranges_tiled:
  assumes "0 < n" "n < 2 ^ 31"
  shows "tiled 0 (key_ranges n)" "unat (range_end (last (key_ranges n))) = keys_served n" "length (key_ranges n) = nat n"
proof -
  have nth: "key_ranges n ! i = mk_Range (kMaxKey div word_of_int n * of_nat i) (kMaxKey div word_of_int n * of_nat (i + 1))"
    if "i < nat n" for i using that by (simp add: key_ranges_def)
  show len: "length (key_ranges n) = nat n" by (simp add: key_ranges_def)
  have bound: "unat (kMaxKey div word_of_int n * of_nat i) = (2 ^ 64 - 1) div nat n * i" if "i \<le> nat n" for i
    using unat_range_bound[OF assms that] .
  have le: "range_begin (key_ranges n ! i) \<le> range_end (key_ranges n ! i)" if "i < nat n" for i
    unfolding word_le_nat_alt nth[OF that] range_sel
    using bound[of i] bound[of "i + 1"] that by simp
  show "tiled 0 (key_ranges n)"
  proof (rule tiled_if_nth)
    fix i assume i: "i < length (key_ranges n)"
    then show "range_begin (key_ranges n ! i) = (0 # map range_end (key_ranges n)) ! i \<and>
        range_begin (key_ranges n ! i) \<le> range_end (key_ranges n ! i)"
      using le[of i] len by (intro conjI; cases i) (simp_all add: nth)
  qed
  have "last (key_ranges n) = key_ranges n ! (nat n - 1)" using assms(1) len by (subst last_conv_nth) auto
  then show "unat (range_end (last (key_ranges n))) = keys_served n"
    using bound[of "nat n"] assms(1) nth[of "nat n - 1"] by (simp add: keys_served_def)
qed

lemma key_ranges_cover:
  assumes "0 < n" "n < 2 ^ 31"
  shows "keys_covered 0 (key_ranges n) ks \<longleftrightarrow> (\<forall>k \<in> set ks. unat k < keys_served n)"
  using key_ranges_tiled[OF assms] assms(1) by (auto simp: keys_covered_def word_less_nat_alt)

text \<open>Everything about the slices of keys that all have a server.\<close>

lemma slices_facts:
  assumes "0 < n" "n < 2 ^ 31" "rs = key_ranges n" "sorted (kv_keys kv)" "kv_wf kv" "\<forall>k \<in> set (kv_keys kv). unat k < keys_served n"
  shows "\<exists>sl. DefaultSlicer kv rs = Inr sl \<and> length sl = nat n \<and>
    concat (map (kv_keys \<circ> snd) sl) = kv_keys kv \<and> concat (map (kv_vals \<circ> snd) sl) = kv_vals kv \<and>
    concat (map (kv_lens \<circ> snd) sl) = kv_lens kv \<and>
    (\<forall>i < length sl. kv_keys (snd (sl ! i)) = filter (\<lambda>k. range_begin (rs ! i) \<le> k \<and> k < range_end (rs ! i)) (kv_keys kv) \<and>
      (fst (sl ! i) \<longleftrightarrow> kv_keys (snd (sl ! i)) \<noteq> []))"
proof -
  let ?ks = "kv_keys kv"
  note tiled = key_ranges_tiled[OF assms(1,2), folded assms(3)] and cover = key_ranges_cover[OF assms(1,2), folded assms(3)]
  have cov: "keys_covered 0 rs ?ks" using assms(6) by (simp add: cover)
  define ps where "ps = slice_bounds ?ks rs"
  define sl where "sl = map2 (\<lambda>p q. (p \<noteq> q, kv_slice kv (val_width kv) p q)) ps (tl ps)"
  note ds = DefaultSlicer_slices[OF assms(4) cov assms(5), folded ps_def]
  have len: "length sl = length rs" by (simp add: sl_def ps_def slice_bounds_def)
  have each: "kv_keys (snd (sl ! i)) = filter (\<lambda>k. range_begin (rs ! i) \<le> k \<and> k < range_end (rs ! i)) ?ks \<and>
      (fst (sl ! i) \<longleftrightarrow> kv_keys (snd (sl ! i)) \<noteq> [])" if i: "i < length sl" for i
  proof -
    have b: "ps ! i = below (range_begin (rs ! i)) ?ks" "ps ! Suc i = below (range_end (rs ! i)) ?ks"
      using i len tiled_begin[OF tiled(1), of i]
      by (cases i; simp add: ps_def slice_bounds_def below_none)+
    have "sl ! i = (ps ! i \<noteq> ps ! Suc i, kv_slice kv (val_width kv) (ps ! i) (ps ! Suc i))"
      using i by (simp add: sl_def ps_def slice_bounds_def nth_tl)
    moreover have "ps ! i \<le> ps ! Suc i" "ps ! Suc i \<le> length ?ks"
      using b below_mono[OF assms(4) tiled_nth[OF tiled(1)]] i len below_le by auto
    ultimately show ?thesis using take_between[OF assms(4) tiled_nth[OF tiled(1)], of i] i len b
      by (auto simp: kv_slice_def between_def)
  qed
  show ?thesis using ds(1) sl_def slices_concat[OF ds(2)[unfolded ps_def] ds(3)[unfolded ps_def] assms(5) ps_def sl_def]
    len tiled(3) each by auto
qed

lemma slices_unsent:
  assumes "0 < n" "n < 2 ^ 31" "sorted (kv_keys kv)" "kv_wf kv" "\<forall>k \<in> set (kv_keys kv). unat k < keys_served n"
    and "DefaultSlicer kv (key_ranges n) = Inr sl" "x \<in> set sl" "\<not> fst x"
  shows "snd x = empty_KVPairs"
proof -
  have "keys_covered 0 (key_ranges n) (kv_keys kv)" using key_ranges_cover[OF assms(1,2)] assms(5) by simp
  from DefaultSlicer_slices(1)[OF assms(3) this assms(4)] assms(6,7)
  obtain p q where "x = (p \<noteq> q, kv_slice kv (val_width kv) p q)" by auto
  then show ?thesis using assms(8) by auto
qed

text \<open>
  C15: the slicer loses nothing. A key-value list with sorted keys that all have a server is cut into
  one slice per server: server \<open>i\<close> gets exactly the keys of its range, a server is sent to iff its
  slice has keys, and the slices' keys, values and lengths put together are the list's. If some key
  is beyond the last range, the slicer stops the process instead of dropping it.
\<close>

theorem slices_partition:
  assumes "ranges_ready po g" "0 < num_servers_of po g" "num_servers_of po g < 2 ^ 31"
    and "rs = snd (GetServerKeyRanges po g)" "sorted (kv_keys kv)" "kv_wf kv"
  shows "if \<forall>k \<in> set (kv_keys kv). unat k < keys_served (num_servers_of po g)
    then \<exists>sl. DefaultSlicer kv rs = Inr sl \<and> length sl = nat (num_servers_of po g) \<and>
      concat (map (kv_keys \<circ> snd) sl) = kv_keys kv \<and> concat (map (kv_vals \<circ> snd) sl) = kv_vals kv \<and>
      concat (map (kv_lens \<circ> snd) sl) = kv_lens kv \<and>
      (\<forall>i < length sl. kv_keys (snd (sl ! i)) = filter (\<lambda>k. range_begin (rs ! i) \<le> k \<and> k < range_end (rs ! i)) (kv_keys kv) \<and>
        (fst (sl ! i) \<longleftrightarrow> kv_keys (snd (sl ! i)) \<noteq> []))
    else DefaultSlicer kv rs = Inl (Check ''pos[n] == send.keys.size()'')"
proof -
  let ?n = "num_servers_of po g" and ?ks = "kv_keys kv"
  have rs: "rs = key_ranges ?n" using assms(1,4) by (simp add: GetServerKeyRanges_ready)
  note tiled = key_ranges_tiled[OF assms(2,3), folded rs]
  have ne: "rs \<noteq> []" using tiled(3) assms(2) by auto
  show ?thesis
  proof (cases "\<forall>k \<in> set ?ks. unat k < keys_served ?n")
    case True
    then show ?thesis using slices_facts[OF assms(2,3) rs assms(5,6)] by simp
  next
    case False
    have pos: "slice_positions rs ?ks = Inr (0 # map (\<lambda>r. below (range_end r) ?ks) rs)"
      using slice_positions_tiled[OF assms(5) tiled(1) ne] by (simp add: below_none)
    have "below (range_end (last rs)) ?ks \<noteq> length ?ks"
    proof
      assume "below (range_end (last rs)) ?ks = length ?ks"
      then have "takeWhile (\<lambda>k. k < range_end (last rs)) ?ks = ?ks"
        using takeWhile_eq_take[of "\<lambda>k. k < range_end (last rs)" ?ks] by (simp add: below_def)
      then have "\<forall>k \<in> set ?ks. k < range_end (last rs)" by (simp only: takeWhile_eq_all_conv)
      then show False using False tiled(2) by (auto simp: word_less_nat_alt)
    qed
    then show ?thesis using False pos ne by (simp add: DefaultSlicer_def last_map)
  qed
qed

definition sample_kv :: "nat KVPairs" where
  "sample_kv = \<lparr>kv_keys = [1, 3, 9223372036854775809], kv_vals = [10, 30, 31, 90], kv_lens = [1, 2, 1], kv_priority = 0\<rparr>"

theorem slices_partition_witness:
  "\<exists>sl. DefaultSlicer sample_kv (snd (GetServerKeyRanges two_server_postoffice True)) = Inr sl \<and> length sl = 2 \<and>
     concat (map (kv_keys \<circ> snd) sl) = [1, 3, 9223372036854775809] \<and> concat (map (kv_vals \<circ> snd) sl) = [10, 30, 31, 90]"
proof -
  have n: "num_servers_of two_server_postoffice True = 2"
    by (simp add: num_servers_of_def two_server_postoffice_def)
  have h: "ranges_ready two_server_postoffice True" "0 < num_servers_of two_server_postoffice True"
      "num_servers_of two_server_postoffice True < 2 ^ 31"
    by (simp_all add: n) (simp add: ranges_ready_def two_server_postoffice_def empty_Postoffice_def)
  have kv: "sorted (kv_keys sample_kv)" "kv_wf sample_kv" by (simp_all add: sample_kv_def kv_wf_def)
  have "\<forall>k \<in> set (kv_keys sample_kv). unat k < keys_served (num_servers_of two_server_postoffice True)"
    by (simp add: sample_kv_def keys_served_def n)
  with slices_partition[OF h refl kv] show ?thesis by (auto simp: n sample_kv_def)
qed

text \<open>A segment of a shared array stands for the segment of the list.\<close>

lemma segment_contents:
  assumes "sa_ok a s" "segment i j (contents a s) = Inr xs"
  shows "\<exists>b. sa_segment i j a = Inr b \<and> contents b s = xs"
  using assms(2) sa_segment_contents[OF assms(1), of i j] length_contents[OF assms(1)]
  by (auto simp: segment_def res_simps)

end
