(* ===== verification/Payloads.thy ===== *)
theory Payloads
  imports Dgt Slicers
begin

text \<open>
  How key-value lists travel in messages: \<open>AddData\<close> of the keys, the values and the lengths, and
  the assignments of \<open>SArray\<close> that read them back (\<^verbatim>\<open>include/ps/kv_app.h\<close>, \<^verbatim>\<open>include/ps/sarray.h\<close>).
  The store is instantiated with \<open>char\<close> values throughout the code base; keys are 8 bytes and
  lengths 4, little endian.
\<close>

subsection \<open>Bytes\<close>

definition bytes_of_key :: "key \<Rightarrow> bytes" where
  "bytes_of_key k = bytes_of_f32 (ucast k) @ bytes_of_f32 (ucast (drop_bit 32 k))"

definition bytes_of_keys :: "key list \<Rightarrow> bytes" where
  "bytes_of_keys ks = concat (map bytes_of_key ks)"

fun join_words :: "32 word list \<Rightarrow> key list" where
  "join_words (lo # hi # ws) = (ucast lo OR push_bit 32 (ucast hi)) # join_words ws"
| "join_words _ = []"

text \<open>Reading an array of another element type fails when the bytes cannot be divided.\<close>

definition keys_of :: "bytes \<Rightarrow> key list res" where
  "keys_of bs = chk (length bs mod 8 = 0) ''cannot be divided'' (Inr (join_words (floats_of bs)))"

definition bytes_of_ints :: "int list \<Rightarrow> bytes" where
  "bytes_of_ints xs = bytes_of_floats (map word_of_int xs)"

definition ints_of :: "bytes \<Rightarrow> int list res" where
  "ints_of bs = chk (length bs mod 4 = 0) ''cannot be divided'' (Inr (map sint (floats_of bs)))"

lemma length_bytes_of_f32 [simp]: "length (bytes_of_f32 x) = 4"
  by (simp add: bytes_of_f32_def)

lemma bytes_of_keys_floats:
  "bytes_of_keys ks = bytes_of_floats (concat (map (\<lambda>k. [ucast k, ucast (drop_bit 32 k)]) ks))"
  by (induction ks) (auto simp: bytes_of_keys_def bytes_of_floats_def bytes_of_key_def)

lemma join_halves: "(ucast (ucast k :: 32 word) :: key) OR push_bit 32 (ucast (ucast (drop_bit 32 k) :: 32 word)) = k"
proof (rule bit_word_eqI)
  fix n assume "n < LENGTH(64)"
  then have "n < 32 \<or> n = 32 + (n - 32) \<and> n - 32 < 32" by simp linarith
  then consider "n < 32" | j where "n = 32 + j" "j < 32" by blast
  then show "bit ((ucast (ucast k :: 32 word) :: key) OR push_bit 32 (ucast (ucast (drop_bit 32 k) :: 32 word))) n = bit k n"
    by cases (auto simp: bit_simps)
qed

lemma join_words_keys: "join_words (concat (map (\<lambda>k. [ucast k, ucast (drop_bit 32 k)]) ks)) = ks"
  by (induction ks) (simp_all add: join_halves)

lemma keys_of_bytes [simp]: "keys_of (bytes_of_keys ks) = Inr ks"
proof -
  have "length (bytes_of_keys ks) = 8 * length ks" by (induction ks) (auto simp: bytes_of_keys_def bytes_of_key_def)
  then show ?thesis unfolding keys_of_def by (simp add: bytes_of_keys_floats join_words_keys)
qed

definition int32 :: "int \<Rightarrow> bool" where
  "int32 i \<longleftrightarrow> - (2 ^ 31) \<le> i \<and> i < 2 ^ 31"

lemma sint_word_of_int: "int32 i \<Longrightarrow> sint (word_of_int i :: 32 word) = i"
  by (simp add: int32_def signed_of_int signed_take_bit_int_eq_self)

lemma ints_of_bytes: "\<forall>i \<in> set xs. int32 i \<Longrightarrow> ints_of (bytes_of_ints xs) = Inr xs"
  by (simp add: ints_of_def bytes_of_ints_def comp_def map_idI sint_word_of_int length_bytes_of_floats)

subsection \<open>Packing and unpacking\<close>

definition AddKVs :: "bytes \<Rightarrow> 8 word KVPairs \<Rightarrow> Message \<Rightarrow> Message res" where
  "AddKVs vals kvs m =
     rbind (AddData UINT64 (bytes_of_keys (kv_keys kvs)) m) (\<lambda>m1.
     rbind (AddData CHAR_T vals m1) (\<lambda>m2.
       if kv_lens kvs \<noteq> [] then AddData INT32 (bytes_of_ints (kv_lens kvs)) m2 else Inr m2))"

definition kvs_of_data :: "bytes list \<Rightarrow> 8 word KVPairs res" where
  "kvs_of_data ds =
     chk (2 \<le> length ds) ''msg.data.size() >= 2''
      (rbind (keys_of (ds ! 0)) (\<lambda>ks.
       rbind (if 2 < length ds then ints_of (ds ! 2) else Inr []) (\<lambda>ls.
         Inr \<lparr>kv_keys = ks, kv_vals = ds ! 1, kv_lens = ls, kv_priority = 0\<rparr>)))"

lemma AddKVs_data:
  assumes "msg_data m = []" "m_data_type (msg_meta m) = []"
  shows "AddKVs vals kvs m = Inr (m\<lparr>
    msg_meta := (msg_meta m)\<lparr>m_data_type := [UINT64, CHAR_T] @ (if kv_lens kvs \<noteq> [] then [INT32] else [])\<rparr>,
    msg_data := [bytes_of_keys (kv_keys kvs), vals] @ (if kv_lens kvs \<noteq> [] then [bytes_of_ints (kv_lens kvs)] else [])\<rparr>)"
  using assms by (simp add: AddKVs_def AddData_def)

lemma kvs_of_data_pack:
  assumes "\<forall>i \<in> set (kv_lens kvs). int32 i"
  shows "kvs_of_data ([bytes_of_keys (kv_keys kvs), kv_vals kvs] @ (if kv_lens kvs \<noteq> [] then [bytes_of_ints (kv_lens kvs)] else []))
    = Inr (kvs\<lparr>kv_priority := 0\<rparr>)"
  using assms by (simp add: kvs_of_data_def ints_of_bytes)

end
