(* ===== verification/KVWorkers.thy ===== *)
theory KVWorkers
  imports SimpleApps Payloads
begin

text \<open>
  \<open>KVWorker\<close> (\<^verbatim>\<open>include/ps/kv_app.h\<close>): pushing and pulling key-value lists. The state is the process,
  the address of the worker's customer, the buffers of received pieces, the callbacks and the
  destination buffers of pulls; a callback is the data the source's closure captures. What the
  application supplies is collected in \<open>KVLib\<close>: its callbacks, its request handler, its handlers of
  simple messages, together with \<open>std::sort\<close> and the throughput measured by the clock.

  A call that blocks on a condition variable is run against \<open>moves\<close>, the changes other threads
  make while it waits: each wake-up that finds the condition false lets the next move happen.
\<close>

subsection \<open>Waiting\<close>

fun wait_for :: "('s \<Rightarrow> ('a \<times> 's) option) \<Rightarrow> ('s \<Rightarrow> 's) list \<Rightarrow> 's \<Rightarrow> (('a \<times> 's) \<times> ('s \<Rightarrow> 's) list) res" where
  "wait_for wake [] s = (case wake s of Some r \<Rightarrow> Inr (r, []) | None \<Rightarrow> Inl (Blocked ''wait''))"
| "wait_for wake (m # ms) s = (case wake s of Some r \<Rightarrow> Inr (r, m # ms) | None \<Rightarrow> wait_for wake ms (m s))"

type_synonym moves = "(Proc \<Rightarrow> Proc) list"

subsection \<open>State\<close>

record KVMeta =
  km_cmd :: int
  km_push :: bool
  km_sender :: int
  km_timestamp :: int
  km_customer_id :: int
  km_key :: int
  km_version :: int
  km_num_merge :: int
  km_app_id :: int
  km_priority :: int

text \<open>The constructor leaves the customer id uninitialised.\<close>

definition empty_KVMeta :: KVMeta where
  "empty_KVMeta = \<lparr>km_cmd = kEmpty, km_push = False, km_sender = kEmpty, km_timestamp = kEmpty, km_customer_id = 0,
     km_key = kEmpty, km_version = 0, km_num_merge = 1, km_app_id = kEmpty, km_priority = kEmpty\<rparr>"

type_synonym kvs = "8 word KVPairs"

text \<open>
  The closures of \<open>ZPush\<close> (the caller's own), \<open>Pull_\<close> and \<open>P3_ZPush\<close>: keys, destination
  of the values, of the lengths if any, and the caller's callback if any.
\<close>

datatype callback =
    UserCb nat
  | PullCb "key list" nat "nat option" "nat option"
  | P3Cb "key list" nat nat "nat option"

record KVWorker =
  kw_proc :: Proc
  kw_this :: nat
  kw_recv_kvs :: "int \<rightharpoonup> kvs list"
  kw_auto_pull_kvs :: "int \<Rightarrow> (key \<times> kvs) list"
  kw_callbacks :: "int \<rightharpoonup> callback"
  kw_send_push :: int
  kw_enable_intra_ts :: int
  kw_enable_p3 :: int
  kw_vals :: "nat \<Rightarrow> bytes"
  kw_lens :: "nat \<Rightarrow> int list"

type_synonym 'x kvw = "'x KVWorker_scheme"

record 'w KVLib =
  lib_world :: World
  lib_sort :: "kvs list \<Rightarrow> kvs list"
  lib_throughput :: "nat \<Rightarrow> int"
  lib_user :: "nat \<Rightarrow> 'w \<Rightarrow> 'w res"
  lib_request :: "KVMeta \<Rightarrow> kvs \<Rightarrow> 'w \<Rightarrow> 'w res"
  lib_simple_request :: "SimpleData \<Rightarrow> 'w \<Rightarrow> 'w res"
  lib_simple_response :: "SimpleData \<Rightarrow> 'w \<Rightarrow> 'w res"

definition on_proc :: "(Proc \<Rightarrow> (Proc \<times> 'a) res) \<Rightarrow> 'x kvw \<Rightarrow> ('x kvw \<times> 'a) res" where
  "on_proc f w = rbind (f (kw_proc w)) (\<lambda>(p, x). Inr (w\<lparr>kw_proc := p\<rparr>, x))"

definition run_proc :: "(Proc \<Rightarrow> Proc res) \<Rightarrow> 'x kvw \<Rightarrow> 'x kvw res" where
  "run_proc f w = rbind (f (kw_proc w)) (\<lambda>p. Inr (w\<lparr>kw_proc := p\<rparr>))"

subsection \<open>Callbacks\<close>

text \<open>\<open>memcpy\<close> into a buffer at an offset.\<close>

definition blit :: "nat \<Rightarrow> 'v list \<Rightarrow> 'v list \<Rightarrow> 'v list res" where
  "blit off xs buf = defined (off + length xs \<le> length buf) ''memcpy''
     (Inr (take off buf @ xs @ drop (off + length xs) buf))"

definition user_callback :: "'x kvw KVLib \<Rightarrow> nat option \<Rightarrow> 'x kvw \<Rightarrow> 'x kvw res" where
  "user_callback L cb w = (case cb of None \<Rightarrow> Inr w | Some u \<Rightarrow> lib_user L u w)"

text \<open>The checks of the pull callback, with the totals of keys and values.\<close>

fun pull_totals :: "key list \<Rightarrow> bool \<Rightarrow> kvs list \<Rightarrow> (nat \<times> nat) res" where
  "pull_totals keys has_lens [] = Inr (0, 0)"
| "pull_totals keys has_lens (s # ss) =
     chk (kv_keys s \<noteq> []) ''!empty()''
      (rbind (FindRange keys (hd (kv_keys s)) (last (kv_keys s) + 1)) (\<lambda>r.
       chk (range_size r = of_nat (length (kv_keys s))) ''unmatched keys size from one server''
        (chk (has_lens \<longrightarrow> length (kv_lens s) = length (kv_keys s)) ''s.lens.size() == s.keys.size()''
          (rbind (pull_totals keys has_lens ss) (\<lambda>(tk, tv).
             Inr (length (kv_keys s) + tk, length (kv_vals s) + tv))))))"

text \<open>The copying loop of the pull callback and of \<open>P3_ZPush\<close>'s.\<close>

fun fill_loop :: "kvs list \<Rightarrow> nat \<Rightarrow> nat \<Rightarrow> bytes \<Rightarrow> int list option \<Rightarrow> (bytes \<times> int list option) res" where
  "fill_loop [] pv pl vals lens = Inr (vals, lens)"
| "fill_loop (s # ss) pv pl vals lens =
     rbind (blit pv (kv_vals s) vals) (\<lambda>vals'.
     case lens of
       None \<Rightarrow> fill_loop ss (pv + length (kv_vals s)) pl vals' None
     | Some ls \<Rightarrow> rbind (blit pl (kv_lens s) ls) (\<lambda>ls'.
         fill_loop ss (pv + length (kv_vals s)) (pl + length (kv_lens s)) vals' (Some ls')))"

text \<open>A destination that is empty is given the size it needs; any other has to have it.\<close>

definition sized :: "'v \<Rightarrow> nat \<Rightarrow> 'v list \<Rightarrow> 'v list res" where
  "sized zero n buf = (if buf = [] then Inr (replicate n zero) else chk (length buf = n) ''size()'' (Inr buf))"

definition received :: "int \<Rightarrow> 'x kvw \<Rightarrow> kvs list" where
  "received ts w = (case kw_recv_kvs w ts of None \<Rightarrow> [] | Some kvs \<Rightarrow> kvs)"

definition pull_callback ::
  "'x kvw KVLib \<Rightarrow> int \<Rightarrow> key list \<Rightarrow> nat \<Rightarrow> nat option \<Rightarrow> nat option \<Rightarrow> 'x kvw \<Rightarrow> 'x kvw res" where
  "pull_callback L ts keys vals lens cb w =
     rbind (pull_totals keys (lens \<noteq> None) (received ts w)) (\<lambda>(total_key, total_val).
     chk (total_key = length keys) ''lost some servers?''
      (rbind (sized 0 total_val (kw_vals w vals)) (\<lambda>vbuf.
       rbind (case lens of None \<Rightarrow> Inr None
              | Some l \<Rightarrow> rbind (sized 0 (length keys) (kw_lens w l)) (\<lambda>b. Inr (Some b))) (\<lambda>lbuf.
       rbind (fill_loop (lib_sort L (received ts w)) 0 0 vbuf lbuf) (\<lambda>(vbuf', lbuf').
         user_callback L cb (w\<lparr>
           kw_vals := (kw_vals w)(vals := vbuf'),
           kw_lens := (case (lens, lbuf') of (Some l, Some b) \<Rightarrow> (kw_lens w)(l := b) | _ \<Rightarrow> kw_lens w),
           kw_recv_kvs := (kw_recv_kvs w)(ts := None)\<rparr>))))))"

definition p3_callback ::
  "'x kvw KVLib \<Rightarrow> int \<Rightarrow> key list \<Rightarrow> nat \<Rightarrow> nat \<Rightarrow> nat option \<Rightarrow> 'x kvw \<Rightarrow> 'x kvw res" where
  "p3_callback L ts keys vals lens cb w =
     (case kw_recv_kvs w ts of
        None \<Rightarrow> user_callback L cb w
      | Some kvs \<Rightarrow>
          chk (length kvs = 1) ''kvs.size() == 1''
          (chk (length keys = 1) ''keys.size() == 1''
          (chk (length (kw_lens w lens) = length keys) ''lens.size() == keys.size()''
          (let kv = hd kvs; len = hd (kw_lens w lens) in
           defined (kv_keys kv \<noteq> [] \<and> kv_lens kv \<noteq> []) ''kv.keys[0], kv.lens[0]''
           (chk (hd (kv_keys kv) = hd keys) ''kv.keys[0] == key''
           (chk (hd (kv_lens kv) = len) ''kv.lens[0] == len''
           (chk (int (length (kw_vals w vals)) = len) ''vals.size() == len''
           (chk (int (length (kv_vals kv)) = len) ''kv.vals.size() == len''
           (rbind (fill_loop kvs 0 0 (kw_vals w vals) (Some (kw_lens w lens))) (\<lambda>(vbuf, lbuf).
              user_callback L cb (w\<lparr>kw_vals := (kw_vals w)(vals := vbuf),
                kw_lens := (case lbuf of Some b \<Rightarrow> (kw_lens w)(lens := b) | None \<Rightarrow> kw_lens w),
                kw_recv_kvs := (kw_recv_kvs w)(ts := None)\<rparr>)))))))))))"

fun run_callback :: "'x kvw KVLib \<Rightarrow> int \<Rightarrow> callback \<Rightarrow> 'x kvw \<Rightarrow> 'x kvw res" where
  "run_callback L ts (UserCb u) w = lib_user L u w"
| "run_callback L ts (PullCb keys vals lens cb) w = pull_callback L ts keys vals lens cb w"
| "run_callback L ts (P3Cb keys vals lens cb) w = p3_callback L ts keys vals lens cb w"

definition KVWorker_AddCallback :: "int \<Rightarrow> callback option \<Rightarrow> 'x kvw \<Rightarrow> 'x kvw" where
  "KVWorker_AddCallback ts cb w =
     (case cb of None \<Rightarrow> w | Some c \<Rightarrow> w\<lparr>kw_callbacks := (kw_callbacks w)(ts \<mapsto> c)\<rparr>)"

definition KVWorker_RunCallback :: "'x kvw KVLib \<Rightarrow> int \<Rightarrow> 'x kvw \<Rightarrow> 'x kvw res" where
  "KVWorker_RunCallback L ts w =
     (case kw_callbacks w ts of
        None \<Rightarrow> Inr w
      | Some cb \<Rightarrow> rbind (run_callback L ts cb w) (\<lambda>w'. Inr (w'\<lparr>kw_callbacks := (kw_callbacks w')(ts := None)\<rparr>)))"

subsection \<open>Sending\<close>

definition skipped :: "(bool \<times> kvs) list \<Rightarrow> int" where
  "skipped sliced = int (length (filter (\<lambda>s. \<not> fst s) sliced))"

text \<open>The message for server \<open>i\<close>; \<open>app\<close> set means a forward to the node the scheduler chose.\<close>

definition worker_msg :: "int \<Rightarrow> bool \<Rightarrow> int \<Rightarrow> int \<Rightarrow> int \<Rightarrow> int \<Rightarrow> int \<Rightarrow> int \<Rightarrow> int \<Rightarrow> nat \<Rightarrow> kvs \<Rightarrow> Customer \<Rightarrow> 'x kvw \<Rightarrow> Message res" where
  "worker_msg ts push cmd uniq_key key_version app customer num_merge priority i s c w =
     (let m = empty_Message\<lparr>msg_meta := empty_Meta\<lparr>
            m_app_id := (if app \<noteq> kEmpty then app else cu_app_id c),
            m_customer_id := (if customer \<noteq> kEmpty then customer else cu_customer_id c),
            m_request := True, m_push := push, m_head := cmd, m_timestamp := ts,
            m_sender := (if app \<noteq> kEmpty then n_id (van_my_node (pr_van (kw_proc w))) else kEmpty),
            m_recver := (if app \<noteq> kEmpty then kw_send_push w else ServerRankToID (int i) False),
            m_key := uniq_key, m_version := key_version,
            m_iters := (if num_merge \<noteq> 1 then num_merge else 1), m_priority := priority\<rparr>\<rparr>
      in if kv_keys s \<noteq> [] then AddKVs (kv_vals s) s m else Inr m)"

fun worker_send_slices ::
  "World \<Rightarrow> bool \<Rightarrow> (nat \<Rightarrow> kvs \<Rightarrow> Customer \<Rightarrow> 'x kvw \<Rightarrow> Message res) \<Rightarrow> bool \<Rightarrow> nat \<Rightarrow> (bool \<times> kvs) list \<Rightarrow> 'x kvw \<Rightarrow> 'x kvw res" where
  "worker_send_slices W forward mk prio i [] w = Inr w"
| "worker_send_slices W forward mk prio i ((sent, s) # ss) w =
     (if \<not> sent then worker_send_slices W forward mk prio (Suc i) ss w
      else rbind (obj (kw_this w) (kw_proc w)) (\<lambda>c.
        rbind (mk i s c w) (\<lambda>m.
        if prio then worker_send_slices W forward mk prio (Suc i) ss (w\<lparr>kw_proc := upd_van (PushToSenderQueue m) (kw_proc w)\<rparr>)
        else rbind (on_proc (Send W m False) w) (\<lambda>(w1, _).
          worker_send_slices W forward mk prio (Suc i) ss (if forward then w1\<lparr>kw_send_push := 0\<rparr> else w1)))))"

definition KVWorker_Send ::
  "'x kvw KVLib \<Rightarrow> int \<Rightarrow> bool \<Rightarrow> int \<Rightarrow> kvs \<Rightarrow> int \<Rightarrow> int \<Rightarrow> int \<Rightarrow> int \<Rightarrow> int \<Rightarrow> bool \<Rightarrow> 'x kvw \<Rightarrow> 'x kvw res" where
  "KVWorker_Send L ts push cmd kvs uniq_key key_version app customer num_merge enable_priority w =
     (let (po, ranges) = GetServerKeyRanges (pr_po (kw_proc w)) False;
          w0 = w\<lparr>kw_proc := (kw_proc w)\<lparr>pr_po := po\<rparr>\<rparr> in
      rbind (DefaultSlicer kvs ranges) (\<lambda>sliced.
      rbind (run_proc (obj_AddResponse (kw_this w) ts (skipped sliced)) w0) (\<lambda>w1.
      rbind (if skipped sliced = int (length sliced) then KVWorker_RunCallback L ts w1 else Inr w1) (\<lambda>w2.
        worker_send_slices (lib_world L) (app \<noteq> kEmpty)
          (worker_msg ts push cmd uniq_key key_version app customer num_merge (if enable_priority then kv_priority kvs else 0))
          enable_priority 0 sliced w2))))"

definition ZPush :: "'x kvw KVLib \<Rightarrow> key list \<Rightarrow> bytes \<Rightarrow> int list \<Rightarrow> int \<Rightarrow> nat option \<Rightarrow> int \<Rightarrow> int \<Rightarrow> 'x kvw \<Rightarrow> ('x kvw \<times> int) res" where
  "ZPush L keys vals lens cmd cb uniq_key version w =
     rbind (on_proc (obj_NewRequest (kw_this w) kServerGroup False) w) (\<lambda>(w1, ts).
     let w2 = KVWorker_AddCallback ts (case cb of None \<Rightarrow> None | Some u \<Rightarrow> Some (UserCb u)) w1;
         kvs = \<lparr>kv_keys = keys, kv_vals = vals, kv_lens = lens, kv_priority = 0\<rparr> in
     if kw_enable_intra_ts w \<noteq> 0 \<and> keys \<noteq> [] then
       rbind (obj (kw_this w) (kw_proc w2)) (\<lambda>c.
       rbind (lib_request L (empty_KVMeta\<lparr>km_cmd := cmd, km_push := True, km_sender := n_id (van_my_node (pr_van (kw_proc w2))),
                km_timestamp := ts, km_app_id := cu_app_id c, km_customer_id := cu_customer_id c, km_key := uniq_key,
                km_version := version, km_num_merge := 1\<rparr>) kvs w2) (\<lambda>w3.
       rbind (run_proc (AskForReceiverPush (lib_world L) (cu_app_id c) (cu_customer_id c) ts False) w3) (\<lambda>w4. Inr (w4, ts))))
     else rbind (KVWorker_Send L ts True cmd kvs uniq_key version kEmpty kEmpty 1 False w2) (\<lambda>w3. Inr (w3, ts)))"

definition P3_ZPush :: "'x kvw KVLib \<Rightarrow> key list \<Rightarrow> nat \<Rightarrow> nat \<Rightarrow> int \<Rightarrow> nat option \<Rightarrow> int \<Rightarrow> 'x kvw \<Rightarrow> ('x kvw \<times> int) res" where
  "P3_ZPush L keys vals lens cmd cb priority w =
     rbind (on_proc (obj_NewRequest (kw_this w) kServerGroup False) w) (\<lambda>(w1, ts).
     rbind (KVWorker_Send L ts True cmd
              \<lparr>kv_keys = keys, kv_vals = kw_vals w vals, kv_lens = kw_lens w lens, kv_priority = priority\<rparr>
              kEmpty kEmpty kEmpty kEmpty 1 True (KVWorker_AddCallback ts (Some (P3Cb keys vals lens cb)) w1))
       (\<lambda>w2. Inr (w2, ts)))"

definition Pull_ts :: "'x kvw KVLib \<Rightarrow> key list \<Rightarrow> nat \<Rightarrow> nat option \<Rightarrow> int \<Rightarrow> nat option \<Rightarrow> 'x kvw \<Rightarrow> ('x kvw \<times> int) res" where
  "Pull_ts L keys vals lens cmd cb w =
     rbind (on_proc (obj_NewRequest (kw_this w) kServerGroup False) w) (\<lambda>(w1, ts).
     rbind (KVWorker_Send L ts False cmd \<lparr>kv_keys = keys, kv_vals = [], kv_lens = [], kv_priority = 0\<rparr>
              kEmpty kEmpty kEmpty kEmpty 1 False (KVWorker_AddCallback ts (Some (PullCb keys vals lens cb)) w1))
       (\<lambda>w2. Inr (w2, ts)))"

definition KVWorker_Response :: "'x kvw KVLib \<Rightarrow> KVMeta \<Rightarrow> 'x kvw \<Rightarrow> 'x kvw res" where
  "KVWorker_Response L req w =
     rbind (obj (kw_this w) (kw_proc w)) (\<lambda>c.
     rbind (on_proc (Send (lib_world L) (empty_Message\<lparr>msg_meta := empty_Meta\<lparr>m_app_id := cu_app_id c,
              m_customer_id := km_customer_id req, m_request := False, m_push := km_push req, m_head := km_cmd req,
              m_timestamp := km_timestamp req, m_recver := km_sender req, m_key := km_key req,
              m_version := km_version req\<rparr>\<rparr>) False) w) (\<lambda>(w1, _). Inr w1))"

subsection \<open>Receiving\<close>

definition store_received :: "int \<Rightarrow> kvs \<Rightarrow> 'x kvw \<Rightarrow> 'x kvw" where
  "store_received ts kvs w = w\<lparr>kw_recv_kvs := (kw_recv_kvs w)(ts \<mapsto> received ts w @ [kvs])\<rparr>"

definition finish_request :: "'x kvw KVLib \<Rightarrow> int \<Rightarrow> 'x kvw \<Rightarrow> 'x kvw res" where
  "finish_request L ts w =
     rbind (obj_NumResponse (kw_this w) ts (kw_proc w)) (\<lambda>n.
       if n = po_num_servers (pr_po (kw_proc w)) - 1 then KVWorker_RunCallback L ts w else Inr w)"

definition KVWorker_Process :: "'x kvw KVLib \<Rightarrow> Message \<Rightarrow> 'x kvw \<Rightarrow> 'x kvw res" where
  "KVWorker_Process L m w =
     (if m_simple_app (msg_meta m) then SimpleApp_Process (lib_simple_request L) (lib_simple_response L) m w
      else
        (let ts = m_timestamp (msg_meta m) in
         rbind (if (\<not> m_push (msg_meta m) \<and> msg_data m \<noteq> []) \<or> (kw_enable_p3 w \<noteq> 0 \<and> msg_data m \<noteq> []) then
                  rbind (kvs_of_data (msg_data m)) (\<lambda>kvs. Inr (store_received ts kvs w))
                else Inr w)
           (finish_request L ts)))"

subsection \<open>Forwarding by TSEngine\<close>

text \<open>One wake-up of the two waits of the forwarding loop, on a party's layer or the global one.\<close>

definition receiver_wake :: "bool \<Rightarrow> Proc \<Rightarrow> (int \<times> Proc) option" where
  "receiver_wake is_global p =
     (case (if is_global then GetGlobalReceiver_wake (pr_van p) else GetReceiver_wake (pr_van p)) of
        None \<Rightarrow> None | Some (r, v) \<Rightarrow> Some (r, p\<lparr>pr_van := v\<rparr>))"

definition finish_wake :: "bool \<Rightarrow> Proc \<Rightarrow> (unit \<times> Proc) option" where
  "finish_wake is_global p =
     (case (if is_global then WaitForGlobalFinish (pr_van p) else WaitForFinish (pr_van p)) of
        None \<Rightarrow> None | Some v \<Rightarrow> Some ((), p\<lparr>pr_van := v\<rparr>))"

definition receiver_of :: "bool \<Rightarrow> Proc \<Rightarrow> int" where
  "receiver_of is_global p = (if is_global then van_receiver_global (pr_van p) else van_receiver (pr_van p))"

lemma receiver_wake_None: "receiver_wake g p = None \<longleftrightarrow> receiver_of g p = -2"
  by (auto simp: receiver_wake_def receiver_of_def GetReceiver_wake_def GetGlobalReceiver_wake_def)

lemma receiver_wake_Some:
  "receiver_wake g p = Some (r, p') \<Longrightarrow> r = receiver_of g p \<and> r \<noteq> -2 \<and> receiver_of g p' = -2"
  by (auto simp: receiver_wake_def receiver_of_def GetReceiver_wake_def GetGlobalReceiver_wake_def split: if_splits)

lemma finish_wake_receiver: "finish_wake g p = Some (u, p') \<Longrightarrow> receiver_of g p' = receiver_of g p"
  by (auto simp: finish_wake_def receiver_of_def WaitForFinish_def WaitForGlobalFinish_def split: if_splits)

lemma wait_for_result:
  assumes "wait_for wake ms s = Inr ((x, s'), ms')"
  shows "length ms' \<le> length ms \<and> (wake s = None \<longrightarrow> length ms' < length ms) \<and>
    (\<exists>t. wake t = Some (x, s')) \<and> (length ms' = length ms \<longrightarrow> wake s = Some (x, s'))"
  using assms
proof (induction ms arbitrary: s)
  case (Cons m ms)
  show ?case
  proof (cases "wake s")
    case None
    with Cons.prems have "wait_for wake ms (m s) = Inr ((x, s'), ms')" by simp
    with Cons.IH[OF this] None show ?thesis by auto
  qed (use Cons.prems in auto)
qed (auto split: option.splits)

lemma sent_only_receiver: "sent_only p q \<Longrightarrow> receiver_of g q = receiver_of g p"
  by (auto simp: sent_only_def receiver_of_def)

lemma AskForReceiverPull_sent:
  assumes "AskForReceiverPull W t l v g p = Inr p'"
  shows "sent_only p p'"
proof -
  from assms obtain m n where "Send W m g (upd_van (van_timestamp_update (\<lambda>t. t + 1)) p) = Inr (p', n)"
    by (auto simp: AskForReceiverPull_def GetTimestamp_def Let_def res_simps)
  from sent_only_trans[OF sent_only_timestamp Send_facts(2)[OF this]] show ?thesis .
qed

text \<open>
  The loop of both \<open>AutoPullUpdate\<close>s: ask the scheduler for a receiver, send it the model, wait
  until it has it, and report the throughput with the next question; \<open>i\<close> counts the sends.
\<close>

function autopull_loop :: "World \<Rightarrow> (nat \<Rightarrow> int) \<Rightarrow> bool \<Rightarrow> bool \<Rightarrow> (int \<Rightarrow> Message) \<Rightarrow> int \<Rightarrow> nat \<Rightarrow> int \<Rightarrow> int \<Rightarrow> moves \<Rightarrow> Proc \<Rightarrow> (Proc \<times> moves) res" where
  "autopull_loop W tp is_global has_keys mk iters i throughput last_recv_id ms p =
     rbind (AskForReceiverPull W throughput last_recv_id iters is_global p) (\<lambda>p1.
     rbind (wait_for (receiver_wake is_global) ms p1) (\<lambda>r1.
       let recver = fst (fst r1); p2 = snd (fst r1); ms1 = snd r1 in
       if recver = -1 then Inr (p2, ms1)
       else if has_keys then
         rbind (Send W (mk recver) is_global p2) (\<lambda>sent.
         rbind (wait_for (finish_wake is_global) ms1 (fst sent)) (\<lambda>r2.
           autopull_loop W tp is_global has_keys mk iters (Suc i) (tp i) recver (snd r2) (snd (fst r2))))
       else autopull_loop W tp is_global has_keys mk iters i throughput last_recv_id ms1 p2))"
  by pat_completeness auto
termination
proof (relation "measure (\<lambda>(W, tp, g, hk, mk, iters, i, t, l, ms, p). 2 * length ms + (if receiver_of g p = -2 then 0 else 1))", goal_cases)
  case 1
  then show ?case by simp
next
  case (2 W tp g hk mk iters i t l ms p p1 r1 recver p2 ms1 sent r2)
  have r1: "wait_for (receiver_wake g) ms p1 = Inr ((recver, p2), ms1)" using 2 by (cases r1) auto
  have r2: "wait_for (finish_wake g) ms1 (fst sent) = Inr ((fst (fst r2), snd (fst r2)), snd r2)" using 2 by (cases r2) auto
  note f1 = wait_for_result[OF r1] and f2 = wait_for_result[OF r2]
  have s: "receiver_of g p1 = receiver_of g p" using sent_only_receiver[OF AskForReceiverPull_sent] 2(1) by blast
  have p2: "receiver_of g p2 = -2" using f1 receiver_wake_Some by blast
  have "sent_only p2 (fst sent)" using 2(8) Send_facts(2)[of W "mk recver" g p2 "fst sent" "snd sent"] by simp
  then have s2: "receiver_of g (fst sent) = -2" using sent_only_receiver p2 by simp
  have "length (snd r2) = length ms1 \<longrightarrow> receiver_of g (snd (fst r2)) = -2"
    using f2 finish_wake_receiver s2 by metis
  moreover have "length (snd r2) \<le> length ms1" "length ms1 \<le> length ms" "receiver_of g p = -2 \<longrightarrow> length ms1 < length ms"
    using f1 f2 s receiver_wake_None[of g p1] by auto
  ultimately show ?case by (cases "length (snd r2) = length ms1") auto
next
  case (3 W tp g hk mk iters i t l ms p p1 r1 recver p2 ms1)
  have r1: "wait_for (receiver_wake g) ms p1 = Inr ((recver, p2), ms1)" using 3 by (cases r1) auto
  note f1 = wait_for_result[OF r1]
  have s: "receiver_of g p1 = receiver_of g p" using sent_only_receiver[OF AskForReceiverPull_sent] 3(1) by blast
  have "receiver_of g p2 = -2" using f1 receiver_wake_Some by blast
  then show ?case using f1 s receiver_wake_None[of g p1] by (auto split: if_splits)
qed

declare autopull_loop.simps [simp del]

definition autopull_msg :: "int \<Rightarrow> Customer \<Rightarrow> int \<Rightarrow> int \<Rightarrow> int \<Rightarrow> int \<Rightarrow> kvs \<Rightarrow> int \<Rightarrow> Message" where
  "autopull_msg hd_cmd c me key version iters kvs recver =
     empty_Message\<lparr>msg_meta := empty_Meta\<lparr>m_head := hd_cmd, m_app_id := cu_app_id c, m_customer_id := cu_customer_id c,
         m_request := True, m_push := False, m_sender := me, m_recver := recver, m_key := key, m_version := version,
         m_iters := iters, m_timestamp := -1,
         m_data_type := [UINT64, CHAR_T] @ (if kv_lens kvs \<noteq> [] then [INT32] else [])\<rparr>,
       msg_data := [bytes_of_keys (kv_keys kvs), kv_vals kvs] @ (if kv_lens kvs \<noteq> [] then [bytes_of_ints (kv_lens kvs)] else [])\<rparr>"

definition KVWorker_AutoPullUpdate :: "'x kvw KVLib \<Rightarrow> moves \<Rightarrow> int \<Rightarrow> int \<Rightarrow> int \<Rightarrow> kvs \<Rightarrow> 'x kvw \<Rightarrow> ('x kvw \<times> moves) res" where
  "KVWorker_AutoPullUpdate L ms version iters req kvs w =
     rbind (obj (kw_this w) (kw_proc w)) (\<lambda>c.
       on_proc (autopull_loop (lib_world L) (lib_throughput L) False (kv_keys kvs \<noteq> [])
         (autopull_msg kEmpty c (n_id (van_my_node (pr_van (kw_proc w)))) req version iters kvs) iters 0 (-1) (-1) ms) w)"

definition AutoPullReply_msg :: "int \<Rightarrow> Message" where
  "AutoPullReply_msg sndr = empty_Message\<lparr>msg_meta := empty_Meta\<lparr>m_recver := sndr, m_control := empty_Control\<lparr>c_cmd := AUTOPULLREPLY\<rparr>\<rparr>\<rparr>"

definition KVWorker_AutoPullReply :: "'x kvw KVLib \<Rightarrow> int \<Rightarrow> 'x kvw \<Rightarrow> 'x kvw res" where
  "KVWorker_AutoPullReply L sndr w = rbind (on_proc (Send (lib_world L) (AutoPullReply_msg sndr) False) w) (\<lambda>(w1, _). Inr w1)"

definition kv_meta :: "Message \<Rightarrow> KVMeta" where
  "kv_meta m = empty_KVMeta\<lparr>km_cmd := m_head (msg_meta m), km_push := m_push (msg_meta m), km_sender := m_sender (msg_meta m),
     km_timestamp := m_timestamp (msg_meta m), km_customer_id := m_customer_id (msg_meta m), km_key := m_key (msg_meta m),
     km_version := m_version (msg_meta m), km_num_merge := m_iters (msg_meta m)\<rparr>"

text \<open>Reading three arrays without a check.\<close>

definition three_kvs :: "bytes list \<Rightarrow> kvs res" where
  "three_kvs ds = defined (3 \<le> length ds) ''msg.data[2]'' (kvs_of_data ds)"

text \<open>The handler of a worker under TSEngine. It returns the moves it has not used.\<close>

definition KVWorker_TS_Process :: "'x kvw KVLib \<Rightarrow> moves \<Rightarrow> Message \<Rightarrow> 'x kvw \<Rightarrow> ('x kvw \<times> moves) res" where
  "KVWorker_TS_Process L ms m w =
     chk (kw_enable_intra_ts w = 1) ''enable_intra_ts == 1''
      (if m_simple_app (msg_meta m) then
         rbind (SimpleApp_Process (lib_simple_request L) (lib_simple_response L) m w) (\<lambda>w1. Inr (w1, ms))
       else
        (let mt = msg_meta m; ts = m_timestamp mt;
             finish = (\<lambda>w1. rbind (if \<not> m_request mt then finish_request L ts w1 else Inr w1) (\<lambda>w2. Inr (w2, ms))) in
         if msg_data m \<noteq> [] then
           (if m_push mt \<and> m_request mt then
              rbind (three_kvs (msg_data m)) (\<lambda>kvs.
              rbind (lib_request L (kv_meta m) kvs w) (\<lambda>w1.
              rbind (run_proc (AskForReceiverPush (lib_world L) (m_app_id mt) (m_customer_id mt) ts False) w1) finish))
            else
              rbind (kvs_of_data (msg_data m)) (\<lambda>kvs.
              chk (2 < length (msg_data m) \<longrightarrow> length (kv_keys kvs) = length (kv_lens kvs)) ''kvs.keys.size() == kvs.lens.size()''
               (if m_request mt then
                  chk (length (kv_keys kvs) = 1) ''kvs.keys.size() == 1''
                   (rbind (KVWorker_AutoPullReply L (m_sender mt) w) (\<lambda>w1.
                    rbind (KVWorker_AutoPullUpdate L ms (m_version mt) (m_iters mt) (m_key mt) kvs w1) (\<lambda>(w2, ms').
                      Inr (w2\<lparr>kw_auto_pull_kvs := (kw_auto_pull_kvs w2)(m_key mt :=
                             AList.update (hd (kv_keys kvs)) kvs (kw_auto_pull_kvs w2 (m_key mt)))\<rparr>, ms'))))
                else finish (store_received ts kvs w))))
         else if m_push mt \<and> m_request mt then
           rbind (lib_request L (empty_KVMeta\<lparr>km_num_merge := -1\<rparr>) empty_KVPairs (w\<lparr>kw_send_push := m_iters mt\<rparr>)) finish
         else finish w))"

text \<open>
  \<open>AutoPull\<close> after its wait: \<open>Blocked\<close> while pieces are missing. The pointer to the values is
  taken before the buffer is resized; an empty buffer has no memory.
\<close>

definition auto_piece :: "(key \<times> kvs) list \<Rightarrow> key \<Rightarrow> kvs" where
  "auto_piece al k = (case map_of al k of None \<Rightarrow> empty_KVPairs | Some kvs \<Rightarrow> kvs)"

definition KVWorker_AutoPull :: "'x kvw KVLib \<Rightarrow> int \<Rightarrow> key list \<Rightarrow> nat \<Rightarrow> nat option \<Rightarrow> nat option \<Rightarrow> 'x kvw \<Rightarrow> 'x kvw res" where
  "KVWorker_AutoPull L uniq_key keys vals lens cb w =
     (let autokvs = kw_auto_pull_kvs w uniq_key in
      if length autokvs \<noteq> length keys then Inl (Blocked ''cond_'')
      else (let total_vals = sum_list (map (\<lambda>(_, kvs). length (kv_vals kvs)) autokvs) in
        rbind (sized 0 total_vals (kw_vals w vals)) (\<lambda>vbuf.
        rbind (case lens of None \<Rightarrow> Inr None
               | Some l \<Rightarrow> rbind (sized 0 (length keys) (kw_lens w l)) (\<lambda>b. Inr (Some b))) (\<lambda>lbuf.
        defined (kw_vals w vals \<noteq> [] \<or> total_vals = 0) ''p_vals''
         (rbind (fill_loop (map (auto_piece autokvs) keys) 0 0 vbuf lbuf) (\<lambda>(vbuf', lbuf').
          user_callback L cb (w\<lparr>
            kw_vals := (kw_vals w)(vals := vbuf'),
            kw_lens := (case (lens, lbuf') of (Some l, Some b) \<Rightarrow> (kw_lens w)(l := b) | _ \<Rightarrow> kw_lens w),
            kw_auto_pull_kvs := (kw_auto_pull_kvs w)(uniq_key := [])\<rparr>)))))))"

end
