(* ===== verification/Pulls.thy ===== *)
theory Pulls
  imports KVWorkers
begin

text \<open>
  A pull from request to filled buffers: the request is sliced and sent to the servers that own its
  keys, the servers answer in any order, and the handler of the last answer runs the callback that
  puts the pieces together. The facts on copying, on \<open>FindRange\<close> and on sorting pieces come first.
\<close>

subsection \<open>Copying the pieces\<close>

lemma blit_at_end:
  assumes "length buf = off + length xs + n"
  shows "blit off xs buf = Inr (take off buf @ xs @ drop (off + length xs) buf)"
  using assms by (simp add: blit_def)

lemma fill_loop_concat:
  assumes "length vals = pv + length (concat (map kv_vals ss))"
    and "case lens of None \<Rightarrow> True | Some ls \<Rightarrow> length ls = pl + length (concat (map kv_lens ss))"
  shows "fill_loop ss pv pl vals lens =
    Inr (take pv vals @ concat (map kv_vals ss),
         case lens of None \<Rightarrow> None | Some ls \<Rightarrow> Some (take pl ls @ concat (map kv_lens ss)))"
  using assms
proof (induction ss arbitrary: pv pl vals lens)
  case Nil
  then show ?case by (auto split: option.splits)
next
  case (Cons s ss)
  let ?pv = "pv + length (kv_vals s)" and ?pl = "pl + length (kv_lens s)"
  let ?vals = "take pv vals @ kv_vals s @ drop ?pv vals"
  have v: "blit pv (kv_vals s) vals = Inr ?vals" "length ?vals = ?pv + length (concat (map kv_vals ss))"
    "take ?pv ?vals = take pv vals @ kv_vals s"
    using Cons.prems(1) by (simp_all add: blit_def)
  show ?case
  proof (cases lens)
    case None
    with Cons.IH[where vals = ?vals and pv = ?pv and lens = None and pl = pl] v show ?thesis by simp
  next
    case (Some ls)
    let ?ls = "take pl ls @ kv_lens s @ drop ?pl ls"
    have "blit pl (kv_lens s) ls = Inr ?ls" "length ?ls = ?pl + length (concat (map kv_lens ss))"
      "take ?pl ?ls = take pl ls @ kv_lens s"
      using Cons.prems(2) Some by (simp_all add: blit_def)
    with Cons.IH[where vals = ?vals and pv = ?pv and lens = "Some ?ls" and pl = ?pl] v Some show ?thesis by simp
  qed
qed

subsection \<open>Pieces of a sorted key list\<close>

lemma below_nth:
  assumes "sorted_wrt (<) (ks :: key list)" "p < length ks"
  shows "below (ks ! p) ks = p"
proof -
  have "takeWhile (\<lambda>k. k < ks ! p) ks = take p ks"
    using assms by (intro takeWhile_eq_take_P_nth) (auto dest: sorted_wrt_nth_less)
  then show ?thesis using assms(2) by (simp add: below_def)
qed

lemma below_succ:
  assumes "sorted_wrt (<) (ks :: key list)" "p < length ks" "ks ! p \<noteq> - 1"
  shows "below (ks ! p + 1) ks = Suc p"
proof -
  have "1 + ks ! p \<noteq> 0" using assms(3) by (metis add_eq_0_iff)
  from unatSuc[OF this] have lt: "k < ks ! p + 1 \<longleftrightarrow> k \<le> ks ! p" for k
    by (simp add: word_less_nat_alt word_le_nat_alt less_Suc_eq_le add.commute)
  have "takeWhile (\<lambda>k. k < ks ! p + 1) ks = take (Suc p) ks"
  proof (rule takeWhile_eq_take_P_nth)
    show "ks ! i < ks ! p + 1" if "i < Suc p" "i < length ks" for i
      using sorted_wrt_nth_less[OF assms(1), of i p] assms(2) that by (cases "i = p") (auto simp: lt)
    show "\<not> ks ! Suc p < ks ! p + 1" if "Suc p < length ks"
      using sorted_wrt_nth_less[OF assms(1), of p "Suc p"] that by (simp add: lt)
  qed
  then show ?thesis using assms(2) by (simp add: below_def)
qed

text \<open>A piece that is a block of the keys passes the size check of the callback.\<close>

lemma FindRange_piece:
  assumes "sorted_wrt (<) ks" "p < q" "q \<le> length ks" "\<forall>k \<in> set ks. k \<noteq> - 1"
    and "piece = between id p q ks"
  shows "\<exists>r. FindRange ks (hd piece) (last piece + 1) = Inr r \<and> range_size r = of_nat (length piece)"
proof -
  have len: "length piece = q - p" using assms(2,3,5) by (simp add: between_def)
  have h: "hd piece = ks ! p" using assms(2,3,5) by (simp add: between_def hd_drop_conv_nth)
  have l: "last piece = ks ! (q - 1)" using assms(2,3,5) len by (subst last_conv_nth) (auto simp: between_def)
  have sorted: "sorted ks" using assms(1) by (simp add: strict_sorted_imp_sorted)
  have b: "below (ks ! p) ks = p" "below (ks ! (q - 1) + 1) ks = q"
    using below_nth[OF assms(1)] below_succ[OF assms(1), of "q - 1"] assms(2-4) by auto
  have "\<not> ks ! (q - 1) + 1 \<le> ks ! p"
  proof
    assume "ks ! (q - 1) + 1 \<le> ks ! p"
    from below_mono[OF sorted this] b assms(2) show False by simp
  qed
  then have "FindRange ks (hd piece) (last piece + 1) = Inr (mk_Range (of_nat p) (of_nat q))"
    unfolding h l FindRange_def by (simp add: lower_bound_sorted[OF sorted] b del: One_nat_def)
  moreover have "(of_nat q - of_nat p :: key) = of_nat (q - p)" using assms(2) by simp
  ultimately show ?thesis by (simp add: range_size_def len)
qed

lemma pull_totals_pieces:
  assumes "\<forall>s \<in> set ss. kv_keys s \<noteq> [] \<and> (\<exists>r. FindRange ks (hd (kv_keys s)) (last (kv_keys s) + 1) = Inr r \<and>
      range_size r = of_nat (length (kv_keys s))) \<and> length (kv_lens s) = length (kv_keys s)"
  shows "pull_totals ks hl ss = Inr (length (concat (map kv_keys ss)), length (concat (map kv_vals ss)))"
  using assms by (induction ss) auto

text \<open>Pieces with different first keys are sorted in one way only.\<close>

definition sorts_kvs :: "(kvs list \<Rightarrow> kvs list) \<Rightarrow> bool" where
  "sorts_kvs srt \<longleftrightarrow> (\<forall>xs. mset (srt xs) = mset xs \<and> sorted (map (\<lambda>s. hd (kv_keys s)) (srt xs)))"

lemma sorted_unique:
  assumes "mset xs = mset ys" "sorted (map f xs)" "sorted (map f ys)" "inj_on f (set ys)"
  shows "xs = ys"
proof -
  have "map f xs = map f ys"
    using assms(1-3) by (metis properties_for_sort mset_map sorted_sort_id)
  moreover have "inj_on f (set xs \<union> set ys)" using assms(1,4) by (metis set_mset_mset sup.idem)
  ultimately show ?thesis by (rule map_inj_on)
qed

subsection \<open>The request\<close>

text \<open>What a worker needs to start a pull: a customer, servers numbered as the post office says, no resender.\<close>

definition worker_ready :: "'x kvw KVLib \<Rightarrow> 'x kvw \<Rightarrow> bool" where
  "worker_ready L w \<longleftrightarrow> pr_cust (kw_proc w) (kw_this w) \<noteq> None \<and> van_resender (pr_van (kw_proc w)) = None \<and>
     (\<forall>m. w_send (lib_world L) m False \<noteq> -1) \<and> ranges_ready (pr_po (kw_proc w)) False \<and>
     0 < po_num_servers (pr_po (kw_proc w)) \<and> po_num_servers (pr_po (kw_proc w)) < 2 ^ 31 \<and>
     (\<exists>ids. GetNodeIDs (pr_po (kw_proc w)) kServerGroup False = Inr ids \<and>
        int (length ids) = po_num_servers (pr_po (kw_proc w)))"

text \<open>Sending slices only sends.\<close>

lemma Send_ok:
  assumes "van_resender (pr_van p) = None" "w_send W m g \<noteq> -1"
  shows "\<exists>p' n. Send W m g p = Inr (p', n) \<and> sent_only p p' \<and> van_resender (pr_van p') = None \<and>
    van_outbox (pr_van p') = van_outbox (pr_van p) @ [(m, chan g)]"
  using Send_succeeds[OF assms] Send_facts[OF Send_succeeds[OF assms]] assms(1)
  by (auto simp: chan_def upd_van_def)

text \<open>The messages for the slices from server \<open>i\<close> on.\<close>

fun slice_msgs :: "(nat \<Rightarrow> kvs \<Rightarrow> Message) \<Rightarrow> nat \<Rightarrow> (bool \<times> kvs) list \<Rightarrow> Message list" where
  "slice_msgs mk i [] = []"
| "slice_msgs mk i ((sent, s) # ss) = (if sent then mk i s # slice_msgs mk (Suc i) ss else slice_msgs mk (Suc i) ss)"

lemma worker_send_slices_sends:
  assumes "pr_cust (kw_proc w) (kw_this w) = Some c" "van_resender (pr_van (kw_proc w)) = None"
    and "\<forall>m. w_send W m False \<noteq> -1" "\<forall>i s w. mk i s c (w :: 'x kvw) = Inr (mk' i s)"
  shows "\<exists>p. worker_send_slices W False mk False i ss w = Inr (w\<lparr>kw_proc := p\<rparr>) \<and> sent_only (kw_proc w) p \<and>
    van_outbox (pr_van p) = van_outbox (pr_van (kw_proc w)) @ map (\<lambda>m. (m, Local)) (slice_msgs mk' i ss)"
  using assms(1,2)
proof (induction ss arbitrary: i w)
  case Nil
  show ?case by (rule exI[of _ "kw_proc w"]) simp
next
  case (Cons x ss)
  obtain sent s where x: "x = (sent, s)" by fastforce
  show ?case
  proof (cases sent)
    case False
    with Cons.IH[OF Cons.prems, of "Suc i"] show ?thesis by (simp add: x)
  next
    case True
    let ?m = "mk' i s"
    from Send_ok[OF Cons.prems(2), of W ?m False] assms(3) obtain p1 n where
      p1: "Send W ?m False (kw_proc w) = Inr (p1, n)" "sent_only (kw_proc w) p1" "van_resender (pr_van p1) = None"
        "van_outbox (pr_van p1) = van_outbox (pr_van (kw_proc w)) @ [(?m, chan False)]" by blast
    let ?w1 = "w\<lparr>kw_proc := p1\<rparr>"
    have "pr_cust (kw_proc ?w1) (kw_this ?w1) = Some c" using sent_only_fields(1)[OF p1(2)] Cons.prems(1) by simp
    from Cons.IH[OF this, of "Suc i"] p1(3) obtain p where
      p: "worker_send_slices W False mk False (Suc i) ss ?w1 = Inr (?w1\<lparr>kw_proc := p\<rparr>)" "sent_only p1 p"
        "van_outbox (pr_van p) = van_outbox (pr_van p1) @ map (\<lambda>m. (m, Local)) (slice_msgs mk' (Suc i) ss)" by auto
    have "worker_send_slices W False mk False i (x # ss) w = Inr (w\<lparr>kw_proc := p\<rparr>)"
      using True p(1) p1(1) assms(4) Cons.prems(1) by (simp add: x obj_def on_proc_def)
    moreover have "sent_only (kw_proc w) p" using sent_only_trans[OF p1(2) p(2)] .
    ultimately show ?thesis using p(3) p1(4) True by (auto simp: x chan_def)
  qed
qed

definition slice_msg :: "int \<Rightarrow> bool \<Rightarrow> int \<Rightarrow> int \<Rightarrow> int \<Rightarrow> Customer \<Rightarrow> nat \<Rightarrow> kvs \<Rightarrow> Message" where
  "slice_msg ts push cmd uniq_key key_version c i s =
     (let mt = empty_Meta\<lparr>m_app_id := cu_app_id c, m_customer_id := cu_customer_id c, m_request := True, m_push := push,
            m_head := cmd, m_timestamp := ts, m_recver := ServerRankToID (int i) False, m_key := uniq_key,
            m_version := key_version, m_iters := 1\<rparr> in
      if kv_keys s = [] then empty_Message\<lparr>msg_meta := mt\<rparr>
      else empty_Message\<lparr>msg_meta := mt\<lparr>m_data_type := [UINT64, CHAR_T] @ (if kv_lens s \<noteq> [] then [INT32] else [])\<rparr>,
         msg_data := [bytes_of_keys (kv_keys s), kv_vals s] @ (if kv_lens s \<noteq> [] then [bytes_of_ints (kv_lens s)] else [])\<rparr>)"

lemma worker_msg_slice:
  "worker_msg ts push cmd uk kv kEmpty kEmpty 1 0 i s c w = Inr (slice_msg ts push cmd uk kv c i s)"
  by (simp add: worker_msg_def slice_msg_def Let_def AddKVs_data empty_Message_def empty_Meta_def)

text \<open>
  A request that is not forwarded, not prioritised and has keys: the slices are sent, the servers
  without a slice are counted as answered.
\<close>

lemma KVWorker_Send_sends:
  assumes "worker_ready L w" "pr_cust (kw_proc w) (kw_this w) = Some c" "tracked c ts"
    and "sorted (kv_keys kvs)" "kv_wf kvs" "kv_keys kvs \<noteq> []"
    and "\<forall>k \<in> set (kv_keys kvs). unat k < keys_served (po_num_servers (pr_po (kw_proc w)))"
  shows "\<exists>p c' sl. KVWorker_Send L ts push cmd kvs uk kv kEmpty kEmpty 1 False w = Inr (w\<lparr>kw_proc := p\<rparr>) \<and>
    DefaultSlicer kvs (key_ranges (po_num_servers (pr_po (kw_proc w)))) = Inr sl \<and>
    pr_cust p (kw_this w) = Some c' \<and> entry c' ts = (fst (entry c ts), snd (entry c ts) + skipped sl) \<and> tracked c' ts \<and>
    po_num_servers (pr_po p) = po_num_servers (pr_po (kw_proc w)) \<and>
    van_outbox (pr_van p) = van_outbox (pr_van (kw_proc w)) @
      map (\<lambda>m. (m, Local)) (slice_msgs (slice_msg ts push cmd uk kv c) 0 sl)"
proof -
  let ?po = "pr_po (kw_proc w)" and ?n = "po_num_servers (pr_po (kw_proc w))"
  have r: "ranges_ready ?po False" "0 < ?n" "?n < 2 ^ 31" "van_resender (pr_van (kw_proc w)) = None"
    "\<forall>m. w_send (lib_world L) m False \<noteq> -1" using assms(1) by (auto simp: worker_ready_def)
  have ns: "num_servers_of ?po False = ?n" by (simp add: num_servers_of_def)
  obtain po' where po': "GetServerKeyRanges ?po False = (po', key_ranges ?n)" "po_num_servers po' = ?n"
    using GetServerKeyRanges_ready[OF r(1)] unfolding ns num_servers_of_def by (cases "GetServerKeyRanges ?po False") auto
  have cov: "keys_covered 0 (key_ranges ?n) (kv_keys kvs)" using key_ranges_cover[OF r(2,3)] assms(7) by simp
  note ds = DefaultSlicer_slices[OF assms(4) cov assms(5)]
  obtain sl where sl: "DefaultSlicer kvs (key_ranges ?n) = Inr sl" using ds(1) by blast
  have some: "skipped sl \<noteq> int (length sl)"
  proof
    assume "skipped sl = int (length sl)"
    then have len: "length (filter (\<lambda>s. \<not> fst s) sl) = length sl" by (simp add: skipped_def)
    have none: "\<forall>x \<in> set sl. \<not> fst x"
    proof
      fix x assume "x \<in> set sl"
      from length_filter_less[OF this, of "\<lambda>s. \<not> fst s"] len show "\<not> fst x" by auto
    qed
    have keys: "concat (map (kv_keys \<circ> snd) sl) = kv_keys kvs" using slices_concat(1)[OF ds(2,3) assms(5) refl refl] ds(1) sl by simp
    have "kv_keys (snd x) = []" if x: "x \<in> set sl" for x
    proof -
      obtain p q where "x = (p \<noteq> q, kv_slice kvs (val_width kvs) p q)" using x ds(1) sl by auto
      then show ?thesis using none x by (auto simp: empty_KVPairs_def)
    qed
    then have "concat (map (kv_keys \<circ> snd) sl) = []" by simp
    then have "kv_keys kvs = []" using keys by simp
    with assms(6) show False ..
  qed
  define c' where "c' = c\<lparr>cu_tracker := (cu_tracker c)[nat ts := (fst (cu_tracker c ! nat ts), snd (cu_tracker c ! nat ts) + skipped sl)]\<rparr>"
  let ?w1 = "w\<lparr>kw_proc := (kw_proc w)\<lparr>pr_po := po', pr_cust := (pr_cust (kw_proc w))(kw_this w \<mapsto> c')\<rparr>\<rparr>"
  have add: "run_proc (obj_AddResponse (kw_this w) ts (skipped sl)) (w\<lparr>kw_proc := (kw_proc w)\<lparr>pr_po := po'\<rparr>\<rparr>) = Inr ?w1"
    using assms(2,3) by (simp add: run_proc_def obj_AddResponse_def with_cust_def AddResponse_def c'_def)
  have ent: "entry c' ts = (fst (entry c ts), snd (entry c ts) + skipped sl)" "tracked c' ts"
    using assms(3) by (auto simp: entry_def tracked_def c'_def)
  have mk: "\<forall>i s w. worker_msg ts push cmd uk kv kEmpty kEmpty 1 0 i s c' (w :: 'a kvw) = Inr (slice_msg ts push cmd uk kv c i s)"
    by (simp add: worker_msg_slice) (simp add: slice_msg_def c'_def)
  from worker_send_slices_sends[where w = ?w1 and c = c' and i = 0 and ss = sl
      and mk = "worker_msg ts push cmd uk kv kEmpty kEmpty 1 0" and mk' = "slice_msg ts push cmd uk kv c", OF _ _ r(5) mk] r(4) obtain p where
    p: "worker_send_slices (lib_world L) False (worker_msg ts push cmd uk kv kEmpty kEmpty 1 0) False 0 sl ?w1 = Inr (w\<lparr>kw_proc := p\<rparr>)"
      "sent_only (kw_proc ?w1) p" "van_outbox (pr_van p) = van_outbox (pr_van (kw_proc w)) @
        map (\<lambda>m. (m, Local)) (slice_msgs (slice_msg ts push cmd uk kv c) 0 sl)" by auto
  have "KVWorker_Send L ts push cmd kvs uk kv kEmpty kEmpty 1 False w = Inr (w\<lparr>kw_proc := p\<rparr>)"
    using po' sl add some p(1) by (simp add: KVWorker_Send_def)
  moreover have "pr_cust p (kw_this w) = Some c'" "po_num_servers (pr_po p) = ?n"
    using sent_only_fields[OF p(2)] po'(2) by simp_all
  ultimately show ?thesis using sl ent p(3) by (intro exI[of _ p] exI[of _ c'] exI[of _ sl] conjI)
qed

subsection \<open>What the messages carry\<close>

lemma slice_msgs_data:
  assumes "\<forall>(sent, s) \<in> set ss. sent \<longrightarrow> kv_keys s \<noteq> []" "\<forall>(sent, s) \<in> set ss. \<forall>l \<in> set (kv_lens s). int32 l"
  shows "map (\<lambda>m. kvs_of_data (msg_data m)) (slice_msgs (slice_msg ts push cmd uk kv c) i ss) =
    map (\<lambda>s. Inr ((snd s)\<lparr>kv_priority := 0\<rparr>)) (filter fst ss)"
  using assms
proof (induction ss arbitrary: i)
  case (Cons x ss)
  obtain sent s where x: "x = (sent, s)" by fastforce
  have "kvs_of_data (msg_data (slice_msg ts push cmd uk kv c i s)) = Inr (s\<lparr>kv_priority := 0\<rparr>)" if sent
    using Cons.prems that kvs_of_data_pack[of s] by (simp add: x slice_msg_def Let_def)
  then show ?case using Cons by (auto simp: x)
qed simp

lemma slice_msgs_nth:
  "m \<in> set (slice_msgs mk i ss) \<Longrightarrow> \<exists>j < length ss. fst (ss ! j) \<and> m = mk (i + j) (snd (ss ! j))"
proof (induction ss arbitrary: i)
  case (Cons x ss)
  obtain sent s where x: "x = (sent, s)" by fastforce
  show ?case
  proof (cases "sent \<and> m = mk i s")
    case True
    then show ?thesis by (intro exI[of _ 0]) (simp add: x)
  next
    case False
    then have "m \<in> set (slice_msgs mk (Suc i) ss)" using Cons.prems by (auto simp: x split: if_splits)
    from Cons.IH[OF this] obtain j where "j < length ss" "fst (ss ! j)" "m = mk (Suc i + j) (snd (ss ! j))" by blast
    then show ?thesis by (intro exI[of _ "Suc j"]) simp
  qed
qed simp

lemma concat_filter_sent:
  assumes "\<forall>x \<in> set ss. \<not> fst x \<longrightarrow> f (snd x) = []"
  shows "concat (map (\<lambda>s. f (snd s)) (filter fst ss)) = concat (map (\<lambda>s. f (snd s)) ss)"
  using assms by (induction ss) auto

lemma slices_sent:
  assumes "0 < n" "n < 2 ^ 31" "sorted (kv_keys kvs)" "kv_wf kvs" "\<forall>k \<in> set (kv_keys kvs). unat k < keys_served n"
    and "DefaultSlicer kvs (key_ranges n) = Inr sl"
  shows "\<forall>(sent, s) \<in> set sl. sent \<longrightarrow> kv_keys s \<noteq> []"
    and "\<forall>l \<in> set (kv_lens kvs). int32 l \<Longrightarrow> \<forall>(sent, s) \<in> set sl. \<forall>l \<in> set (kv_lens s). int32 l"
proof -
  from slices_facts[OF assms(1,2) refl assms(3-5)] assms(6)
  have lens: "concat (map (kv_lens \<circ> snd) sl) = kv_lens kvs" and each: "\<forall>i < length sl. fst (sl ! i) \<longleftrightarrow> kv_keys (snd (sl ! i)) \<noteq> []"
    by auto
  show "\<forall>(sent, s) \<in> set sl. sent \<longrightarrow> kv_keys s \<noteq> []" using each by (auto simp: in_set_conv_nth) (metis fst_conv snd_conv)
  show "\<forall>(sent, s) \<in> set sl. \<forall>l \<in> set (kv_lens s). int32 l" if "\<forall>l \<in> set (kv_lens kvs). int32 l"
    using that unfolding lens[symmetric] by force
qed

text \<open>The messages of a sliced list: who gets them and what they carry.\<close>

lemma slice_msgs_facts:
  assumes "0 < n" "n < 2 ^ 31" "sorted (kv_keys kvs)" "kv_wf kvs" "\<forall>k \<in> set (kv_keys kvs). unat k < keys_served n"
    and "\<forall>l \<in> set (kv_lens kvs). int32 l" "DefaultSlicer kvs (key_ranges n) = Inr sl"
    and "msgs = slice_msgs (slice_msg ts push cmd uniq_key version c) 0 sl"
  shows "\<exists>pieces. map (\<lambda>m. kvs_of_data (msg_data m)) msgs = map Inr pieces \<and>
    concat (map kv_keys pieces) = kv_keys kvs \<and> concat (map kv_vals pieces) = kv_vals kvs \<and> concat (map kv_lens pieces) = kv_lens kvs \<and>
    (\<forall>m \<in> set msgs. m_push (msg_meta m) = push \<and> m_request (msg_meta m) \<and> m_timestamp (msg_meta m) = ts \<and> m_head (msg_meta m) = cmd \<and>
      (\<exists>i < nat n. \<exists>s. m_recver (msg_meta m) = ServerRankToID (int i) False \<and> kvs_of_data (msg_data m) = Inr s \<and>
        kv_keys s = filter (\<lambda>k. range_begin (key_ranges n ! i) \<le> k \<and> k < range_end (key_ranges n ! i)) (kv_keys kvs)))"
proof -
  from slices_facts[OF assms(1,2) refl assms(3) assms(4) assms(5)] assms(7)
  have f: "length sl = nat n" "concat (map (kv_keys \<circ> snd) sl) = (kv_keys kvs)" "concat (map (kv_vals \<circ> snd) sl) = (kv_vals kvs)"
    "concat (map (kv_lens \<circ> snd) sl) = (kv_lens kvs)"
    and each: "\<forall>i < length sl. kv_keys (snd (sl ! i)) = filter (\<lambda>k. range_begin (key_ranges n ! i) \<le> k \<and> k < range_end (key_ranges n ! i)) (kv_keys kvs) \<and>
      (fst (sl ! i) \<longleftrightarrow> kv_keys (snd (sl ! i)) \<noteq> [])" by auto
  define pieces where "pieces = map (\<lambda>s. (snd s)\<lparr>kv_priority := 0\<rparr>) (filter fst sl)"
  have unsent: "snd x = empty_KVPairs" if "x \<in> set sl" "\<not> fst x" for x
    using slices_unsent[OF assms(1,2) assms(3) assms(4) assms(5,7) that] .
  note sent = slices_sent(1)[OF assms(1-5,7)] and ints = slices_sent(2)[OF assms(1-5,7,6)]
  have data: "map (\<lambda>m. kvs_of_data (msg_data m)) msgs = map Inr pieces"
    using slice_msgs_data[OF sent ints] by (simp add: assms(8) pieces_def comp_def)
  have parts: "concat (map kv_keys pieces) = (kv_keys kvs)" "concat (map kv_vals pieces) = (kv_vals kvs)" "concat (map kv_lens pieces) = (kv_lens kvs)"
    using f(2-4) concat_filter_sent[of sl kv_keys] concat_filter_sent[of sl kv_vals] concat_filter_sent[of sl kv_lens] unsent
    by (simp_all add: pieces_def comp_def empty_KVPairs_def)
  have each_msg: "m_push (msg_meta m) = push \<and> m_request (msg_meta m) \<and> m_timestamp (msg_meta m) = ts \<and> m_head (msg_meta m) = cmd \<and>
      (\<exists>i < nat n. \<exists>s. m_recver (msg_meta m) = ServerRankToID (int i) False \<and> kvs_of_data (msg_data m) = Inr s \<and>
        kv_keys s = filter (\<lambda>k. range_begin (key_ranges n ! i) \<le> k \<and> k < range_end (key_ranges n ! i)) (kv_keys kvs))"
    if "m \<in> set msgs" for m
  proof -
    from slice_msgs_nth[OF that[unfolded assms(8)]] obtain j where
      j: "j < length sl" "fst (sl ! j)" "m = slice_msg ts push cmd uniq_key version c j (snd (sl ! j))" by auto
    let ?s = "snd (sl ! j)"
    have k: "kv_keys ?s \<noteq> []" using each j(1,2) by blast
    have "\<forall>l \<in> set (kv_lens ?s). int32 l" using ints nth_mem[OF j(1)] by (auto simp: case_prod_unfold)
    then have "kvs_of_data (msg_data m) = Inr (?s\<lparr>kv_priority := 0\<rparr>)"
      using k kvs_of_data_pack[of ?s] by (simp add: j(3) slice_msg_def Let_def)
    moreover have "m_push (msg_meta m) = push" "m_request (msg_meta m)" "m_timestamp (msg_meta m) = ts" "m_head (msg_meta m) = cmd"
      "m_recver (msg_meta m) = ServerRankToID (int j) False" using k by (simp_all add: j(3) slice_msg_def Let_def)
    ultimately show ?thesis using each j(1) f(1) by auto
  qed
  show ?thesis using data parts each_msg by blast
qed

lemma ZPush_new_request:
  assumes "worker_ready L w"
  shows "\<exists>c' ts. on_proc (obj_NewRequest (kw_this w) kServerGroup False) w =
      Inr (w\<lparr>kw_proc := (kw_proc w)\<lparr>pr_cust := (pr_cust (kw_proc w))(kw_this w \<mapsto> c')\<rparr>\<rparr>, ts) \<and>
    tracked c' ts \<and> entry c' ts = (po_num_servers (pr_po (kw_proc w)), 0)"
proof -
  obtain c ids where c: "pr_cust (kw_proc w) (kw_this w) = Some c" "GetNodeIDs (pr_po (kw_proc w)) kServerGroup False = Inr ids"
    "int (length ids) = po_num_servers (pr_po (kw_proc w))" using assms by (auto simp: worker_ready_def)
  let ?c' = "c\<lparr>cu_tracker := cu_tracker c @ [(int (length ids), 0)]\<rparr>"
  have "NewRequest (pr_po (kw_proc w)) kServerGroup False c = Inr (?c', int (length (cu_tracker c)))"
    by (simp add: NewRequest_def c(2))
  moreover from NewRequest_entry[OF this] c(2,3)
  have "tracked ?c' (int (length (cu_tracker c)))" "entry ?c' (int (length (cu_tracker c))) = (po_num_servers (pr_po (kw_proc w)), 0)"
    by auto
  ultimately show ?thesis using c(1)
    by (intro exI[of _ ?c'] exI[of _ "int (length (cu_tracker c))"]) (simp add: on_proc_def obj_NewRequest_def with_cust_def)
qed


text \<open>A worker of a party with two servers.\<close>

definition plain_lib :: "KVWorker KVLib" where
  "plain_lib = \<lparr>lib_world = quiet_world, lib_sort = sort_key (\<lambda>s. hd (kv_keys s)), lib_throughput = (\<lambda>_. 1),
     lib_user = (\<lambda>_ w. Inr w), lib_request = (\<lambda>_ _ w. Inr w), lib_simple_request = (\<lambda>_ w. Inr w),
     lib_simple_response = (\<lambda>_ w. Inr w)\<rparr>"

definition two_server_worker :: KVWorker where
  "two_server_worker = \<lparr>
     kw_proc = \<lparr>pr_van = new_Van, pr_po = empty_Postoffice\<lparr>po_node_ids := [2 \<mapsto> [100, 102]], po_num_servers := 2\<rparr>,
       pr_cust = [7 \<mapsto> new_Customer 0 0], pr_env = Map.empty\<rparr>,
     kw_this = 7, kw_recv_kvs = Map.empty, kw_auto_pull_kvs = (\<lambda>_. []), kw_callbacks = Map.empty, kw_send_push = 0,
     kw_enable_intra_ts = 0, kw_enable_p3 = 0, kw_vals = (\<lambda>_. []), kw_lens = (\<lambda>_. [])\<rparr>"

lemma two_server_worker_ready: "worker_ready plain_lib two_server_worker"
  by (simp add: worker_ready_def two_server_worker_def plain_lib_def quiet_world_def new_Van_def ranges_ready_def
      empty_Postoffice_def GetNodeIDs_def kServerGroup_def)


subsection \<open>The answers\<close>

text \<open>A message that answers timestamp \<open>ts\<close> with a key-value list.\<close>

definition answer_of :: "int \<Rightarrow> kvs \<Rightarrow> Message \<Rightarrow> bool" where
  "answer_of ts s m \<longleftrightarrow> m_timestamp (msg_meta m) = ts \<and> \<not> m_push (msg_meta m) \<and> \<not> m_request (msg_meta m) \<and>
     \<not> m_simple_app (msg_meta m) \<and> msg_data m \<noteq> [] \<and> kvs_of_data (msg_data m) = Inr s"

text \<open>The receiving thread: the handler, then the count.\<close>

definition worker_receive :: "'x kvw KVLib \<Rightarrow> Message \<Rightarrow> 'x kvw \<Rightarrow> 'x kvw res" where
  "worker_receive L m w =
     rbind (KVWorker_Process L m w) (\<lambda>w1.
       if m_request (msg_meta m) then Inr w1
       else run_proc (obj_AddResponse (kw_this w1) (m_timestamp (msg_meta m)) 1) w1)"

fun worker_receive_all :: "'x kvw KVLib \<Rightarrow> Message list \<Rightarrow> 'x kvw \<Rightarrow> 'x kvw res" where
  "worker_receive_all L [] w = Inr w"
| "worker_receive_all L (m # ms) w = rbind (worker_receive L m w) (worker_receive_all L ms)"

text \<open>A request in flight: so many responses counted, these pieces received, this callback waiting.\<close>

definition in_flight :: "int \<Rightarrow> int \<Rightarrow> int \<Rightarrow> kvs list \<Rightarrow> callback \<Rightarrow> 'x kvw \<Rightarrow> bool" where
  "in_flight ts n counted got cb w \<longleftrightarrow>
     (\<exists>c. pr_cust (kw_proc w) (kw_this w) = Some c \<and> tracked c ts \<and> entry c ts = (n, counted)) \<and>
     po_num_servers (pr_po (kw_proc w)) = n \<and> received ts w = got \<and> kw_callbacks w ts = Some cb"

lemma obj_AddResponse_one:
  assumes "pr_cust (kw_proc w) (kw_this w) = Some c" "tracked c ts"
  shows "\<exists>c'. run_proc (obj_AddResponse (kw_this w) ts 1) w = Inr (w\<lparr>kw_proc := (kw_proc w)\<lparr>pr_cust := (pr_cust (kw_proc w))(kw_this w \<mapsto> c')\<rparr>\<rparr>) \<and>
    tracked c' ts \<and> entry c' ts = (fst (entry c ts), snd (entry c ts) + 1)"
proof -
  let ?c' = "c\<lparr>cu_tracker := (cu_tracker c)[nat ts := (fst (cu_tracker c ! nat ts), snd (cu_tracker c ! nat ts) + 1)]\<rparr>"
  have "AddResponse ts 1 c = Inr ?c'" using assms(2) by (simp add: AddResponse_def)
  then show ?thesis using assms AddResponse_entry[of ts 1 c ?c' ts]
    by (intro exI[of _ ?c']) (simp add: run_proc_def obj_AddResponse_def with_cust_def)
qed

text \<open>An answer that is not the last is stored and counted.\<close>

lemma worker_receive_early:
  assumes "in_flight ts n counted got cb w" "answer_of ts s m" "counted \<noteq> n - 1"
  shows "\<exists>w'. worker_receive L m w = Inr w' \<and> in_flight ts n (counted + 1) (got @ [s]) cb w' \<and>
    kw_vals w' = kw_vals w \<and> kw_lens w' = kw_lens w \<and> kw_this w' = kw_this w"
proof -
  from assms(1) obtain c where c: "pr_cust (kw_proc w) (kw_this w) = Some c" "tracked c ts" "entry c ts = (n, counted)"
    "po_num_servers (pr_po (kw_proc w)) = n" "received ts w = got" "kw_callbacks w ts = Some cb" by (auto simp: in_flight_def)
  let ?w1 = "store_received ts s w"
  have w1: "kw_proc ?w1 = kw_proc w" "kw_this ?w1 = kw_this w" "received ts ?w1 = got @ [s]" "kw_callbacks ?w1 = kw_callbacks w"
    "kw_vals ?w1 = kw_vals w" "kw_lens ?w1 = kw_lens w" by (simp_all add: store_received_def received_def c(5)[unfolded received_def])
  have "obj_NumResponse (kw_this ?w1) ts (kw_proc ?w1) = Inr counted"
    using c(1-3) by (simp add: obj_NumResponse_def obj_def NumResponse_def w1 entry_def)
  then have proc: "KVWorker_Process L m w = Inr ?w1"
    using assms(2,3) c(4) by (simp add: KVWorker_Process_def answer_of_def finish_request_def w1)
  from obj_AddResponse_one[of ?w1 c ts] c(1,2) obtain c' where
    c': "run_proc (obj_AddResponse (kw_this ?w1) ts 1) ?w1 = Inr (?w1\<lparr>kw_proc := (kw_proc w)\<lparr>pr_cust := (pr_cust (kw_proc w))(kw_this w \<mapsto> c')\<rparr>\<rparr>)"
      "tracked c' ts" "entry c' ts = (n, counted + 1)" by (auto simp: w1 c(3))
  then show ?thesis using proc assms(2) w1 c(4,6) by (auto simp: worker_receive_def answer_of_def in_flight_def received_def)
qed

text \<open>Pieces that put together are the keys fill the buffers, in whatever order they were received.\<close>

definition fits :: "nat \<Rightarrow> 'v list \<Rightarrow> bool" where
  "fits n buf \<longleftrightarrow> buf = [] \<or> length buf = n"

lemma sized_fits: "fits n buf \<Longrightarrow> \<exists>b. sized z n buf = Inr b \<and> length b = n"
  by (auto simp: fits_def sized_def)

definition piece_ok :: "key list \<Rightarrow> kvs \<Rightarrow> bool" where
  "piece_ok keys s \<longleftrightarrow> kv_keys s \<noteq> [] \<and> length (kv_lens s) = length (kv_keys s) \<and>
     (\<exists>r. FindRange keys (hd (kv_keys s)) (last (kv_keys s) + 1) = Inr r \<and> range_size r = of_nat (length (kv_keys s)))"

lemma sorted_heads:
  assumes "sorted_wrt (<) (concat (map kv_keys ss))" "\<forall>s \<in> set ss. kv_keys s \<noteq> []"
  shows "sorted_wrt (<) (map (\<lambda>s. hd (kv_keys s)) ss)"
  using assms by (induction ss) (auto simp: sorted_wrt_append)

lemma pull_callback_fills:
  assumes "sorts_kvs (lib_sort L)" "mset (received ts w) = mset ss" "\<forall>s \<in> set ss. piece_ok keys s"
    and "concat (map kv_keys ss) = keys" "sorted_wrt (<) keys"
    and "fits (length (concat (map kv_vals ss))) (kw_vals w vals)" "\<forall>l. lens = Some l \<longrightarrow> fits (length keys) (kw_lens w l)"
  shows "pull_callback L ts keys vals lens None w = Inr (w\<lparr>
    kw_vals := (kw_vals w)(vals := concat (map kv_vals ss)),
    kw_lens := (case lens of Some l \<Rightarrow> (kw_lens w)(l := concat (map kv_lens ss)) | None \<Rightarrow> kw_lens w),
    kw_recv_kvs := (kw_recv_kvs w)(ts := None)\<rparr>)"
proof -
  have heads: "sorted_wrt (<) (map (\<lambda>s. hd (kv_keys s)) ss)"
    using sorted_heads[of ss] assms(3-5) by (simp add: piece_ok_def)
  then have sorted: "sorted (map (\<lambda>s. hd (kv_keys s)) ss)" "inj_on (\<lambda>s. hd (kv_keys s)) (set ss)"
    by (simp_all add: strict_sorted_imp_sorted strict_sorted_iff distinct_map)
  have order: "lib_sort L (received ts w) = ss"
    using sorted_unique[OF _ _ sorted] assms(1,2) by (simp add: sorts_kvs_def)
  have set: "set (received ts w) = set ss" using assms(2) by (rule mset_eq_setD)
  have sums: "length (concat (map f (received ts w))) = length (concat (map f ss))" for f :: "kvs \<Rightarrow> 'b list"
  proof -
    have "sum_mset (image_mset (\<lambda>s. length (f s)) (mset (received ts w))) = sum_mset (image_mset (\<lambda>s. length (f s)) (mset ss))"
      by (simp only: assms(2))
    then show ?thesis by (simp add: length_concat comp_def flip: sum_mset_sum_list)
  qed
  have totals: "pull_totals keys hl (received ts w) = Inr (length keys, length (concat (map kv_vals ss)))" for hl
    using pull_totals_pieces[of "received ts w" keys hl] assms(3) sums[of kv_keys] sums[of kv_vals] assms(4)
    by (simp add: set piece_ok_def)
  obtain vbuf where v: "sized 0 (length (concat (map kv_vals ss))) (kw_vals w vals) = Inr vbuf"
    "length vbuf = length (concat (map kv_vals ss))" using sized_fits[OF assms(6)] by blast
  have lens: "length (concat (map kv_lens ss)) = length keys"
  proof -
    have "map (length \<circ> kv_lens) ss = map (length \<circ> kv_keys) ss" using assms(3) by (simp add: piece_ok_def)
    then show ?thesis unfolding assms(4)[symmetric] length_concat map_map by (simp only:)
  qed
  show ?thesis
  proof (cases lens)
    case None
    then show ?thesis using totals v fill_loop_concat[where vals = vbuf and pv = 0 and ss = ss and lens = None and pl = 0]
      by (simp add: pull_callback_def order user_callback_def)
  next
    case (Some l)
    obtain lbuf where "sized 0 (length keys) (kw_lens w l) = Inr lbuf" "length lbuf = length keys"
      using sized_fits[of "length keys" "kw_lens w l" 0] assms(7) Some by blast
    then show ?thesis using Some totals v fill_loop_concat[where vals = vbuf and pv = 0 and ss = ss and lens = "Some lbuf" and pl = 0] lens
      by (simp add: pull_callback_def order user_callback_def)
  qed
qed

text \<open>The handler of the last answer runs the callback.\<close>

lemma worker_receive_last:
  assumes "in_flight ts n (n - 1) got cb w" "answer_of ts s m"
    and "run_callback L ts cb (store_received ts s w) = Inr w1" "kw_proc w1 = kw_proc w" "kw_this w1 = kw_this w"
  shows "\<exists>p c. worker_receive L m w = Inr (w1\<lparr>kw_proc := p, kw_callbacks := (kw_callbacks w1)(ts := None)\<rparr>) \<and>
    pr_cust p (kw_this w) = Some c \<and> WaitRequest_done c ts = Inr True"
proof -
  from assms(1) obtain c where c: "pr_cust (kw_proc w) (kw_this w) = Some c" "tracked c ts" "entry c ts = (n, n - 1)"
    "po_num_servers (pr_po (kw_proc w)) = n" "kw_callbacks w ts = Some cb" by (auto simp: in_flight_def)
  let ?w0 = "store_received ts s w" and ?w2 = "w1\<lparr>kw_callbacks := (kw_callbacks w1)(ts := None)\<rparr>"
  have w0: "kw_proc ?w0 = kw_proc w" "kw_this ?w0 = kw_this w" "kw_callbacks ?w0 = kw_callbacks w" by (simp_all add: store_received_def)
  have "obj_NumResponse (kw_this ?w0) ts (kw_proc ?w0) = Inr (n - 1)"
    using c(1-3) by (simp add: obj_NumResponse_def obj_def NumResponse_def w0 entry_def)
  then have proc: "KVWorker_Process L m w = Inr ?w2"
    using assms(2,3) c(4,5) by (simp add: KVWorker_Process_def answer_of_def finish_request_def w0 KVWorker_RunCallback_def)
  from obj_AddResponse_one[of ?w2 c ts] c(1,2) assms(4,5) obtain c' where
    c': "run_proc (obj_AddResponse (kw_this ?w2) ts 1) ?w2 = Inr (?w2\<lparr>kw_proc := (kw_proc w)\<lparr>pr_cust := (pr_cust (kw_proc w))(kw_this w \<mapsto> c')\<rparr>\<rparr>)"
      "tracked c' ts" "entry c' ts = (n, n)" by (auto simp: c(3))
  have "WaitRequest_done c' ts = Inr True" using c'(2,3) by (simp add: WaitRequest_done_def entry_def)
  moreover have "worker_receive L m w = Inr (?w2\<lparr>kw_proc := (kw_proc w)\<lparr>pr_cust := (pr_cust (kw_proc w))(kw_this w \<mapsto> c')\<rparr>\<rparr>)"
    using proc assms(2) c'(1) by (simp add: worker_receive_def answer_of_def)
  ultimately show ?thesis by (intro exI[of _ "(kw_proc w)\<lparr>pr_cust := (pr_cust (kw_proc w))(kw_this w \<mapsto> c')\<rparr>"] exI[of _ c']) simp
qed

text \<open>All answers: the early ones are stored, the last one completes the request.\<close>

lemma worker_receive_all_answers:
  assumes "list_all2 (answer_of ts) ss ms" "ss \<noteq> []" "in_flight ts n (n - int (length ss)) got cb w"
    and "\<And>w'. received ts w' = got @ ss \<Longrightarrow> kw_vals w' = kw_vals w \<Longrightarrow> kw_lens w' = kw_lens w \<Longrightarrow>
      \<exists>w1. run_callback L ts cb w' = Inr w1 \<and> kw_proc w1 = kw_proc w' \<and> kw_this w1 = kw_this w' \<and> P w1"
    and "\<And>w1 p f. P w1 \<Longrightarrow> P (w1\<lparr>kw_proc := p, kw_callbacks := f\<rparr>)"
  shows "\<exists>w2 c. worker_receive_all L ms w = Inr w2 \<and> P w2 \<and> kw_callbacks w2 ts = None \<and>
    pr_cust (kw_proc w2) (kw_this w) = Some c \<and> WaitRequest_done c ts = Inr True"
  using assms
proof (induction ss ms arbitrary: got w rule: list_all2_induct)
  case (Cons s ss m ms)
  show ?case
  proof (cases "ss = []")
    case True
    then have ms: "ms = []" using Cons.hyps(2) by simp
    have fl: "in_flight ts n (n - 1) got cb w" using Cons.prems(2) True by simp
    have "received ts (store_received ts s w) = got @ [s]"
      using fl by (simp add: store_received_def received_def in_flight_def split: option.splits)
    from Cons.prems(3)[of "store_received ts s w"] this True obtain w1 where
      w1: "run_callback L ts cb (store_received ts s w) = Inr w1" "kw_proc w1 = kw_proc w" "kw_this w1 = kw_this w" "P w1"
      by (auto simp: store_received_def)
    from worker_receive_last[OF fl Cons.hyps(1) w1(1-3)] obtain p c where
      "worker_receive L m w = Inr (w1\<lparr>kw_proc := p, kw_callbacks := (kw_callbacks w1)(ts := None)\<rparr>)"
      "pr_cust p (kw_this w) = Some c" "WaitRequest_done c ts = Inr True" by blast
    with Cons.prems(4)[OF w1(4)] ms show ?thesis by auto
  next
    case False
    then have "n - int (length (s # ss)) \<noteq> n - 1" by (cases ss) auto
    from worker_receive_early[OF Cons.prems(2) Cons.hyps(1) this, of L] obtain w' where
      w': "worker_receive L m w = Inr w'" "in_flight ts n (n - int (length ss)) (got @ [s]) cb w'"
        "kw_vals w' = kw_vals w" "kw_lens w' = kw_lens w" "kw_this w' = kw_this w" by auto
    from Cons.IH[OF False w'(2)] Cons.prems(3,4) w'(1,3-5) show ?thesis by simp
  qed
qed simp

subsection \<open>A pull\<close>

text \<open>What a server with the values \<open>store\<close> answers to a request for the keys of \<open>s\<close>.\<close>

definition reply_kvs :: "(key \<Rightarrow> bytes) \<Rightarrow> kvs \<Rightarrow> kvs" where
  "reply_kvs store s = \<lparr>kv_keys = kv_keys s, kv_vals = concat (map store (kv_keys s)),
     kv_lens = map (\<lambda>k. int (length (store k))) (kv_keys s), kv_priority = 0\<rparr>"

definition keys_kvs :: "key list \<Rightarrow> kvs" where
  "keys_kvs keys = \<lparr>kv_keys = keys, kv_vals = [], kv_lens = [], kv_priority = 0\<rparr>"

lemma keys_served_max: "unat (k :: key) < keys_served n \<Longrightarrow> k \<noteq> - 1"
proof
  assume "unat k < keys_served n" "k = - 1"
  moreover have "keys_served n \<le> 2 ^ 64 - 1" by (simp add: keys_served_def div_times_less_eq_dividend)
  ultimately show False using unat_kMaxKey by (simp add: kMaxKey_def)
qed

text \<open>The slices of a key list, answered: pieces that the callback accepts.\<close>

lemma replies_ok:
  assumes "0 < n" "n < 2 ^ 31" "sorted_wrt (<) keys" "\<forall>k \<in> set keys. unat k < keys_served n"
    and "DefaultSlicer (keys_kvs keys) (key_ranges n) = Inr sl" "ss = map (\<lambda>s. reply_kvs store (snd s)) (filter fst sl)"
  shows "\<forall>s \<in> set ss. piece_ok keys s" "concat (map kv_keys ss) = keys" "concat (map kv_vals ss) = concat (map store keys)"
    "concat (map kv_lens ss) = map (\<lambda>k. int (length (store k))) keys" "int (length ss) = n - skipped sl"
proof -
  have kv: "sorted (kv_keys (keys_kvs keys))" "kv_wf (keys_kvs keys)" "\<forall>k \<in> set (kv_keys (keys_kvs keys)). unat k < keys_served n"
    using assms(3,4) by (simp_all add: keys_kvs_def kv_wf_def strict_sorted_imp_sorted)
  have cov: "keys_covered 0 (key_ranges n) (kv_keys (keys_kvs keys))" using key_ranges_cover[OF assms(1,2)] kv(3) by simp
  note ds = DefaultSlicer_slices[OF kv(1) cov kv(2)]
  have sl: "length sl = nat n" "concat (map (kv_keys \<circ> snd) sl) = keys"
    using slices_facts[OF assms(1,2) refl kv] assms(5) by (auto simp: keys_kvs_def)
  have unsent: "snd x = empty_KVPairs" if "x \<in> set sl" "\<not> fst x" for x
    using slices_unsent[OF assms(1,2) kv assms(5) that] .
  have keys: "concat (map kv_keys ss) = keys"
    using concat_filter_sent[of sl kv_keys] sl(2) unsent by (simp add: assms(6) reply_kvs_def comp_def empty_KVPairs_def)
  have flat: "kv_vals s = concat (map store (kv_keys s))" "kv_lens s = map (\<lambda>k. int (length (store k))) (kv_keys s)"
    if "s \<in> set ss" for s using that by (auto simp: assms(6) reply_kvs_def)
  show "concat (map kv_keys ss) = keys" by (fact keys)
  show "concat (map kv_vals ss) = concat (map store keys)"
    unfolding keys[symmetric] using flat(1) by (induction ss) auto
  show "concat (map kv_lens ss) = map (\<lambda>k. int (length (store k))) keys"
    unfolding keys[symmetric] using flat(2) by (induction ss) auto
  have "length (filter fst sl) + length (filter (\<lambda>s. \<not> fst s) sl) = length sl" by (rule sum_length_filter_compl)
  then show "int (length ss) = n - skipped sl" using sl(1) assms(1) by (simp add: assms(6) skipped_def)
  show "\<forall>s \<in> set ss. piece_ok keys s"
  proof
    fix s assume "s \<in> set ss"
    then obtain x where x: "x \<in> set sl" "fst x" "s = reply_kvs store (snd x)" by (auto simp: assms(6))
    let ?ps = "slice_bounds keys (key_ranges n)"
    have eq: "sl = map2 (\<lambda>p q. (p \<noteq> q, kv_slice (keys_kvs keys) (val_width (keys_kvs keys)) p q)) ?ps (tl ?ps)"
      using ds(1) assms(5) by (simp add: keys_kvs_def)
    obtain i where "i < length sl" "x = sl ! i" using x(1) by (metis in_set_conv_nth)
    then have i: "Suc i < length ?ps" "x = (?ps ! i \<noteq> ?ps ! Suc i, kv_slice (keys_kvs keys) (val_width (keys_kvs keys)) (?ps ! i) (?ps ! Suc i))"
      unfolding eq by (simp_all add: nth_tl)
    have sorted: "sorted ?ps" using ds(2) by (simp add: keys_kvs_def)
    have "?ps ! i \<le> ?ps ! Suc i" using sorted i(1) by (simp add: sorted_nth_mono)
    moreover have "?ps ! Suc i \<le> length keys"
      using i(1) below_le by (simp add: slice_bounds_def)
    moreover have "?ps ! i \<noteq> ?ps ! Suc i" using x(2) i(2) by simp
    ultimately have pq: "?ps ! i < ?ps ! Suc i" "?ps ! Suc i \<le> length keys" by simp_all
    have k: "kv_keys s = between id (?ps ! i) (?ps ! Suc i) keys" by (simp add: x(3) i(2) reply_kvs_def kv_slice_def keys_kvs_def)
    have "\<forall>k \<in> set keys. k \<noteq> - 1" using assms(4) keys_served_max by blast
    from FindRange_piece[OF assms(3) pq this k] show "piece_ok keys s"
      using pq k by (auto simp: piece_ok_def x(3) reply_kvs_def between_def)
  qed
qed

lemma Pull_ts_sends:
  assumes "worker_ready L w" "n = po_num_servers (pr_po (kw_proc w))" "sorted_wrt (<) keys" "keys \<noteq> []"
    and "\<forall>k \<in> set keys. unat k < keys_served n" "\<forall>t. kw_recv_kvs w t = None"
  shows "\<exists>w1 ts sl c. Pull_ts L keys vals lens cmd cb w = Inr (w1, ts) \<and>
    DefaultSlicer (keys_kvs keys) (key_ranges n) = Inr sl \<and> 0 < n \<and> n < 2 ^ 31 \<and>
    van_outbox (pr_van (kw_proc w1)) = van_outbox (pr_van (kw_proc w)) @
      map (\<lambda>m. (m, Local)) (slice_msgs (slice_msg ts False cmd kEmpty kEmpty c) 0 sl) \<and>
    in_flight ts n (skipped sl) [] (PullCb keys vals lens cb) w1 \<and>
    kw_vals w1 = kw_vals w \<and> kw_lens w1 = kw_lens w \<and> kw_this w1 = kw_this w"
proof -
  from ZPush_new_request[OF assms(1)] obtain c ts where
    new: "on_proc (obj_NewRequest (kw_this w) kServerGroup False) w =
      Inr (w\<lparr>kw_proc := (kw_proc w)\<lparr>pr_cust := (pr_cust (kw_proc w))(kw_this w \<mapsto> c)\<rparr>\<rparr>, ts)" "tracked c ts" "entry c ts = (n, 0)"
    unfolding assms(2) by blast
  define w2 where "w2 = KVWorker_AddCallback ts (Some (PullCb keys vals lens cb))
    (w\<lparr>kw_proc := (kw_proc w)\<lparr>pr_cust := (pr_cust (kw_proc w))(kw_this w \<mapsto> c)\<rparr>\<rparr>)"
  have w2: "kw_proc w2 = (kw_proc w)\<lparr>pr_cust := (pr_cust (kw_proc w))(kw_this w \<mapsto> c)\<rparr>" "kw_this w2 = kw_this w"
    "kw_callbacks w2 ts = Some (PullCb keys vals lens cb)" "kw_vals w2 = kw_vals w" "kw_lens w2 = kw_lens w" "received ts w2 = []"
    using assms(6) by (simp_all add: w2_def KVWorker_AddCallback_def received_def)
  have ready: "worker_ready L w2" using assms(1) by (simp add: worker_ready_def w2)
  have cust: "pr_cust (kw_proc w2) (kw_this w2) = Some c" by (simp add: w2)
  have n: "po_num_servers (pr_po (kw_proc w2)) = n" "0 < n" "n < 2 ^ 31" using ready assms(2) by (auto simp: worker_ready_def w2)
  have kvs: "sorted (kv_keys (keys_kvs keys))" "kv_wf (keys_kvs keys)" "kv_keys (keys_kvs keys) \<noteq> []"
    "\<forall>k \<in> set (kv_keys (keys_kvs keys)). unat k < keys_served n"
    using assms(3-5) by (simp_all add: keys_kvs_def kv_wf_def strict_sorted_imp_sorted)
  from KVWorker_Send_sends[OF ready cust new(2) kvs(1-3), of False cmd kEmpty kEmpty] kvs(4) n(1)
  obtain p c' sl where send: "KVWorker_Send L ts False cmd (keys_kvs keys) kEmpty kEmpty kEmpty kEmpty 1 False w2 = Inr (w2\<lparr>kw_proc := p\<rparr>)"
    and sl: "DefaultSlicer (keys_kvs keys) (key_ranges n) = Inr sl"
    and p: "pr_cust p (kw_this w2) = Some c'" "entry c' ts = (n, skipped sl)" "tracked c' ts" "po_num_servers (pr_po p) = n"
    and out: "van_outbox (pr_van p) = van_outbox (pr_van (kw_proc w2)) @
      map (\<lambda>m. (m, Local)) (slice_msgs (slice_msg ts False cmd kEmpty kEmpty c) 0 sl)" by (auto simp: new(3))
  have "Pull_ts L keys vals lens cmd cb w = Inr (w2\<lparr>kw_proc := p\<rparr>, ts)"
    using new(1) send by (simp add: Pull_ts_def w2_def keys_kvs_def)
  moreover have "in_flight ts n (skipped sl) [] (PullCb keys vals lens cb) (w2\<lparr>kw_proc := p\<rparr>)"
    using p w2 by (simp add: in_flight_def received_def)
  ultimately show ?thesis using sl n out w2 by (intro exI[of _ "w2\<lparr>kw_proc := p\<rparr>"] exI[of _ ts] exI[of _ sl] exI[of _ c]) simp
qed

text \<open>
  C1: a pull delivers. Pulling sorted, distinct keys that all have a server sends requests whose
  keys, put together, are the keys pulled. However the servers' answers are ordered, once each request
  is answered with the values a server stores, the destination buffer holds the values of the keys in
  the order of the keys, the length buffer their lengths, the callback has run and is gone, and waiting
  for the timestamp returns.
\<close>

theorem pull_delivers:
  assumes "worker_ready L w" "sorts_kvs (lib_sort L)" "n = po_num_servers (pr_po (kw_proc w))" "sorted_wrt (<) keys" "keys \<noteq> []"
    and "\<forall>k \<in> set keys. unat k < keys_served n" "\<forall>t. kw_recv_kvs w t = None"
    and "fits (length (concat (map store keys))) (kw_vals w vals)" "\<forall>l. lens = Some l \<longrightarrow> fits (length keys) (kw_lens w l)"
  shows "\<exists>w1 ts msgs reqs. Pull_ts L keys vals lens cmd None w = Inr (w1, ts) \<and>
    van_outbox (pr_van (kw_proc w1)) = van_outbox (pr_van (kw_proc w)) @ map (\<lambda>m. (m, Local)) msgs \<and>
    map (\<lambda>m. kvs_of_data (msg_data m)) msgs = map Inr reqs \<and> concat (map kv_keys reqs) = keys \<and>
    (\<forall>ss ms. mset ss = mset (map (reply_kvs store) reqs) \<longrightarrow> list_all2 (answer_of ts) ss ms \<longrightarrow>
      (\<exists>w2 c. worker_receive_all L ms w1 = Inr w2 \<and> kw_vals w2 vals = concat (map store keys) \<and>
        (\<forall>l. lens = Some l \<longrightarrow> kw_lens w2 l = map (\<lambda>k. int (length (store k))) keys) \<and>
        kw_callbacks w2 ts = None \<and> pr_cust (kw_proc w2) (kw_this w) = Some c \<and> WaitRequest_done c ts = Inr True))"
proof -
  from Pull_ts_sends[OF assms(1,3,4,5,6,7), of vals lens cmd None] obtain w1 ts sl c where
    pull: "Pull_ts L keys vals lens cmd None w = Inr (w1, ts)" and sl: "DefaultSlicer (keys_kvs keys) (key_ranges n) = Inr sl"
    and n: "0 < n" "n < 2 ^ 31" and out: "van_outbox (pr_van (kw_proc w1)) = van_outbox (pr_van (kw_proc w)) @
      map (\<lambda>m. (m, Local)) (slice_msgs (slice_msg ts False cmd kEmpty kEmpty c) 0 sl)"
    and fl: "in_flight ts n (skipped sl) [] (PullCb keys vals lens None) w1"
    and same: "kw_vals w1 = kw_vals w" "kw_lens w1 = kw_lens w" "kw_this w1 = kw_this w" by blast
  have kvs: "sorted (kv_keys (keys_kvs keys))" "kv_wf (keys_kvs keys)" "\<forall>k \<in> set (kv_keys (keys_kvs keys)). unat k < keys_served n"
    using assms(4,6) by (simp_all add: keys_kvs_def kv_wf_def strict_sorted_imp_sorted)
  define reqs where "reqs = map (\<lambda>s. (snd s)\<lparr>kv_priority := 0\<rparr>) (filter fst sl)"
  define pieces where "pieces = map (\<lambda>s. reply_kvs store (snd s)) (filter fst sl)"
  have replies: "map (reply_kvs store) reqs = pieces" by (simp add: reqs_def pieces_def comp_def reply_kvs_def)
  note ok = replies_ok[OF n assms(4,6) sl pieces_def]
  have done_all: "\<exists>w2 c. worker_receive_all L ms w1 = Inr w2 \<and> kw_vals w2 vals = concat (map store keys) \<and>
      (\<forall>l. lens = Some l \<longrightarrow> kw_lens w2 l = map (\<lambda>k. int (length (store k))) keys) \<and>
      kw_callbacks w2 ts = None \<and> pr_cust (kw_proc w2) (kw_this w) = Some c \<and> WaitRequest_done c ts = Inr True"
    if perm: "mset ss = mset pieces" and ans: "list_all2 (answer_of ts) ss ms" for ss ms
  proof -
    have ne: "ss \<noteq> []" using perm ok(2) assms(5) by auto
    have len: "n - int (length ss) = skipped sl" using ok(5) perm by (metis diff_diff_eq2 add_diff_cancel_left' size_mset)
    let ?P = "\<lambda>w2. kw_vals w2 vals = concat (map store keys) \<and> (\<forall>l. lens = Some l \<longrightarrow> kw_lens w2 l = map (\<lambda>k. int (length (store k))) keys)"
    have cb: "\<exists>w2. run_callback L ts (PullCb keys vals lens None) w' = Inr w2 \<and> kw_proc w2 = kw_proc w' \<and> kw_this w2 = kw_this w' \<and> ?P w2"
      if "received ts w' = [] @ ss" "kw_vals w' = kw_vals w1" "kw_lens w' = kw_lens w1" for w'
      using pull_callback_fills[OF assms(2) _ ok(1,2) assms(4), of ts w' vals lens] that perm assms(8,9) same ok(3,4) by auto
    have fl': "in_flight ts n (n - int (length ss)) [] (PullCb keys vals lens None) w1" using fl len by simp
    have keep: "?P (w2\<lparr>kw_proc := p, kw_callbacks := f\<rparr>)" if "?P w2" for w2 p f using that by simp
    from worker_receive_all_answers[OF ans ne fl', where P = ?P, OF cb keep] obtain w2 c where
      "worker_receive_all L ms w1 = Inr w2" "?P w2" "kw_callbacks w2 ts = None" "pr_cust (kw_proc w2) (kw_this w1) = Some c"
      "WaitRequest_done c ts = Inr True" by blast
    then show ?thesis unfolding same(3) by blast
  qed
  have "map (\<lambda>m. kvs_of_data (msg_data m)) (slice_msgs (slice_msg ts False cmd kEmpty kEmpty c) 0 sl) = map Inr reqs"
    and "concat (map kv_keys reqs) = keys"
    using slice_msgs_data[OF slices_sent(1)[OF n kvs sl] slices_sent(2)[OF n kvs sl]] ok(2) replies
    by (auto simp: keys_kvs_def reqs_def pieces_def comp_def reply_kvs_def)
  then show ?thesis using pull out done_all replies by blast
qed

definition answer_msg :: "int \<Rightarrow> kvs \<Rightarrow> Message" where
  "answer_msg ts s = empty_Message\<lparr>msg_meta := empty_Meta\<lparr>m_timestamp := ts\<rparr>,
     msg_data := [bytes_of_keys (kv_keys s), kv_vals s] @ (if kv_lens s \<noteq> [] then [bytes_of_ints (kv_lens s)] else [])\<rparr>"

lemma answer_msg_answers:
  assumes "\<forall>l \<in> set (kv_lens s). int32 l" "kv_priority s = 0"
  shows "answer_of ts s (answer_msg ts s)"
  using kvs_of_data_pack[OF assms(1)] assms(2) by (simp add: answer_of_def answer_msg_def empty_Meta_def)

theorem pull_delivers_witness:
  "\<exists>w1 ts reqs w2. Pull_ts plain_lib [3, 9223372036854775809] 0 None 0 None two_server_worker = Inr (w1, ts) \<and>
    concat (map kv_keys reqs) = [3, 9223372036854775809] \<and>
    worker_receive_all plain_lib (map (answer_msg ts) (rev (map (reply_kvs (\<lambda>k. [ucast k])) reqs))) w1 = Inr w2 \<and>
    kw_vals w2 0 = [3, 1]"
proof -
  let ?keys = "[3, 9223372036854775809 :: key]" and ?store = "\<lambda>k :: key. [ucast k :: 8 word]"
  have h: "sorts_kvs (lib_sort plain_lib)" "2 = po_num_servers (pr_po (kw_proc two_server_worker))"
    "sorted_wrt (<) ?keys" "?keys \<noteq> []" "\<forall>k \<in> set ?keys. unat k < keys_served 2" "\<forall>t. kw_recv_kvs two_server_worker t = None"
    "fits (length (concat (map ?store ?keys))) (kw_vals two_server_worker 0)"
    "\<forall>l. (None :: nat option) = Some l \<longrightarrow> fits (length ?keys) (kw_lens two_server_worker l)"
    by (simp_all add: sorts_kvs_def plain_lib_def two_server_worker_def keys_served_def fits_def)
  from pull_delivers[OF two_server_worker_ready h, of 0] obtain w1 ts msgs reqs where
    w1: "Pull_ts plain_lib ?keys 0 None 0 None two_server_worker = Inr (w1, ts)" "concat (map kv_keys reqs) = ?keys" and
    all: "\<forall>ss ms. mset ss = mset (map (reply_kvs ?store) reqs) \<longrightarrow> list_all2 (answer_of ts) ss ms \<longrightarrow>
      (\<exists>w2 c. worker_receive_all plain_lib ms w1 = Inr w2 \<and> kw_vals w2 0 = concat (map ?store ?keys) \<and>
        (\<forall>l. None = Some l \<longrightarrow> kw_lens w2 l = map (\<lambda>k. int (length (?store k))) ?keys) \<and>
        kw_callbacks w2 ts = None \<and> pr_cust (kw_proc w2) (kw_this two_server_worker) = Some c \<and> WaitRequest_done c ts = Inr True)"
    by (elim exE conjE)
  let ?ss = "rev (map (reply_kvs ?store) reqs)"
  have "list_all2 (answer_of ts) ?ss (map (answer_msg ts) ?ss)"
    by (auto simp: list_all2_conv_all_nth list.rel_map reply_kvs_def int32_def rev_nth intro!: answer_msg_answers)
  with all[rule_format, OF mset_rev] obtain w2 where "worker_receive_all plain_lib (map (answer_msg ts) ?ss) w1 = Inr w2"
    "kw_vals w2 0 = concat (map ?store ?keys)" by blast
  moreover have "concat (map ?store ?keys) = [3, 1]" by simp
  ultimately show ?thesis using w1 by (intro exI[of _ w1] exI[of _ ts] exI[of _ reqs] exI[of _ w2]) simp
qed



end
