(* ===== verification/KVServers.thy ===== *)
theory KVServers
  imports Pulls
begin

text \<open>
  \<open>KVServer\<close> (\<^verbatim>\<open>include/ps/kv_app.h\<close>): the server's side of pushes and pulls, its own requests to the
  global servers, the cutting of a global push into DGT chunks and their channels, and TSEngine
  forwarding. What the application supplies is \<open>KVSLib\<close>: its two request handlers, callbacks and
  simple handlers, together with \<open>std::sort\<close> on messages, the measured throughput, the parsing of
  environment values and the floating point expressions of this file.
\<close>

record FpuS = Fpu +
  f_contrib :: "f32 \<Rightarrow> f32 \<Rightarrow> f32 \<Rightarrow> int \<Rightarrow> f32"
  f_min_index :: "f32 \<Rightarrow> int \<Rightarrow> int"
  f_of_int :: "int \<Rightarrow> f32"
  f_edge :: "int \<Rightarrow> int \<Rightarrow> int \<Rightarrow> int \<Rightarrow> f32"

record KVServer =
  ks_proc :: Proc
  ks_this :: nat
  ks_callbacks :: "int \<rightharpoonup> nat"
  ks_send_push :: int
  ks_iter :: int
  ks_global_iter :: int
  ks_enable_intra_ts :: int
  ks_enable_inter_ts :: int
  ks_enable_p3 :: int
  ks_enable_dgt :: int
  ks_dmlc_k :: f32
  ks_contribution_alpha :: f32
  ks_dgt_info :: int
  ks_block_size :: int
  ks_dmlc_k_init :: f32
  ks_dmlc_k_min :: f32
  ks_adaptive_k_flag :: int
  ks_udp_channel_num :: int
  ks_contribution :: "int \<Rightarrow> (int \<rightharpoonup> f32)"

type_synonym 'x kvs_state = "'x KVServer_scheme"

record 's KVSLib =
  sl_world :: World
  sl_fpu :: FpuS
  sl_sort :: "Message list \<Rightarrow> Message list"
  sl_throughput :: "nat \<Rightarrow> int"
  sl_env_int :: "string \<Rightarrow> int res"
  sl_env_float :: "string \<Rightarrow> f32 res"
  sl_user :: "nat \<Rightarrow> 's \<Rightarrow> 's res"
  sl_request :: "KVMeta \<Rightarrow> kvs \<Rightarrow> 's \<Rightarrow> 's res"
  sl_request_global :: "KVMeta \<Rightarrow> kvs \<Rightarrow> 's \<Rightarrow> 's res"
  sl_simple_request :: "SimpleData \<Rightarrow> 's \<Rightarrow> 's res"
  sl_simple_response :: "SimpleData \<Rightarrow> 's \<Rightarrow> 's res"

definition srv_proc :: "(Proc \<Rightarrow> (Proc \<times> 'a) res) \<Rightarrow> 'x kvs_state \<Rightarrow> ('x kvs_state \<times> 'a) res" where
  "srv_proc f s = rbind (f (ks_proc s)) (\<lambda>(p, x). Inr (s\<lparr>ks_proc := p\<rparr>, x))"

definition srv_run :: "(Proc \<Rightarrow> Proc res) \<Rightarrow> 'x kvs_state \<Rightarrow> 'x kvs_state res" where
  "srv_run f s = rbind (f (ks_proc s)) (\<lambda>p. Inr (s\<lparr>ks_proc := p\<rparr>))"

subsection \<open>Callbacks and responses\<close>

definition KVServer_AddCallback :: "int \<Rightarrow> nat option \<Rightarrow> 'x kvs_state \<Rightarrow> 'x kvs_state" where
  "KVServer_AddCallback ts cb s = (case cb of None \<Rightarrow> s | Some c \<Rightarrow> s\<lparr>ks_callbacks := (ks_callbacks s)(ts \<mapsto> c)\<rparr>)"

definition KVServer_RunCallback :: "'x kvs_state KVSLib \<Rightarrow> int \<Rightarrow> 'x kvs_state \<Rightarrow> 'x kvs_state res" where
  "KVServer_RunCallback L ts s =
     (case ks_callbacks s ts of
        None \<Rightarrow> Inr s
      | Some cb \<Rightarrow> rbind (sl_user L cb s) (\<lambda>s'. Inr (s'\<lparr>ks_callbacks := (ks_callbacks s')(ts := None)\<rparr>)))"

definition KVServer_Response :: "'x kvs_state KVSLib \<Rightarrow> KVMeta \<Rightarrow> kvs \<Rightarrow> bool \<Rightarrow> 'x kvs_state \<Rightarrow> 'x kvs_state res" where
  "KVServer_Response L req res is_global s =
     rbind (obj (ks_this s) (ks_proc s)) (\<lambda>c.
     let m = empty_Message\<lparr>msg_meta := empty_Meta\<lparr>m_app_id := cu_app_id c, m_customer_id := km_customer_id req,
           m_request := False, m_push := km_push req, m_head := km_cmd req, m_timestamp := km_timestamp req,
           m_recver := km_sender req, m_key := km_key req, m_version := 0\<rparr>\<rparr> in
     rbind (if kv_keys res \<noteq> [] then AddKVs (kv_vals res) res m else Inr m) (\<lambda>m1.
     rbind (srv_proc (Send (sl_world L) m1 is_global) s) (\<lambda>(s1, _). Inr s1)))"

text \<open>The example handler: \<open>store\<close> with byte values, absent keys reading as 0.\<close>

fun store_add :: "key list \<Rightarrow> bytes \<Rightarrow> (key \<Rightarrow> 8 word) \<Rightarrow> (key \<Rightarrow> 8 word)" where
  "store_add (k # ks) (v # vs) st = store_add ks vs (st(k := st k + v))"
| "store_add _ _ st = st"

definition KVServerDefaultHandle ::
  "'x kvs_state KVSLib \<Rightarrow> KVMeta \<Rightarrow> kvs \<Rightarrow> (key \<Rightarrow> 8 word) \<times> 'x kvs_state \<Rightarrow> ((key \<Rightarrow> 8 word) \<times> 'x kvs_state) res" where
  "KVServerDefaultHandle L req req_data = (\<lambda>(store, s).
     chk (km_push req \<longrightarrow> length (kv_keys req_data) = length (kv_vals req_data)) ''n == req_data.vals.size()''
      (let store' = (if km_push req then store_add (kv_keys req_data) (kv_vals req_data) store else store);
           res = (if km_push req then empty_KVPairs
                  else empty_KVPairs\<lparr>kv_keys := kv_keys req_data, kv_vals := map store (kv_keys req_data)\<rparr>) in
       rbind (KVServer_Response L req res False s) (\<lambda>s'. Inr (store', s'))))"

subsection \<open>DGT\<close>

definition env_or :: "(string \<Rightarrow> 'a res) \<Rightarrow> env \<Rightarrow> string \<Rightarrow> 'a \<Rightarrow> 'a res" where
  "env_or parse env name d = (case env name of None \<Rightarrow> Inr d | Some v \<Rightarrow> if v = [] then Inr d else parse v)"

text \<open>The defaults 0.3, 0.5 and 0.2 as single precision patterns.\<close>

definition InitDGT :: "'x kvs_state KVSLib \<Rightarrow> 'x kvs_state \<Rightarrow> 'x kvs_state res" where
  "InitDGT L s =
     (let env = pr_env (ks_proc s); int_env = env_or (sl_env_int L) env; float_env = env_or (sl_env_float L) env in
      rbind (float_env ''DGT_CONTRIBUTION_ALPHA'' 0x3E99999A) (\<lambda>alpha.
      rbind (int_env ''DGT_INFO'' 0) (\<lambda>info.
      rbind (int_env ''DGT_BLOCK_SIZE'' 4096) (\<lambda>block.
      rbind (float_env ''DMLC_K'' 0x3F000000) (\<lambda>k.
      rbind (float_env ''DMLC_K_MIN'' 0x3E4CCCCD) (\<lambda>k_min.
      rbind (int_env ''ADAPTIVE_K_FLAG'' 0) (\<lambda>adaptive.
      rbind (int_env ''DMLC_UDP_CHANNEL_NUM'' 1) (\<lambda>channels.
        Inr (s\<lparr>ks_contribution_alpha := alpha, ks_dgt_info := info, ks_block_size := block, ks_dmlc_k_init := k,
          ks_dmlc_k_min := k_min, ks_adaptive_k_flag := adaptive, ks_udp_channel_num := channels\<rparr>)))))))))"

text \<open>The constructor on a process whose customer is registered at \<open>this\<close>.\<close>

definition new_KVServer :: "Proc \<Rightarrow> nat \<Rightarrow> KVServer" where
  "new_KVServer p this = \<lparr>ks_proc = p, ks_this = this, ks_callbacks = Map.empty, ks_send_push = 0, ks_iter = -1,
     ks_global_iter = -1, ks_enable_intra_ts = 0, ks_enable_inter_ts = 0, ks_enable_p3 = 0, ks_enable_dgt = 0,
     ks_dmlc_k = 0x3F800000, ks_contribution_alpha = 0, ks_dgt_info = 0, ks_block_size = 0, ks_dmlc_k_init = 0,
     ks_dmlc_k_min = 0, ks_adaptive_k_flag = 0, ks_udp_channel_num = 0, ks_contribution = (\<lambda>_. Map.empty)\<rparr>"

definition KVServer_init :: "KVServer KVSLib \<Rightarrow> Proc \<Rightarrow> nat \<Rightarrow> KVServer res" where
  "KVServer_init L p this =
     (let int_env = env_or (sl_env_int L) (pr_env p) in
      rbind (int_env ''ENABLE_INTER_TS'' 0) (\<lambda>inter.
      rbind (int_env ''ENABLE_INTRA_TS'' 0) (\<lambda>intra.
      rbind (int_env ''ENABLE_DGT'' 0) (\<lambda>dgt.
      rbind (int_env ''ENABLE_P3'' 0) (\<lambda>p3.
        let s = (new_KVServer p this)\<lparr>ks_enable_inter_ts := inter, ks_enable_intra_ts := intra, ks_enable_dgt := dgt,
                  ks_enable_p3 := p3\<rparr> in
        if dgt \<noteq> 0 then InitDGT L s else Inr s)))))"

text \<open>The sum of absolute values; \<open>fabs\<close> clears the sign bit.\<close>

definition abs_sum :: "FpuS \<Rightarrow> f32 list \<Rightarrow> f32" where
  "abs_sum fp xs = foldl (\<lambda>acc v. f_add fp acc (v AND 0x7FFFFFFF)) 0 xs"

definition EvalMsgContribution :: "FpuS \<Rightarrow> f32 \<Rightarrow> int \<Rightarrow> Message \<Rightarrow> (int \<Rightarrow> (int \<rightharpoonup> f32)) \<Rightarrow> (f32 \<times> (int \<Rightarrow> (int \<rightharpoonup> f32))) res" where
  "EvalMsgContribution fp alpha key m contribution =
     rbind (data1 m) (\<lambda>bs.
       let nlen = int (length bs div 4); N = abs_sum fp (floats_of bs); seq = m_seq (msg_meta m);
           old = (case contribution key seq of None \<Rightarrow> 0 | Some x \<Rightarrow> x);
           new = f_contrib fp alpha old N nlen in
       Inr (new, contribution(key := (contribution key)(seq \<mapsto> new))))"

text \<open>The channels after the reliable one: the slot whose edges enclose the index.\<close>

fun channel_loop :: "FpuS \<Rightarrow> int \<Rightarrow> int \<Rightarrow> int \<Rightarrow> int \<Rightarrow> nat \<Rightarrow> nat \<Rightarrow> int option" where
  "channel_loop fp C mn mx index i 0 = None"
| "channel_loop fp C mn mx index i (Suc n) =
     (if 0 < mx - mn then
        (if \<not> f_less fp (f_of_int fp index) (f_edge fp mn mx C (int i)) \<and>
            f_less fp (f_of_int fp index) (f_edge fp mn mx C (int i + 1)) then Some (int i + 1)
         else channel_loop fp C mn mx index (Suc i) n)
      else Some (int i + 1))"

definition GetChannel :: "(nat \<Rightarrow> int) \<Rightarrow> FpuS \<Rightarrow> int \<Rightarrow> int \<Rightarrow> int \<Rightarrow> f32 \<Rightarrow> int res" where
  "GetChannel rand fp index max_index C k =
     (let min_index = f_min_index fp k (max_index + 1) in
      if index < min_index then Inr 0
      else (case channel_loop fp C min_index max_index index 0 (nat C) of
              Some ch \<Rightarrow> Inr ch
            | None \<Rightarrow> defined (C \<noteq> 0) ''rand() % C'' (Inr (cmod (rand (nat index)) C + 1))))"

text \<open>Which data type's width the chunks declare.\<close>

definition dgt_bits :: "int \<Rightarrow> int" where
  "dgt_bits dtype = (if dtype = 2 then 16 else 32)"

text \<open>A \<open>Key\<close> stored in an \<open>int\<close>.\<close>

definition int_of_key :: "key \<Rightarrow> int" where
  "int_of_key k = sint (ucast k :: 32 word)"

definition dgt_chunk :: "int \<Rightarrow> int \<Rightarrow> Customer \<Rightarrow> nat \<Rightarrow> int \<Rightarrow> kvs \<Rightarrow> int \<Rightarrow> int \<Rightarrow> int \<Rightarrow> int \<Rightarrow> bytes \<Rightarrow> Message res" where
  "dgt_chunk ts cmd c i dtype kvs total_bytes seq_num val_bytes seq tmp_val =
     rbind (AddKVs tmp_val kvs (empty_Message\<lparr>msg_meta := empty_Meta\<lparr>
         m_app_id := cu_app_id c, m_customer_id := cu_customer_id c, m_request := True, m_push := True, m_head := cmd,
         m_timestamp := ts, m_recver := ServerRankToID (int i) True, m_msg_type := 1, m_total_bytes := total_bytes,
         m_bits_num := dgt_bits dtype, m_val_bytes := val_bytes, m_first_key := int_of_key (hd (kv_keys kvs)),
         m_seq := seq, m_seq_begin := 0, m_seq_end := seq_num - 1\<rparr>\<rparr>))
       (\<lambda>m. Inr (m\<lparr>msg_meta := (msg_meta m)\<lparr>m_keys_len := 8 * int (length (kv_keys kvs)), m_vals_len := int (length tmp_val),
             m_lens_len := (if kv_lens kvs \<noteq> [] then 4 * int (length (kv_lens kvs)) else m_lens_len (msg_meta m))\<rparr>\<rparr>))"

text \<open>
  Cutting into blocks: each block becomes a chunk with its contribution, and is kept when that is not
  zero or when it is the last. A negative block size makes the end of the first segment negative,
  which as a \<open>size_t\<close> is beyond the array.
\<close>

function dgt_chunks ::
  "FpuS \<Rightarrow> f32 \<Rightarrow> int \<Rightarrow> kvs \<Rightarrow> (int \<Rightarrow> int \<Rightarrow> bytes \<Rightarrow> Message res) \<Rightarrow> int \<Rightarrow> int \<Rightarrow> int \<Rightarrow> (int \<Rightarrow> (int \<rightharpoonup> f32)) \<Rightarrow>
   (Message list \<times> (int \<Rightarrow> (int \<rightharpoonup> f32))) res" where
  "dgt_chunks fp alpha block_size kvs mk val_bytes remain seq contribution =
     (if remain = 0 then Inr ([], contribution)
      else (let l = min remain block_size in
        if l \<le> 0 then Inl (Check ''end <= size()'')
        else rbind (segment (nat val_bytes) (nat (val_bytes + l)) (kv_vals kvs)) (\<lambda>tmp_val.
          rbind (mk val_bytes seq tmp_val) (\<lambda>m.
          rbind (EvalMsgContribution fp alpha (int_of_key (hd (kv_keys kvs))) m contribution) (\<lambda>(x, contribution1).
          rbind (dgt_chunks fp alpha block_size kvs mk (val_bytes + l) (remain - l) (seq + 1) contribution1) (\<lambda>(ms, contribution2).
            Inr (if (x AND 0x7FFFFFFF) \<noteq> 0 \<or> m_seq (msg_meta m) = m_seq_end (msg_meta m)
                 then m\<lparr>msg_contribution := x\<rparr> # ms else ms, contribution2)))))))"
  by pat_completeness auto
termination by (relation "measure (\<lambda>(fp, alpha, bs, kvs, mk, vb, remain, seq, con). nat remain)") (auto simp: min_def split: if_splits)

declare dgt_chunks.simps [simp del]

text \<open>Channel and type of service of the chunks from position \<open>j\<close> on.\<close>

fun dgt_assign :: "(nat \<Rightarrow> int) \<Rightarrow> FpuS \<Rightarrow> int \<Rightarrow> f32 \<Rightarrow> int \<Rightarrow> nat \<Rightarrow> Message list \<Rightarrow> Proc \<Rightarrow> Proc res" where
  "dgt_assign rand fp C k max_index j [] p = Inr p"
| "dgt_assign rand fp C k max_index j (m # ms) p =
     rbind (GetChannel rand fp (int j) max_index C k) (\<lambda>ch0.
       let ch = (if m_seq (msg_meta m) = m_seq_end (msg_meta m) then 0 else ch0);
           m1 = m\<lparr>msg_meta := (msg_meta m)\<lparr>m_channel := ch, m_tos := (C - ch) * 32\<rparr>\<rparr> in
       dgt_assign rand fp C k max_index (Suc j) ms (upd_van (AssignMsg m1 ch) p))"

text \<open>
  The DGT branch of \<open>Send\<close> for server \<open>i\<close>. The whole list is cut, not the server's slice. With
  no bytes to send the range to sort would end before it begins.
\<close>

definition dgt_send :: "'x kvs_state KVSLib \<Rightarrow> int \<Rightarrow> int \<Rightarrow> nat \<Rightarrow> int \<Rightarrow> kvs \<Rightarrow> 'x kvs_state \<Rightarrow> 'x kvs_state res" where
  "dgt_send L ts cmd i dtype kvs s =
     (let total_bytes = int (length (kv_vals kvs)); block = ks_block_size s in
      defined (block \<noteq> 0) ''/ block_size''
       (let seq_num = cdiv (total_bytes + block - 1) block; s1 = s\<lparr>ks_dmlc_k := ks_dmlc_k_init s\<rparr> in
        defined (total_bytes = 0 \<or> kv_keys kvs \<noteq> []) ''kvs.keys[0]''
         (rbind (obj (ks_this s) (ks_proc s)) (\<lambda>c.
          rbind (dgt_chunks (sl_fpu L) (ks_contribution_alpha s) block kvs (dgt_chunk ts cmd c i dtype kvs total_bytes seq_num)
                   0 total_bytes 0 (ks_contribution s)) (\<lambda>(ms, contribution).
          defined (ms \<noteq> []) ''msg_vector.end() - 1''
           (srv_run (dgt_assign (w_rand (sl_world L)) (sl_fpu L) (ks_udp_channel_num s) (ks_dmlc_k s1)
                (int (length ms) - 1) 0 (sl_sort L (butlast ms) @ [last ms]))
              (s1\<lparr>ks_contribution := contribution\<rparr>)))))))"

subsection \<open>Requests of a server\<close>

definition server_msg :: "int \<Rightarrow> bool \<Rightarrow> int \<Rightarrow> int \<Rightarrow> int \<Rightarrow> int \<Rightarrow> int \<Rightarrow> int \<Rightarrow> nat \<Rightarrow> kvs \<Rightarrow> Customer \<Rightarrow> 'x kvs_state \<Rightarrow> Message res" where
  "server_msg ts push cmd uniq_key key_version app customer num_merge i sl c s =
     (let m = empty_Message\<lparr>msg_meta := empty_Meta\<lparr>
            m_app_id := (if app \<noteq> kEmpty then app else cu_app_id c),
            m_customer_id := (if customer \<noteq> kEmpty then customer else cu_customer_id c),
            m_request := True, m_push := push, m_head := cmd, m_timestamp := ts,
            m_sender := (if app \<noteq> kEmpty then n_id (van_my_node_global (pr_van (ks_proc s))) else kEmpty),
            m_recver := (if app \<noteq> kEmpty then ks_send_push s else ServerRankToID (int i) True),
            m_key := uniq_key, m_version := key_version, m_iters := (if num_merge \<noteq> 1 then num_merge else 1)\<rparr>\<rparr>
      in if kv_keys sl \<noteq> [] then AddKVs (kv_vals sl) sl m else Inr m)"

fun server_send_slices ::
  "'x kvs_state KVSLib \<Rightarrow> int \<Rightarrow> bool \<Rightarrow> int \<Rightarrow> kvs \<Rightarrow> bool \<Rightarrow> (nat \<Rightarrow> kvs \<Rightarrow> Customer \<Rightarrow> 'x kvs_state \<Rightarrow> Message res) \<Rightarrow>
   nat \<Rightarrow> (bool \<times> kvs) list \<Rightarrow> 'x kvs_state \<Rightarrow> 'x kvs_state res" where
  "server_send_slices L ts push cmd kvs forward mk i [] s = Inr s"
| "server_send_slices L ts push cmd kvs forward mk i ((sent, sl) # ss) s =
     (if \<not> sent then server_send_slices L ts push cmd kvs forward mk (Suc i) ss s
      else rbind (DepairDataHandleType cmd) (\<lambda>type.
        rbind (if dh_requestType type = kDefaultPushPull \<and> push \<and> ks_enable_dgt s \<noteq> 0 then dgt_send L ts cmd i (dh_dtype type) kvs s
               else rbind (obj (ks_this s) (ks_proc s)) (\<lambda>c.
                 rbind (mk i sl c s) (\<lambda>m.
                 rbind (srv_proc (Send (sl_world L) m True) s) (\<lambda>(s1, _).
                   Inr (if forward then s1\<lparr>ks_send_push := 0\<rparr> else s1)))))
          (server_send_slices L ts push cmd kvs forward mk (Suc i) ss)))"

definition KVServer_Send ::
  "'x kvs_state KVSLib \<Rightarrow> int \<Rightarrow> bool \<Rightarrow> int \<Rightarrow> kvs \<Rightarrow> int \<Rightarrow> int \<Rightarrow> int \<Rightarrow> int \<Rightarrow> int \<Rightarrow> 'x kvs_state \<Rightarrow> 'x kvs_state res" where
  "KVServer_Send L ts push cmd kvs uniq_key key_version app customer num_merge s =
     (let (po, ranges) = GetServerKeyRanges (pr_po (ks_proc s)) True;
          s0 = s\<lparr>ks_proc := (ks_proc s)\<lparr>pr_po := po\<rparr>\<rparr> in
      rbind (DefaultSlicer kvs ranges) (\<lambda>sliced.
      rbind (srv_run (obj_AddResponse (ks_this s) ts (skipped sliced)) s0) (\<lambda>s1.
      rbind (if skipped sliced = int (length sliced) then KVServer_RunCallback L ts s1 else Inr s1) (\<lambda>s2.
        server_send_slices L ts push cmd kvs (app \<noteq> kEmpty)
          (server_msg ts push cmd uniq_key key_version app customer num_merge) 0 sliced s2))))"

definition KVServer_Push :: "'x kvs_state KVSLib \<Rightarrow> kvs \<Rightarrow> int \<Rightarrow> nat option \<Rightarrow> int \<Rightarrow> 'x kvs_state \<Rightarrow> ('x kvs_state \<times> int) res" where
  "KVServer_Push L kvs cmd cb uniq_key s =
     rbind (srv_proc (obj_NewRequest (ks_this s) kServerGroupGlobal True) s) (\<lambda>(s1, ts).
     let s2 = KVServer_AddCallback ts cb s1 in
     if ks_enable_inter_ts s \<noteq> 0 \<and> kv_keys kvs \<noteq> [] then
       rbind (obj (ks_this s) (ks_proc s2)) (\<lambda>c.
       rbind (sl_request_global L (empty_KVMeta\<lparr>km_cmd := cmd, km_push := True,
                km_sender := n_id (van_my_node_global (pr_van (ks_proc s2))), km_timestamp := ts, km_app_id := cu_app_id c,
                km_customer_id := cu_customer_id c, km_key := uniq_key, km_version := 0, km_num_merge := 1\<rparr>) kvs s2) (\<lambda>s3.
       rbind (srv_run (AskForReceiverPush (sl_world L) (cu_app_id c) (cu_customer_id c) ts True) s3) (\<lambda>s4. Inr (s4, ts))))
     else rbind (KVServer_Send L ts True cmd kvs uniq_key 0 kEmpty kEmpty 1 s2) (\<lambda>s3. Inr (s3, ts)))"

text \<open>\<open>Pull\<close> counts the members of the global group on the party's layer.\<close>

definition KVServer_Pull :: "'x kvs_state KVSLib \<Rightarrow> key list \<Rightarrow> int \<Rightarrow> int \<Rightarrow> 'x kvs_state \<Rightarrow> ('x kvs_state \<times> int) res" where
  "KVServer_Pull L keys cmd uniq_key s =
     rbind (srv_proc (obj_NewRequest (ks_this s) kServerGroupGlobal False) s) (\<lambda>(s1, ts).
     rbind (KVServer_Send L ts False cmd \<lparr>kv_keys = keys, kv_vals = [], kv_lens = [], kv_priority = 0\<rparr>
              uniq_key 0 kEmpty kEmpty 1 s1) (\<lambda>s2. Inr (s2, ts)))"

subsection \<open>Receiving\<close>

text \<open>The iteration a forward belongs to: the caller's, or the next of the layer.\<close>

definition next_iter :: "bool \<Rightarrow> int \<Rightarrow> 'x kvs_state \<Rightarrow> int \<times> 'x kvs_state" where
  "next_iter is_global custom_iter s =
     (if custom_iter \<noteq> -1 then (custom_iter, s)
      else if is_global then (ks_global_iter s + 1, s\<lparr>ks_global_iter := ks_global_iter s + 1\<rparr>)
      else (ks_iter s + 1, s\<lparr>ks_iter := ks_iter s + 1\<rparr>))"

definition KVServer_AutoPullUpdate ::
  "'x kvs_state KVSLib \<Rightarrow> moves \<Rightarrow> int \<Rightarrow> KVMeta \<Rightarrow> kvs \<Rightarrow> bool \<Rightarrow> int \<Rightarrow> int \<Rightarrow> int \<Rightarrow> 'x kvs_state \<Rightarrow> ('x kvs_state \<times> moves) res" where
  "KVServer_AutoPullUpdate L ms version req kvs is_global custom_iter custom_key custom_cmd s =
     (let (iters, s1) = next_iter is_global custom_iter s; v = pr_van (ks_proc s) in
      rbind (obj (ks_this s) (ks_proc s)) (\<lambda>c.
        srv_proc (autopull_loop (sl_world L) (sl_throughput L) is_global (kv_keys kvs \<noteq> [])
          (autopull_msg (if custom_cmd \<noteq> -1 then custom_cmd else km_cmd req) c
             (if is_global then n_id (van_my_node_global v) else n_id (van_my_node v))
             (if custom_key \<noteq> -1 then custom_key else km_key req) version iters kvs) iters 0 (-1) (-1) ms) s1))"

definition KVServer_AutoPullReply :: "'x kvs_state KVSLib \<Rightarrow> int \<Rightarrow> 'x kvs_state \<Rightarrow> 'x kvs_state res" where
  "KVServer_AutoPullReply L sndr s = rbind (srv_proc (Send (sl_world L) (AutoPullReply_msg sndr) True) s) (\<lambda>(s1, _). Inr s1)"

text \<open>The key-value list of a message; one without data is empty.\<close>

definition server_kvs :: "bytes list \<Rightarrow> kvs res" where
  "server_kvs ds =
     (if ds = [] then Inr empty_KVPairs
      else chk (2 \<le> length ds) ''n >= 2'' (chk (length ds \<le> 3) ''n == 3''
        (rbind (kvs_of_data ds) (\<lambda>kvs.
           chk (length ds = 3 \<longrightarrow> length (kv_lens kvs) = length (kv_keys kvs)) ''data.lens.size() == data.keys.size()'' (Inr kvs)))))"

text \<open>The \<open>app_id\<close> of the meta given to the handler is the request flag.\<close>

definition server_meta :: "Message \<Rightarrow> KVMeta" where
  "server_meta m = (kv_meta m)\<lparr>km_num_merge := (if m_iters (msg_meta m) = kEmpty then 1 else m_iters (msg_meta m)),
     km_app_id := (if m_request (msg_meta m) then 1 else 0)\<rparr>"

text \<open>A push another party's server forwards to this one, which is not a global server.\<close>

definition relayed_push :: "Message \<Rightarrow> 'x kvs_state \<Rightarrow> bool" where
  "relayed_push m s \<longleftrightarrow> ks_enable_inter_ts s \<noteq> 0 \<and> \<not> po_is_global_server (pr_po (ks_proc s)) \<and>
     m_sender (msg_meta m) < 100 \<and> m_push (msg_meta m) \<and> m_request (msg_meta m)"

definition process_relayed :: "'x kvs_state KVSLib \<Rightarrow> Message \<Rightarrow> 'x kvs_state \<Rightarrow> 'x kvs_state res" where
  "process_relayed L m s =
     (let mt = msg_meta m in
      if msg_data m \<noteq> [] then
        rbind (three_kvs (msg_data m)) (\<lambda>kvs.
        rbind (sl_request_global L (kv_meta m) kvs s)
          (srv_run (AskForReceiverPush (sl_world L) (m_app_id mt) (m_customer_id mt) (m_timestamp mt) True)))
      else sl_request_global L (empty_KVMeta\<lparr>km_num_merge := -1\<rparr>) empty_KVPairs (s\<lparr>ks_send_push := m_iters mt\<rparr>))"

text \<open>The questions to the schedulers and the forwarding of a model, before the handlers.\<close>

definition process_ts :: "'x kvs_state KVSLib \<Rightarrow> moves \<Rightarrow> Message \<Rightarrow> kvs \<Rightarrow> 'x kvs_state \<Rightarrow> ('x kvs_state \<times> moves) res" where
  "process_ts L ms m data s =
     (let mt = msg_meta m; ask = (\<lambda>g. srv_run (AskForReceiverPush (sl_world L) (m_app_id mt) (m_customer_id mt) (m_timestamp mt) g)) in
      rbind (if ks_enable_intra_ts s \<noteq> 0 \<and> 100 < m_sender mt \<and> m_push mt \<and> m_request mt then ask False s else Inr s) (\<lambda>s1.
      rbind (if ks_enable_inter_ts s1 \<noteq> 0 \<and> \<not> po_is_global_server (pr_po (ks_proc s1)) \<and> m_sender mt < 100 \<and>
                \<not> m_push mt \<and> msg_data m \<noteq> [] \<and> m_request mt
             then rbind (KVServer_AutoPullReply L (m_sender mt) s1)
               (KVServer_AutoPullUpdate L ms (m_version mt) empty_KVMeta data True (m_iters mt) (m_key mt) (m_head mt))
             else Inr (s1, ms)) (\<lambda>(s2, ms2).
      rbind (if ks_enable_inter_ts s2 \<noteq> 0 \<and> po_is_global_server (pr_po (ks_proc s2)) \<and> m_sender mt < 100 \<and> m_push mt \<and> m_request mt
             then ask True s2 else Inr s2) (\<lambda>s3. Inr (s3, ms2)))))"

definition KVServer_Process :: "'x kvs_state KVSLib \<Rightarrow> moves \<Rightarrow> Message \<Rightarrow> 'x kvs_state \<Rightarrow> ('x kvs_state \<times> moves) res" where
  "KVServer_Process L ms m s =
     (if m_simple_app (msg_meta m) then
        rbind (SimpleApp_Process (sl_simple_request L) (sl_simple_response L) m s) (\<lambda>s1. Inr (s1, ms))
      else
        rbind (server_kvs (msg_data m)) (\<lambda>data.
        rbind (process_ts L ms m data s) (\<lambda>(s1, ms1).
        rbind (if relayed_push m s1 then process_relayed L m s1 else Inr s1) (\<lambda>s2.
        rbind (if relayed_push m s2 then Inr s2 else sl_request L (server_meta m) data s2) (\<lambda>s3. Inr (s3, ms1))))))"

end
