(* ===== verification/GlobalPushes.thy ===== *)
theory GlobalPushes
  imports KVServers
begin

text \<open>
  A push to a global server under DGT: the value is cut into blocks, the chunks are ranked by
  contribution and put on channels, and the receiving van pastes those that arrive back together.
\<close>

subsection \<open>Blocks\<close>

definition num_blocks :: "nat \<Rightarrow> 'v list \<Rightarrow> nat" where
  "num_blocks bs xs = (length xs + bs - 1) div bs"

definition block :: "nat \<Rightarrow> 'v list \<Rightarrow> nat \<Rightarrow> 'v list" where
  "block bs xs j = take bs (drop (j * bs) xs)"

definition blocks :: "nat \<Rightarrow> 'v list \<Rightarrow> 'v list list" where
  "blocks bs xs = map (block bs xs) [0..<num_blocks bs xs]"

lemma less_num_blocks: "0 < bs \<Longrightarrow> j < num_blocks bs xs \<longleftrightarrow> j * bs < length xs"
proof -
  assume "0 < bs"
  then have "Suc j \<le> num_blocks bs xs \<longleftrightarrow> Suc j * bs \<le> length xs + bs - 1"
    by (simp add: num_blocks_def less_eq_div_iff_mult_less_eq)
  with \<open>0 < bs\<close> show ?thesis by (simp add: Suc_le_eq) linarith
qed

lemma concat_blocks_upto: "concat (map (block bs xs) [0..<m]) = take (m * bs) xs"
  by (induction m) (simp_all add: block_def take_add[symmetric] add.commute)

lemma length_blocks [simp]: "length (blocks bs xs) = num_blocks bs xs"
  by (simp add: blocks_def)

lemma nth_blocks: "j < num_blocks bs xs \<Longrightarrow> blocks bs xs ! j = block bs xs j"
  by (simp add: blocks_def)

lemma concat_blocks [simp]: "0 < bs \<Longrightarrow> concat (blocks bs xs) = xs"
  using less_num_blocks[of bs "num_blocks bs xs" xs] by (simp add: blocks_def concat_blocks_upto)

lemma part_off_blocks: "0 < bs \<Longrightarrow> j < num_blocks bs xs \<Longrightarrow> part_off (blocks bs xs) j = j * bs"
proof -
  assume *: "0 < bs" "j < num_blocks bs xs"
  then have "take j (blocks bs xs) = map (block bs xs) [0..<j]" by (simp add: blocks_def take_map)
  then show ?thesis using * less_num_blocks[of bs j xs] by (simp add: part_off_def concat_blocks_upto)
qed

lemma num_blocks_pos: "0 < bs \<Longrightarrow> xs \<noteq> [] \<Longrightarrow> 0 < num_blocks bs xs"
  by (simp add: less_num_blocks)

text \<open>The segment the cutting loop takes at block \<open>j\<close>, and what remains.\<close>

lemma cut_block:
  assumes "0 < bs" "j < num_blocks bs xs" "l = min (int (length xs) - int (j * bs)) (int bs)"
  shows "0 < l" "segment (j * bs) (nat (int (j * bs) + l)) xs = Inr (block bs xs j)"
    and "Suc j < num_blocks bs xs \<Longrightarrow> l = int bs"
    and "\<not> Suc j < num_blocks bs xs \<Longrightarrow> l = int (length xs) - int (j * bs)"
proof -
  have j: "j * bs < length xs" using assms(1,2) less_num_blocks by blast
  then show "0 < l" using assms(1,3) by (simp del: of_nat_mult)
  show "l = int bs" if "Suc j < num_blocks bs xs"
    using that assms(1,3) less_num_blocks[of bs "Suc j" xs] by (simp del: of_nat_mult)
  show "l = int (length xs) - int (j * bs)" if "\<not> Suc j < num_blocks bs xs"
    using that assms(1,3) less_num_blocks[of bs "Suc j" xs] j by (simp del: of_nat_mult)
  have l: "nat (int (j * bs) + l) = j * bs + nat l" "nat l = min (length xs - j * bs) bs"
    using j assms(3) \<open>0 < l\<close> by (auto simp: nat_add_distrib min_def nat_diff_distrib simp del: of_nat_mult)
  then have "nat (int (j * bs) + l) \<le> length xs" using j by simp
  moreover have "take (nat l) (drop (j * bs) xs) = block bs xs j"
    unfolding l(2) block_def by (metis length_drop min.commute take_all_iff take_take nle_le)
  ultimately show "segment (j * bs) (nat (int (j * bs) + l)) xs = Inr (block bs xs j)"
    unfolding segment_def l(1) by simp
qed

subsection \<open>The cutting loop\<close>

definition zero_float :: "f32 \<Rightarrow> bool" where
  "zero_float x \<longleftrightarrow> x AND 0x7FFFFFFF = 0"

lemma EvalMsgContribution_result:
  assumes "data1 m = Inr bs"
  shows "\<exists>x. EvalMsgContribution fp alpha key m con = Inr (x, con(key := (con key)(m_seq (msg_meta m) \<mapsto> x)))"
  using assms by (simp add: EvalMsgContribution_def Let_def)

lemma dgt_chunks_result:
  assumes "0 < bs" "n = num_blocks bs (kv_vals kvs)" "k = int_of_key (hd (kv_keys kvs))"
    and "\<And>vb q t. mk vb q t = Inr (mkm vb q t)" "\<And>vb q t. data1 (mkm vb q t) = Inr t"
    and "\<And>vb q t. m_seq (msg_meta (mkm vb q t)) = q \<and> m_seq_end (msg_meta (mkm vb q t)) = int n - 1"
    and "j < n"
  shows "\<exists>x con'. dgt_chunks fp alpha (int bs) kvs mk (int (j * bs)) (int (length (kv_vals kvs)) - int (j * bs)) (int j) con =
      Inr (map (\<lambda>i. (mkm (int (i * bs)) (int i) (block bs (kv_vals kvs) i))\<lparr>msg_contribution := x i\<rparr>)
             (filter (\<lambda>i. \<not> zero_float (x i) \<or> i = n - 1) [j..<n]), con') \<and>
    (\<forall>i. j \<le> i \<longrightarrow> i < n \<longrightarrow> con' k (int i) = Some (x i)) \<and> (\<forall>i < j. con' k (int i) = con k (int i))"
  using assms(7)
proof (induction "n - j" arbitrary: j con)
  case (Suc d)
  let ?len = "int (length (kv_vals kvs))" and ?l = "min (int (length (kv_vals kvs)) - int (j * bs)) (int bs)"
  let ?m = "\<lambda>i. mkm (int (i * bs)) (int i) (block bs (kv_vals kvs) i)"
  note cut = cut_block[OF assms(1) Suc.prems[unfolded assms(2)] refl]
  obtain x0 where x0: "EvalMsgContribution fp alpha k (?m j) con = Inr (x0, con(k := (con k)(int j \<mapsto> x0)))"
    using EvalMsgContribution_result[OF assms(5), of fp alpha k "int (j * bs)" "int j" _ con] assms(6) by metis
  let ?con = "con(k := (con k)(int j \<mapsto> x0))"
  define rest where "rest = dgt_chunks fp alpha (int bs) kvs mk (int (j * bs) + ?l) (?len - int (j * bs) - ?l) (int j + 1) ?con"
  have ne: "?len - int (j * bs) \<noteq> 0" using cut(1) by (auto simp: min_def split: if_splits)
  have unf: "dgt_chunks fp alpha (int bs) kvs mk (int (j * bs)) (?len - int (j * bs)) (int j) con =
      rbind rest (\<lambda>(ms, con2). Inr (if \<not> zero_float x0 \<or> int j = int n - 1 then (?m j)\<lparr>msg_contribution := x0\<rparr> # ms else ms, con2))"
    unfolding dgt_chunks.simps[of fp alpha "int bs" kvs mk "int (j * bs)"] Let_def rest_def
    using ne cut(1)[folded not_le] by (simp add: cut(2) assms(4) assms(3)[symmetric] x0 assms(6) zero_float_def del: of_nat_mult)
  show ?case
  proof (cases "Suc j < n")
    case True
    have "d = n - Suc j" using Suc.hyps(2) by simp
    from Suc.hyps(1)[OF this True, of ?con] obtain x con' where
      r: "dgt_chunks fp alpha (int bs) kvs mk (int (Suc j * bs)) (?len - int (Suc j * bs)) (int (Suc j)) ?con =
        Inr (map (\<lambda>i. (?m i)\<lparr>msg_contribution := x i\<rparr>) (filter (\<lambda>i. \<not> zero_float (x i) \<or> i = n - 1) [Suc j..<n]), con')"
      "\<forall>i. Suc j \<le> i \<longrightarrow> i < n \<longrightarrow> con' k (int i) = Some (x i)" "\<forall>i < Suc j. con' k (int i) = ?con k (int i)"
      by (elim exE conjE)
    have l: "?l = int bs" using cut(3) True assms(2) by simp
    have "int (j * bs) + ?l = int (Suc j * bs)" "?len - int (j * bs) - ?l = ?len - int (Suc j * bs)" "int j + 1 = int (Suc j)"
      unfolding l by simp_all
    then have rest: "rest = Inr (map (\<lambda>i. (?m i)\<lparr>msg_contribution := x i\<rparr>) (filter (\<lambda>i. \<not> zero_float (x i) \<or> i = n - 1) [Suc j..<n]), con')"
      unfolding rest_def using r(1) by metis
    let ?x = "x(j := x0)"
    have same: "map (\<lambda>i. (?m i)\<lparr>msg_contribution := x i\<rparr>) (filter (\<lambda>i. \<not> zero_float (x i) \<or> i = n - 1) [Suc j..<n]) =
      map (\<lambda>i. (?m i)\<lparr>msg_contribution := ?x i\<rparr>) (filter (\<lambda>i. \<not> zero_float (?x i) \<or> i = n - 1) [Suc j..<n])"
      by (rule map_cong[OF filter_cong]) auto
    have up: "[j..<n] = j # [Suc j..<n]" using Suc.prems by (simp add: upt_conv_Cons)
    have iff: "int j = int n - 1 \<longleftrightarrow> j = n - 1" using Suc.prems by auto
    show ?thesis
      apply (intro exI[of _ ?x] exI[of _ con'] conjI)
      subgoal unfolding unf rest same up iff by simp
      subgoal using r(2) r(3)[rule_format, of j] by (metis fun_upd_apply le_less lessI Suc_leI)
      subgoal using r(3) by auto
      done
  next
    case False
    then have j: "j = n - 1" "[j..<n] = [j]" "int j = int n - 1" using Suc.prems by (auto simp: upt_conv_Cons)
    have "?l = ?len - int (j * bs)" using cut(4) False assms(2) by simp
    then have "rest = Inr ([], ?con)" unfolding rest_def by (simp add: dgt_chunks.simps)
    then show ?thesis unfolding unf using j(1,3) by (intro exI[of _ "\<lambda>_. x0"] exI[of _ ?con]) (auto simp: j(2) upt_conv_Cons)
  qed
qed simp

subsection \<open>Channels\<close>

lemma channel_loop_range:
  "channel_loop fp C mn mx index i n = Some ch \<Longrightarrow> int i + 1 \<le> ch \<and> ch \<le> int i + int n"
  by (induction n arbitrary: i) (fastforce split: if_splits)+

lemma GetChannel_range:
  assumes "0 < C" "\<forall>i. 0 \<le> rand i"
  shows "\<exists>ch. GetChannel rand fp index max_index C k = Inr ch \<and> 0 \<le> ch \<and> ch \<le> C \<and>
    (ch = 0 \<longleftrightarrow> index < f_min_index fp k (max_index + 1))"
proof (cases "index < f_min_index fp k (max_index + 1)")
  case False
  show ?thesis
  proof (cases "channel_loop fp C (f_min_index fp k (max_index + 1)) max_index index 0 (nat C)")
    case None
    have "0 \<le> cmod (rand (nat index)) C" "cmod (rand (nat index)) C < C" using assms by (simp_all add: cmod_nonneg)
    then show ?thesis using None False assms(1) by (simp add: GetChannel_def Let_def)
  next
    case (Some ch)
    then show ?thesis using channel_loop_range[OF Some] False assms(1) by (simp add: GetChannel_def Let_def)
  qed
qed (use assms(1) in \<open>simp add: GetChannel_def Let_def\<close>)

definition dgt_stamp :: "int \<Rightarrow> int \<Rightarrow> Message \<Rightarrow> Message" where
  "dgt_stamp C ch m = m\<lparr>msg_meta := (msg_meta m)\<lparr>m_channel := ch, m_tos := (C - ch) * 32\<rparr>\<rparr>"

lemma dgt_assign_result:
  assumes "0 < C" "\<forall>i. 0 \<le> rand i" "distinct ord"
  shows "\<exists>ch p'. dgt_assign rand fp C k mx j (map f ord) p = Inr p' \<and>
    (\<forall>i \<in> set ord. 0 \<le> ch i \<and> ch i \<le> C \<and> (m_seq (msg_meta (f i)) = m_seq_end (msg_meta (f i)) \<longrightarrow> ch i = 0)) \<and>
    p' = upd_van (\<lambda>v. v\<lparr>van_important_queue := van_important_queue v @ map (\<lambda>i. dgt_stamp C (ch i) (f i)) (filter (\<lambda>i. ch i = 0) ord),
        van_unimportant_queue := van_unimportant_queue v @ map (\<lambda>i. dgt_stamp C (ch i) (f i)) (filter (\<lambda>i. ch i \<noteq> 0) ord)\<rparr>) p"
  using assms(3)
proof (induction ord arbitrary: j p)
  case (Cons a ord)
  obtain ch0 where ch0: "GetChannel rand fp (int j) mx C k = Inr ch0" "0 \<le> ch0" "ch0 \<le> C"
    using GetChannel_range[OF assms(1,2), of fp "int j" mx k] by blast
  define c where "c = (if m_seq (msg_meta (f a)) = m_seq_end (msg_meta (f a)) then 0 else ch0)"
  let ?p = "upd_van (AssignMsg (dgt_stamp C c (f a)) c) p"
  have d: "distinct ord" "a \<notin> set ord" using Cons.prems by auto
  obtain ch p' where r: "dgt_assign rand fp C k mx (Suc j) (map f ord) ?p = Inr p'"
    "\<forall>i \<in> set ord. 0 \<le> ch i \<and> ch i \<le> C \<and> (m_seq (msg_meta (f i)) = m_seq_end (msg_meta (f i)) \<longrightarrow> ch i = 0)"
    "p' = upd_van (\<lambda>v. v\<lparr>van_important_queue := van_important_queue v @ map (\<lambda>i. dgt_stamp C (ch i) (f i)) (filter (\<lambda>i. ch i = 0) ord),
        van_unimportant_queue := van_unimportant_queue v @ map (\<lambda>i. dgt_stamp C (ch i) (f i)) (filter (\<lambda>i. ch i \<noteq> 0) ord)\<rparr>) ?p"
    using Cons.IH[OF d(1), of "Suc j" ?p] by (elim exE conjE)
  let ?ch = "ch(a := c)"
  have imp: "map (\<lambda>i. dgt_stamp C (?ch i) (f i)) (filter (\<lambda>i. ?ch i = 0) (a # ord)) =
      (if c = 0 then [dgt_stamp C c (f a)] else []) @ map (\<lambda>i. dgt_stamp C (ch i) (f i)) (filter (\<lambda>i. ch i = 0) ord)"
    using d(2) by (auto intro!: map_cong[OF filter_cong])
  have unimp: "map (\<lambda>i. dgt_stamp C (?ch i) (f i)) (filter (\<lambda>i. ?ch i \<noteq> 0) (a # ord)) =
      (if c = 0 then [] else [dgt_stamp C c (f a)]) @ map (\<lambda>i. dgt_stamp C (ch i) (f i)) (filter (\<lambda>i. ch i \<noteq> 0) ord)"
    using d(2) by (auto intro!: map_cong[OF filter_cong])
  have step: "dgt_assign rand fp C k mx j (map f (a # ord)) p = Inr p'"
    using r(1) by (simp add: ch0(1) c_def[symmetric] dgt_stamp_def)
  show ?case
  proof (intro exI[of _ ?ch] exI[of _ p'] conjI)
    show "\<forall>i \<in> set (a # ord). 0 \<le> ?ch i \<and> ?ch i \<le> C \<and> (m_seq (msg_meta (f i)) = m_seq_end (msg_meta (f i)) \<longrightarrow> ?ch i = 0)"
      using r(2) d(2) ch0(2,3) assms(1) by (auto simp: c_def)
    show "p' = upd_van (\<lambda>v. v\<lparr>van_important_queue := van_important_queue v @ map (\<lambda>i. dgt_stamp C (?ch i) (f i)) (filter (\<lambda>i. ?ch i = 0) (a # ord)),
        van_unimportant_queue := van_unimportant_queue v @ map (\<lambda>i. dgt_stamp C (?ch i) (f i)) (filter (\<lambda>i. ?ch i \<noteq> 0) (a # ord))\<rparr>) p"
      unfolding r(3) imp unimp by (simp add: upd_van_def AssignMsg_def queue_push_def)
  qed (rule step)
qed (simp add: upd_van_def)


subsection \<open>From the push to the receiver\<close>

lemma map_permuted:
  assumes "mset ys = mset (map f xs)"
  shows "\<exists>zs. ys = map f zs \<and> mset zs = mset xs"
  using assms
proof (induction ys arbitrary: xs)
  case (Cons y ys)
  then have "y \<in> set (map f xs)" by (metis list.set_intros(1) mset_eq_setD)
  then obtain x where x: "x \<in> set xs" "y = f x" by auto
  then have "mset xs = add_mset x (mset (remove1 x xs))" by simp
  then have "mset (map f xs) = add_mset y (mset (map f (remove1 x xs)))" using x(2) by (metis image_mset_add_mset mset_map)
  then have "mset ys = mset (map f (remove1 x xs))" using Cons.prems by (metis add_mset_add_mset_same_iff mset.simps(2))
  with Cons.IH obtain zs where "ys = map f zs" "mset zs = mset (remove1 x xs)" by blast
  with x show ?case by (intro exI[of _ "x # zs"]) simp
qed simp

lemma dgt_chunk_result:
  "\<exists>m. dgt_chunk ts cmd c i dtype kvs tot q_num vb q t = Inr m \<and> data1 m = Inr t \<and> m_seq (msg_meta m) = q \<and>
    m_seq_end (msg_meta m) = q_num - 1 \<and> m_first_key (msg_meta m) = int_of_key (hd (kv_keys kvs)) \<and> m_val_bytes (msg_meta m) = vb \<and>
    m_total_bytes (msg_meta m) = tot \<and> m_recver (msg_meta m) = ServerRankToID (int i) True"
  by (simp add: dgt_chunk_def AddKVs_data data1_def empty_Message_def empty_Meta_def)

text \<open>A message as the receiving van sees it: the sender is the node it came from.\<close>

definition arrived :: "int \<Rightarrow> Message \<Rightarrow> Message" where
  "arrived sndr m = m\<lparr>msg_meta := (msg_meta m)\<lparr>m_sender := sndr\<rparr>\<rparr>"

text \<open>The kept chunks, ranked: all but the last are permuted.\<close>

lemma ranked_chunks:
  assumes "\<forall>xs. mset (srt xs) = mset xs" "ks = filter (\<lambda>i. P i \<or> i = n - 1) [0..<n]" "0 < n"
  shows "\<exists>ord. srt (butlast (map f ks)) @ [last (map f ks)] = map f ord \<and> distinct ord \<and> set ord = set ks \<and> n - 1 \<in> set ks"
proof -
  have "[0..<n] = [0..<n - 1] @ [n - 1]" using assms(3) by (metis Suc_diff_1 less_eq_nat.simps(1) upt_Suc)
  then have ks: "ks = filter (\<lambda>i. P i \<or> i = n - 1) [0..<n - 1] @ [n - 1]" using assms(2) by simp
  let ?init = "filter (\<lambda>i. P i \<or> i = n - 1) [0..<n - 1]"
  obtain zs where zs: "srt (map f ?init) = map f zs" "mset zs = mset ?init"
    using map_permuted[of "srt (map f ?init)" f ?init] assms(1) by auto
  have m: "mset (zs @ [n - 1]) = mset ks" unfolding ks using zs(2) by simp
  then have "distinct (zs @ [n - 1])" "set (zs @ [n - 1]) = set ks"
    using mset_eq_imp_distinct_iff[OF m] mset_eq_setD[OF m] assms(2) by simp_all
  then show ?thesis using zs(1) by (intro exI[of _ "zs @ [n - 1]"]) (simp add: ks)
qed

lemma seq_num_blocks:
  assumes "0 < bs"
  shows "cdiv (int (length xs) + int bs - 1) (int bs) = int (num_blocks bs xs)"
proof -
  have "int (length xs) + int bs - 1 = int (length xs + bs - 1)" using assms by simp
  then show ?thesis using assms by (simp add: cdiv_nonneg num_blocks_def zdiv_int del: of_nat_add of_nat_diff)
qed

lemma dgt_send_result:
  assumes "kv_keys kvs \<noteq> []" "kv_vals kvs \<noteq> []" "ks_block_size s = int bs" "0 < bs" "0 < ks_udp_channel_num s"
    and "\<forall>i. 0 \<le> w_rand (sl_world L) i" "\<forall>xs. mset (sl_sort L xs) = mset xs" "pr_cust (ks_proc s) (ks_this s) = Some c"
    and "parts = blocks bs (kv_vals kvs)" "k = int_of_key (hd (kv_keys kvs))" "C = ks_udp_channel_num s"
  shows "\<exists>s' g ord. dgt_send L ts cmd i dtype kvs s = Inr s' \<and> distinct ord \<and> set ord \<subseteq> {..<length parts} \<and> length parts - 1 \<in> set ord \<and>
    van_important_queue (pr_van (ks_proc s')) = van_important_queue (pr_van (ks_proc s)) @
      map g (filter (\<lambda>j. m_channel (msg_meta (g j)) = 0) ord) \<and>
    van_unimportant_queue (pr_van (ks_proc s')) = van_unimportant_queue (pr_van (ks_proc s)) @
      map g (filter (\<lambda>j. m_channel (msg_meta (g j)) \<noteq> 0) ord) \<and>
    (\<forall>j \<in> set ord. m_recver (msg_meta (g j)) = ServerRankToID (int i) True \<and> 0 \<le> m_channel (msg_meta (g j)) \<and> m_channel (msg_meta (g j)) \<le> C) \<and>
    m_channel (msg_meta (g (length parts - 1))) = 0 \<and>
    (\<forall>j < length parts. j \<notin> set ord \<longrightarrow> (\<exists>x. ks_contribution s' k (int j) = Some x \<and> zero_float x)) \<and>
    (\<forall>j < length parts. \<forall>me. is_part parts me k j (arrived me (g j)))"
proof -
  let ?vals = "kv_vals kvs" and ?n = "num_blocks bs (kv_vals kvs)"
  let ?total = "int (length (kv_vals kvs))"
  have n: "0 < ?n" using num_blocks_pos[OF assms(4,2)] .
  define mkm where "mkm = (\<lambda>vb q t. projr (dgt_chunk ts cmd c i dtype kvs ?total (int ?n) vb q t))"
  have mk: "dgt_chunk ts cmd c i dtype kvs ?total (int ?n) vb q t = Inr (mkm vb q t)" for vb q t
    using dgt_chunk_result[of ts cmd c i dtype kvs ?total "int ?n" vb q t] by (auto simp: mkm_def)
  have mkm: "data1 (mkm vb q t) = Inr t" "m_seq (msg_meta (mkm vb q t)) = q \<and> m_seq_end (msg_meta (mkm vb q t)) = int ?n - 1"
    "m_first_key (msg_meta (mkm vb q t)) = k \<and> m_val_bytes (msg_meta (mkm vb q t)) = vb \<and> m_total_bytes (msg_meta (mkm vb q t)) = ?total \<and>
      m_recver (msg_meta (mkm vb q t)) = ServerRankToID (int i) True" for vb q t
    using dgt_chunk_result[of ts cmd c i dtype kvs ?total "int ?n" vb q t] assms(10) by (auto simp: mkm_def)
  obtain x con' where cut: "dgt_chunks (sl_fpu L) (ks_contribution_alpha s) (int bs) kvs (dgt_chunk ts cmd c i dtype kvs ?total (int ?n))
        0 ?total 0 (ks_contribution s) =
      Inr (map (\<lambda>i. (mkm (int (i * bs)) (int i) (block bs ?vals i))\<lparr>msg_contribution := x i\<rparr>)
             (filter (\<lambda>i. \<not> zero_float (x i) \<or> i = ?n - 1) [0..<?n]), con')"
    "\<forall>j < ?n. con' k (int j) = Some (x j)"
    using dgt_chunks_result[where fp = "sl_fpu L" and alpha = "ks_contribution_alpha s" and con = "ks_contribution s" and mkm = mkm and j = 0
        and mk = "dgt_chunk ts cmd c i dtype kvs ?total (int ?n)", OF assms(4) refl assms(10) mk mkm(1,2) n] by auto
  let ?f = "\<lambda>i. (mkm (int (i * bs)) (int i) (block bs ?vals i))\<lparr>msg_contribution := x i\<rparr>"
  define ks where "ks = filter (\<lambda>i. \<not> zero_float (x i) \<or> i = ?n - 1) [0..<?n]"
  obtain ord where ord: "sl_sort L (butlast (map ?f ks)) @ [last (map ?f ks)] = map ?f ord" "distinct ord" "set ord = set ks" "?n - 1 \<in> set ks"
    using ranked_chunks[OF assms(7) ks_def n, of ?f] by blast
  let ?s = "s\<lparr>ks_dmlc_k := ks_dmlc_k_init s, ks_contribution := con'\<rparr>"
  obtain ch p' where asg: "dgt_assign (w_rand (sl_world L)) (sl_fpu L) C (ks_dmlc_k_init s) (int (length ks) - 1) 0 (map ?f ord) (ks_proc s) = Inr p'"
    "\<forall>j \<in> set ord. 0 \<le> ch j \<and> ch j \<le> C \<and> (m_seq (msg_meta (?f j)) = m_seq_end (msg_meta (?f j)) \<longrightarrow> ch j = 0)"
    "p' = upd_van (\<lambda>v. v\<lparr>van_important_queue := van_important_queue v @ map (\<lambda>i. dgt_stamp C (ch i) (?f i)) (filter (\<lambda>i. ch i = 0) ord),
        van_unimportant_queue := van_unimportant_queue v @ map (\<lambda>i. dgt_stamp C (ch i) (?f i)) (filter (\<lambda>i. ch i \<noteq> 0) ord)\<rparr>) (ks_proc s)"
    using dgt_assign_result[OF assms(5)[folded assms(11)] assms(6) ord(2), of "sl_fpu L" "ks_dmlc_k_init s" "int (length ks) - 1" 0 ?f "ks_proc s"]
    by (elim exE conjE)
  have ne: "map ?f ks \<noteq> []" using ord(4) by auto
  have send: "dgt_send L ts cmd i dtype kvs s = Inr (?s\<lparr>ks_proc := p'\<rparr>)"
    unfolding dgt_send_def Let_def assms(3) seq_num_blocks[OF assms(4)]
    using assms(1,4,8) cut(1)[folded ks_def] ne asg(1) ord(1)
    by (simp add: obj_def srv_run_def assms(11)[symmetric] cong: if_cong)
  let ?g = "\<lambda>j. dgt_stamp C (ch j) (?f j)"
  have gmeta: "m_channel (msg_meta (?g j)) = ch j" for j by (simp add: dgt_stamp_def)
  have parts: "is_part parts me k j (arrived me (?g j))" if "j < length parts" for j me
    using that assms(4,9) mkm nth_blocks[of j bs ?vals] part_off_blocks[OF assms(4), of j ?vals]
    by (simp add: is_part_def arrived_def dgt_stamp_def data1_def)
  show ?thesis
  proof (intro exI[of _ "?s\<lparr>ks_proc := p'\<rparr>"] exI[of _ ?g] exI[of _ ord] conjI)
    show "set ord \<subseteq> {..<length parts}" "length parts - 1 \<in> set ord" using ord(3,4) by (auto simp: assms(9) ks_def)
    show "m_channel (msg_meta (?g (length parts - 1))) = 0" unfolding gmeta
      using asg(2)[rule_format, of "?n - 1"] ord(3,4) mkm(2) n by (simp add: assms(9))
    show "\<forall>j < length parts. j \<notin> set ord \<longrightarrow> (\<exists>x. ks_contribution (?s\<lparr>ks_proc := p'\<rparr>) k (int j) = Some x \<and> zero_float x)"
      using cut(2) ord(3) by (auto simp: assms(9) ks_def)
    show "\<forall>j \<in> set ord. m_recver (msg_meta (?g j)) = ServerRankToID (int i) True \<and> 0 \<le> m_channel (msg_meta (?g j)) \<and> m_channel (msg_meta (?g j)) \<le> C"
      using asg(2) mkm(3) by (simp add: dgt_stamp_def)
    show "\<forall>j < length parts. \<forall>me. is_part parts me k j (arrived me (?g j))" using parts by blast
  qed (use send ord(2) in \<open>simp_all add: asg(3) upd_van_def gmeta del: of_nat_mult\<close>)
qed

text \<open>
  C9: a value pushed under DGT arrives. The push succeeds: chunks with different numbers, the last
  among them, are put on the reliable or the unreliable queue by their channel, the last on the
  reliable one, all for the global server the push is for. A block whose chunk is not sent has a
  contribution of zero. Whichever of the chunks arrive, in whatever order before the last, the
  receiving van hands over one message with the value pushed, in which the blocks that did not
  arrive read as zeros.
\<close>

theorem dgt_push_arrives:
  assumes "kv_keys kvs \<noteq> []" "kv_vals kvs \<noteq> []" "ks_block_size s = int bs" "0 < bs" "0 < ks_udp_channel_num s"
    and "\<forall>i. 0 \<le> w_rand (sl_world L) i" "\<forall>xs. mset (sl_sort L xs) = mset xs" "pr_cust (ks_proc s) (ks_this s) = Some c"
    and "parts = blocks bs (kv_vals kvs)" "k = int_of_key (hd (kv_keys kvs))"
  shows "\<exists>s' g ord. dgt_send L ts cmd i dtype kvs s = Inr s' \<and> distinct ord \<and> set ord \<subseteq> {..<length parts} \<and> length parts - 1 \<in> set ord \<and>
    van_important_queue (pr_van (ks_proc s')) = van_important_queue (pr_van (ks_proc s)) @
      map g (filter (\<lambda>j. m_channel (msg_meta (g j)) = 0) ord) \<and>
    van_unimportant_queue (pr_van (ks_proc s')) = van_unimportant_queue (pr_van (ks_proc s)) @
      map g (filter (\<lambda>j. m_channel (msg_meta (g j)) \<noteq> 0) ord) \<and>
    (\<forall>j \<in> set ord. m_recver (msg_meta (g j)) = ServerRankToID (int i) True) \<and> m_channel (msg_meta (g (length parts - 1))) = 0 \<and>
    (\<forall>j < length parts. j \<notin> set ord \<longrightarrow> (\<exists>x. ks_contribution s' k (int j) = Some x \<and> zero_float x)) \<and>
    (\<forall>order fp dt v me. distinct order \<longrightarrow> set order \<subseteq> set ord - {length parts - 1} \<longrightarrow> van_msg_map v me k = [] \<longrightarrow>
      (\<exists>w v'. receive_chunks fp dt (map (\<lambda>j. arrived me (g j)) (order @ [length parts - 1])) v =
          Inr (replicate (length order) None @ [Some w], v') \<and>
        data1 w = Inr (concat (filled parts (set (order @ [length parts - 1]))))))"
proof -
  obtain s' g ord where r: "dgt_send L ts cmd i dtype kvs s = Inr s'" "distinct ord" "set ord \<subseteq> {..<length parts}" "length parts - 1 \<in> set ord"
    "van_important_queue (pr_van (ks_proc s')) = van_important_queue (pr_van (ks_proc s)) @
      map g (filter (\<lambda>j. m_channel (msg_meta (g j)) = 0) ord)"
    "van_unimportant_queue (pr_van (ks_proc s')) = van_unimportant_queue (pr_van (ks_proc s)) @
      map g (filter (\<lambda>j. m_channel (msg_meta (g j)) \<noteq> 0) ord)"
    "\<forall>j \<in> set ord. m_recver (msg_meta (g j)) = ServerRankToID (int i) True \<and> 0 \<le> m_channel (msg_meta (g j)) \<and>
       m_channel (msg_meta (g j)) \<le> ks_udp_channel_num s"
    "m_channel (msg_meta (g (length parts - 1))) = 0"
    "\<forall>j < length parts. j \<notin> set ord \<longrightarrow> (\<exists>x. ks_contribution s' k (int j) = Some x \<and> zero_float x)"
    "\<forall>j < length parts. \<forall>me. is_part parts me k j (arrived me (g j))"
    using dgt_send_result[OF assms refl, of ts cmd i dtype] by (elim exE conjE)
  have whole: "\<exists>w v'. receive_chunks fp dt (map (\<lambda>j. arrived me (g j)) (order @ [length parts - 1])) v =
          Inr (replicate (length order) None @ [Some w], v') \<and> data1 w = Inr (concat (filled parts (set (order @ [length parts - 1]))))"
    if "distinct order" "set order \<subseteq> set ord - {length parts - 1}" "van_msg_map v me k = []" for order fp dt v me
  proof -
    have "distinct (order @ [length parts - 1])" "set (order @ [length parts - 1]) \<subseteq> {..<length parts}" using that(1,2) r(3,4) by auto
    moreover have "\<forall>j < length parts. is_part parts me k j (arrived me (g j))" using r(10) by blast
    ultimately show ?thesis
      using receive_chunks_whole[where ck = "\<lambda>j. arrived me (g j)" and v = v and fp = fp and dtype = dt and s = me and k = k, OF _ refl] that(3)
      by meson
  qed
  show ?thesis
  proof (intro exI[of _ s'] exI[of _ g] exI[of _ ord] conjI)
    show "\<forall>j \<in> set ord. m_recver (msg_meta (g j)) = ServerRankToID (int i) True" using r(7) by blast
    show "\<forall>order fp dt v me. distinct order \<longrightarrow> set order \<subseteq> set ord - {length parts - 1} \<longrightarrow> van_msg_map v me k = [] \<longrightarrow>
      (\<exists>w v'. receive_chunks fp dt (map (\<lambda>j. arrived me (g j)) (order @ [length parts - 1])) v =
          Inr (replicate (length order) None @ [Some w], v') \<and>
        data1 w = Inr (concat (filled parts (set (order @ [length parts - 1])))))"
      by (intro allI impI) (rule whole)
  qed (fact r)+
qed

text \<open>A server that pushes 8 bytes in blocks of 4 on one unreliable channel.\<close>

definition sample_fpus :: FpuS where
  "sample_fpus = \<lparr>f_add = (+), f_sub = (-), f_less = (<), f_center = (\<lambda>_ _ _ _. 0), f_quant = (\<lambda>_ _ _ _. 0), h_add = (+),
     f_contrib = (\<lambda>_ _ _ n. of_int n), f_min_index = (\<lambda>_ n. n div 2), f_of_int = of_int, f_edge = (\<lambda>_ _ _ i. of_int i)\<rparr>"

definition plain_server_lib :: "KVServer KVSLib" where
  "plain_server_lib = \<lparr>sl_world = quiet_world, sl_fpu = sample_fpus, sl_sort = (\<lambda>xs. xs), sl_throughput = (\<lambda>_. 1),
     sl_env_int = (\<lambda>_. Inr 0), sl_env_float = (\<lambda>_. Inr 0), sl_user = (\<lambda>_ s. Inr s), sl_request = (\<lambda>_ _ s. Inr s),
     sl_request_global = (\<lambda>_ _ s. Inr s), sl_simple_request = (\<lambda>_ s. Inr s), sl_simple_response = (\<lambda>_ s. Inr s)\<rparr>"

definition dgt_server :: KVServer where
  "dgt_server = (new_KVServer two_layer_proc 7)\<lparr>ks_enable_dgt := 1, ks_block_size := 4, ks_udp_channel_num := 1\<rparr>"


definition sample_push :: kvs where
  "sample_push = \<lparr>kv_keys = [3], kv_vals = [1, 2, 3, 4, 5, 6, 7, 8], kv_lens = [8], kv_priority = 0\<rparr>"

theorem dgt_push_arrives_witness:
  "\<exists>s' g w v'. dgt_send plain_server_lib 0 0 0 0 sample_push dgt_server = Inr s' \<and> m_channel (msg_meta (g 1)) = 0 \<and>
     receive_chunks sample_fpu 0 (map (\<lambda>j. arrived 9 (g j)) [1 :: nat]) new_Van = Inr ([Some w], v') \<and>
     data1 w = Inr [0, 0, 0, 0, 5, 6, 7, 8]"
proof -
  have parts: "blocks 4 (kv_vals sample_push) = [[1, 2, 3, 4], [5, 6, 7, 8]]" by code_simp
  have "\<forall>i. 0 \<le> w_rand (sl_world plain_server_lib) i" by (simp add: plain_server_lib_def quiet_world_def)
  moreover have "pr_cust (ks_proc dgt_server) (ks_this dgt_server) = Some (new_Customer 0 0)"
    by (simp add: dgt_server_def new_KVServer_def two_layer_proc_def)
  moreover have "ks_block_size dgt_server = int 4" "0 < ks_udp_channel_num dgt_server" "kv_keys sample_push \<noteq> []" "kv_vals sample_push \<noteq> []"
    "\<forall>xs. mset (sl_sort plain_server_lib xs) = mset xs"
    by (simp_all add: dgt_server_def sample_push_def plain_server_lib_def)
  ultimately show ?thesis
    using dgt_push_arrives[where L = plain_server_lib and s = dgt_server and kvs = sample_push and bs = 4 and c = "new_Customer 0 0"
        and ts = 0 and cmd = 0 and i = 0 and dtype = 0, OF _ _ _ _ _ _ _ _ refl refl] unfolding parts
  proof (elim meta_impE exE conjE, goal_cases)
    case (9 s' g ord)
    have "van_msg_map new_Van 9 k = []" for k by (simp add: new_Van_def)
    then obtain w v' where "receive_chunks sample_fpu 0 (map (\<lambda>j. arrived 9 (g j)) [1]) new_Van = Inr ([Some w], v')"
      "data1 w = Inr (concat (filled [[1, 2, 3, 4], [5, 6, 7, 8]] {1}))"
      using 9(17)[rule_format, of "[]" new_Van 9 sample_fpu 0] by auto
    with 9(8,15) show ?case by (intro exI[of _ s'] exI[of _ g] exI[of _ w] exI[of _ v']) (simp add: filled_def)
  qed simp_all
qed

end
