(* ===== verification/Compression.thy ===== *)
theory Compression
  imports GlobalPushes
begin

text \<open>
  Gradient compression (\<^verbatim>\<open>src/kvstore/gradient_compression.cc\<close>, \<^verbatim>\<open>gradient_compression-inl.h\<close>): two-bit
  quantisation with a residual, and bi-sparse compression, which sends the large gradients with
  their positions. Gradients are lists of single precision patterns, the two-bit output is a list of
  bytes; floating point operations, the fixed-seed shuffle and the conversions are parameters.
\<close>

datatype CompressionType = kNone | kTwoBit | kBiSparseCompression | OtherCompression int

record GradientCompression =
  gc_type :: CompressionType
  gc_threshold :: f32

record FpuC = FpuS +
  f_le :: "f32 \<Rightarrow> f32 \<Rightarrow> bool"
  f_neg :: "f32 \<Rightarrow> f32"
  f_momentum :: "f32 \<Rightarrow> f32 \<Rightarrow> f32"
  f_scale :: "int \<Rightarrow> f32 \<Rightarrow> int \<Rightarrow> int"
  f_sample :: "int \<Rightarrow> f32 \<Rightarrow> int"
  f_to_int :: "f32 \<Rightarrow> int"
  f_shuffle :: "nat \<Rightarrow> nat list"

definition new_GradientCompression :: GradientCompression where
  "new_GradientCompression = \<lparr>gc_type = kNone, gc_threshold = 0\<rparr>"

definition SetTwoBitCompression :: "f32 \<Rightarrow> GradientCompression \<Rightarrow> GradientCompression" where
  "SetTwoBitCompression th gc = gc\<lparr>gc_type := kTwoBit, gc_threshold := th\<rparr>"

definition SetBiSparseCompression :: "f32 \<Rightarrow> GradientCompression \<Rightarrow> GradientCompression" where
  "SetBiSparseCompression th gc = gc\<lparr>gc_type := kBiSparseCompression, gc_threshold := th\<rparr>"

definition SetParams :: "FpuC \<Rightarrow> string \<Rightarrow> f32 \<Rightarrow> GradientCompression \<Rightarrow> GradientCompression res" where
  "SetParams fp type threshold gc =
     chk (f_less fp 0 threshold) ''threshold must be greater than 0''
      (if type = ''2bit'' then Inr (SetTwoBitCompression threshold gc)
       else if type = ''bsc'' then Inr (SetBiSparseCompression threshold gc)
       else Inl (Fatal ''Unknown type for gradient compression''))"

definition type_number :: "CompressionType \<Rightarrow> int" where
  "type_number t = (case t of kNone \<Rightarrow> 0 | kTwoBit \<Rightarrow> 1 | kBiSparseCompression \<Rightarrow> 2 | OtherCompression i \<Rightarrow> i)"

definition type_of_number :: "int \<Rightarrow> CompressionType" where
  "type_of_number i = (if i = 0 then kNone else if i = 1 then kTwoBit else if i = 2 then kBiSparseCompression else OtherCompression i)"

text \<open>
  The parameters as a string, as the worker sends them to the servers. Printing and reading numbers
  are parameters; reading may fail.
\<close>

definition EncodeParams :: "(int \<Rightarrow> string) \<Rightarrow> (f32 \<Rightarrow> string) \<Rightarrow> GradientCompression \<Rightarrow> string" where
  "EncodeParams print_int print_float gc =
     print_int (type_number (gc_type gc)) @
     (if gc_type gc = kTwoBit \<or> gc_type gc = kBiSparseCompression then CHR '','' # print_float (gc_threshold gc) else [])"

text \<open>\<open>split\<close>: the pieces between delimiters; a delimiter at the end starts no further piece.\<close>

fun split_string :: "char \<Rightarrow> string \<Rightarrow> string \<Rightarrow> string list" where
  "split_string delim acc [] = (if acc = [] then [] else [acc])"
| "split_string delim acc (c # cs) =
     (if c = delim then acc # split_string delim [] cs else split_string delim (acc @ [c]) cs)"

definition DecodeParams :: "(string \<Rightarrow> int res) \<Rightarrow> (string \<Rightarrow> f32 res) \<Rightarrow> string \<Rightarrow> GradientCompression \<Rightarrow> GradientCompression res" where
  "DecodeParams stoi stof s gc =
     (case split_string (CHR '','') [] s of
        [] \<Rightarrow> Inl (Undefined ''elems[0]'')
      | e0 # es \<Rightarrow> rbind (stoi e0) (\<lambda>t.
          let gc1 = gc\<lparr>gc_type := type_of_number t\<rparr> in
          case es of
            [] \<Rightarrow> Inr gc1
          | e1 # _ \<Rightarrow> if e1 = [] then Inr gc1 else rbind (stof e1) (\<lambda>th. Inr (gc1\<lparr>gc_threshold := th\<rparr>))))"

definition GetCompressionFactor :: "GradientCompression \<Rightarrow> int res" where
  "GetCompressionFactor gc = (if gc_type gc = kTwoBit then Inr 16 else Inl (Fatal ''Unsupported compression type''))"

definition GetCompressedSize :: "GradientCompression \<Rightarrow> int \<Rightarrow> int res" where
  "GetCompressedSize gc n = rbind (GetCompressionFactor gc) (\<lambda>bits.
     Inr (if cmod n bits = 0 then cdiv n bits else cdiv n bits + 1))"

subsection \<open>Two bits per gradient\<close>

definition posbits :: "8 word list" where "posbits = [0xC0, 0x30, 0x0C, 0x03]"

definition negbits :: "8 word list" where "negbits = [0x80, 0x20, 0x08, 0x02]"

text \<open>One step of the quantisation of a block: the residuals and the four bytes of the block.\<close>

definition quantize_step :: "FpuC \<Rightarrow> f32 \<Rightarrow> f32 \<Rightarrow> f32 list \<Rightarrow> nat \<Rightarrow> nat \<Rightarrow> f32 list \<times> bytes \<Rightarrow> f32 list \<times> bytes" where
  "quantize_step fp neg_threshold pos_threshold grad start i = (\<lambda>(residual, blk).
     let k = (i - start) div 4; r = f_add fp (residual ! i) (grad ! i) in
     if f_le fp pos_threshold r then (residual[i := f_sub fp r pos_threshold], blk[k := blk ! k OR posbits ! (i mod 4)])
     else if f_le fp r neg_threshold then (residual[i := f_sub fp r neg_threshold], blk[k := blk ! k OR negbits ! (i mod 4)])
     else (residual[i := r], blk))"

definition quantize_2bit :: "FpuC \<Rightarrow> f32 \<Rightarrow> f32 \<Rightarrow> f32 list \<Rightarrow> nat \<Rightarrow> f32 list \<Rightarrow> f32 list \<times> bytes" where
  "quantize_2bit fp neg_threshold pos_threshold grad out_block_id residual =
     (let n = length grad; start = 16 * out_block_id; stop = (if start + 16 \<le> n then start + 16 else n) in
      fold (quantize_step fp neg_threshold pos_threshold grad start) [start..<stop] (residual, [0, 0, 0, 0]))"

text \<open>The kernel runs one instance per block; they touch different residuals and bytes.\<close>

fun quantize_blocks :: "FpuC \<Rightarrow> f32 \<Rightarrow> f32 \<Rightarrow> f32 list \<Rightarrow> nat list \<Rightarrow> f32 list \<Rightarrow> f32 list \<times> bytes" where
  "quantize_blocks fp ng ps grad [] residual = (residual, [])"
| "quantize_blocks fp ng ps grad (b # bs) residual =
     (let (r1, blk) = quantize_2bit fp ng ps grad b residual; (r2, out) = quantize_blocks fp ng ps grad bs r1 in (r2, blk @ out))"

text \<open>\<open>nb\<close> is the size of the destination; a residual of another size would be overrun.\<close>

definition Quantize :: "FpuC \<Rightarrow> GradientCompression \<Rightarrow> nat \<Rightarrow> f32 list \<Rightarrow> f32 list \<Rightarrow> (f32 list \<times> bytes) res" where
  "Quantize fp gc nb grad residual =
     (if gc_type gc = kTwoBit
      then defined (length grad \<le> length residual) ''residual[i]''
        (Inr (quantize_blocks fp (f_neg fp (gc_threshold gc)) (gc_threshold gc) grad [0..<nb] residual))
      else Inl (Fatal ''Unsupported quantization''))"

definition dequantize_2bit :: "f32 \<Rightarrow> f32 \<Rightarrow> bytes \<Rightarrow> nat \<Rightarrow> f32" where
  "dequantize_2bit neg_threshold pos_threshold inp i =
     (let ch = inp ! (4 * (i div 16) + (i mod 16) div 4); col = i mod 4; mask = posbits ! col; masked = ch AND mask in
      if masked = mask then pos_threshold else if masked = negbits ! col then neg_threshold else 0)"

definition Dequantize :: "FpuC \<Rightarrow> GradientCompression \<Rightarrow> bytes \<Rightarrow> nat \<Rightarrow> f32 list res" where
  "Dequantize fp gc inp n =
     (if gc_type gc = kTwoBit
      then defined (4 * ((n + 15) div 16) \<le> length inp) ''in + (i >> 4)''
        (Inr (map (dequantize_2bit (f_neg fp (gc_threshold gc)) (gc_threshold gc) inp) [0..<n]))
      else Inl (Fatal ''Unsupported dequantization''))"

subsection \<open>Bi-sparse compression\<close>

definition momentum_step :: "FpuC \<Rightarrow> f32 list \<Rightarrow> f32 list \<Rightarrow> f32 list \<Rightarrow> f32 list \<times> f32 list" where
  "momentum_step fp grad u v = (let u' = map2 (f_momentum fp) u grad in (u', map2 (f_add fp) v u'))"

definition fabs :: "f32 \<Rightarrow> f32" where
  "fabs x = x AND 0x7FFFFFFF"

text \<open>A priority queue with its smallest element on top, as an ascending list.\<close>

fun heap_push :: "FpuC \<Rightarrow> f32 \<Rightarrow> f32 list \<Rightarrow> f32 list" where
  "heap_push fp x [] = [x]"
| "heap_push fp x (y # ys) = (if f_less fp y x then y # heap_push fp x ys else x # y # ys)"

fun sample_loop :: "FpuC \<Rightarrow> int \<Rightarrow> f32 list \<Rightarrow> f32 list \<Rightarrow> f32 list res" where
  "sample_loop fp top_k [] q = Inr q"
| "sample_loop fp top_k (x # xs) q =
     (if int (length q) < top_k then sample_loop fp top_k xs (heap_push fp x q)
      else defined (q \<noteq> []) ''q.top()''
        (if f_less fp (hd q) x
         then sample_loop fp top_k xs (heap_push fp x (if int (length q) = top_k then tl q else q))
         else sample_loop fp top_k xs q))"

text \<open>
  The sending loop: values and positions of the gradients that reach the boundary, as many as fit,
  and both residuals, cleared where a gradient is sent.
\<close>

fun bsc_keep :: "FpuC \<Rightarrow> f32 \<Rightarrow> nat \<Rightarrow> nat \<Rightarrow> f32 list \<Rightarrow> f32 list \<Rightarrow> (f32 \<times> f32) list \<times> f32 list \<times> f32 list" where
  "bsc_keep fp boundary i zipped_size (x # v) (y # u) =
     (if f_le fp boundary (fabs x) \<and> 0 < zipped_size
      then (let (out, v', u') = bsc_keep fp boundary (Suc i) (zipped_size - 1) v u in ((x, f_of_int fp (int i)) # out, 0 # v', 0 # u'))
      else (let (out, v', u') = bsc_keep fp boundary (Suc i) zipped_size v u in (out, x # v', y # u')))"
| "bsc_keep fp boundary i zipped_size v u = ([], v, u)"

text \<open>Values first, positions after them, each half filled up with its placeholder.\<close>

definition zip_out :: "FpuC \<Rightarrow> nat \<Rightarrow> (f32 \<times> f32) list \<Rightarrow> f32 list" where
  "zip_out fp zipped_size out =
     map fst out @ replicate (zipped_size - length out) (f_of_int fp (-65530)) @
     map snd out @ replicate (zipped_size - length out) (f_of_int fp (-1))"

text \<open>The result is the output and the two residuals \<open>u\<close> and \<open>v\<close>.\<close>

definition BSCompress :: "FpuC \<Rightarrow> GradientCompression \<Rightarrow> f32 list \<Rightarrow> f32 list \<Rightarrow> f32 list \<Rightarrow> (f32 list \<times> f32 list \<times> f32 list) res" where
  "BSCompress fp gc grad u v =
     (if gc_type gc = kBiSparseCompression then
       (let original_size = int (length grad); th = gc_threshold gc; zipped_size = nat (f_scale fp original_size th 1);
            sample_size = f_sample fp original_size th; top_k = f_scale fp sample_size th 1;
            (u1, v1) = momentum_step fp grad u v; indices = f_shuffle fp (length grad) in
        defined (length u = length grad \<and> length v = length grad) ''u[i], v[i]''
         (defined (sample_size \<le> original_size) ''indices[i]''
          (rbind (sample_loop fp top_k (map (\<lambda>i. fabs (v1 ! i)) (take (nat sample_size) indices)) []) (\<lambda>q.
           defined (q \<noteq> []) ''q.top()''
            (let (out, v2, u2) = bsc_keep fp (hd q) 0 zipped_size v1 u1 in Inr (zip_out fp zipped_size out, u2, v2))))))
      else Inl (Fatal ''Unsupported compression''))"

fun nonzero_keep :: "FpuC \<Rightarrow> nat \<Rightarrow> nat \<Rightarrow> f32 list \<Rightarrow> (f32 \<times> f32) list" where
  "nonzero_keep fp i zipped_size [] = []"
| "nonzero_keep fp i zipped_size (x # xs) =
     (if fabs x \<noteq> 0 \<and> 0 < zipped_size then (x, f_of_int fp (int i)) # nonzero_keep fp (Suc i) (zipped_size - 1) xs
      else nonzero_keep fp (Suc i) zipped_size xs)"

definition BSCPullCompress :: "FpuC \<Rightarrow> GradientCompression \<Rightarrow> f32 list \<Rightarrow> int \<Rightarrow> f32 list res" where
  "BSCPullCompress fp gc grad multiplier =
     (if gc_type gc = kBiSparseCompression then
       (let zipped_size = nat (f_scale fp (int (length grad)) (gc_threshold gc) multiplier) in
        Inr (zip_out fp zipped_size (nonzero_keep fp 0 zipped_size grad)))
      else Inl (Fatal ''Unsupported compression''))"

fun decompress_loop :: "FpuC \<Rightarrow> (f32 \<times> f32) list \<Rightarrow> f32 list \<Rightarrow> f32 list res" where
  "decompress_loop fp [] out = Inr out"
| "decompress_loop fp ((x, pos) # zs) out =
     (let grad_index = f_to_int fp pos in
      if 0 \<le> grad_index then defined (nat grad_index < length out) ''out[grad_index]'' (decompress_loop fp zs (out[nat grad_index := x]))
      else decompress_loop fp zs out)"

definition BSCDecompress :: "FpuC \<Rightarrow> GradientCompression \<Rightarrow> f32 list \<Rightarrow> nat \<Rightarrow> f32 list res" where
  "BSCDecompress fp gc zipped original_size =
     (if gc_type gc = kBiSparseCompression then
       (let zipped_size = length zipped div 2 in
        decompress_loop fp (zip (take zipped_size zipped) (take zipped_size (drop zipped_size zipped))) (replicate original_size 0))
      else Inl (Fatal ''Unsupported compression''))"

subsection \<open>What two bits carry\<close>

text \<open>For a gradient with its residual added: the value sent, the residual left, the bits.\<close>

definition sent :: "FpuC \<Rightarrow> f32 \<Rightarrow> f32 \<Rightarrow> f32 \<Rightarrow> f32" where
  "sent fp ng ps r = (if f_le fp ps r then ps else if f_le fp r ng then ng else 0)"

definition kept :: "FpuC \<Rightarrow> f32 \<Rightarrow> f32 \<Rightarrow> f32 \<Rightarrow> f32" where
  "kept fp ng ps r = (if f_le fp ps r then f_sub fp r ps else if f_le fp r ng then f_sub fp r ng else r)"

definition bits2 :: "FpuC \<Rightarrow> f32 \<Rightarrow> f32 \<Rightarrow> f32 \<Rightarrow> nat \<Rightarrow> 8 word" where
  "bits2 fp ng ps r c = (if f_le fp ps r then posbits ! c else if f_le fp r ng then negbits ! c else 0)"

lemma quantize_step_eq:
  "quantize_step fp ng ps grad start i (res, blk) =
     (res[i := kept fp ng ps (f_add fp (res ! i) (grad ! i))],
      blk[(i - start) div 4 := blk ! ((i - start) div 4) OR bits2 fp ng ps (f_add fp (res ! i) (grad ! i)) (i mod 4)])"
  by (simp add: quantize_step_def Let_def kept_def bits2_def)

text \<open>The byte number \<open>k\<close> of the block that starts at \<open>start\<close>, when the elements before \<open>e\<close> are done.\<close>

definition byte2 :: "(nat \<Rightarrow> nat \<Rightarrow> 8 word) \<Rightarrow> nat \<Rightarrow> nat \<Rightarrow> nat \<Rightarrow> 8 word" where
  "byte2 bits start e k = fold (OR) (map (\<lambda>t. if start + 4 * k + t < e then bits (start + 4 * k + t) t else 0) [0..<4]) 0"

lemma byte2_unfold:
  "byte2 bits start e k = (if start + 4 * k < e then bits (start + 4 * k) 0 else 0) OR (if start + 4 * k + 1 < e then bits (start + 4 * k + 1) 1 else 0)
     OR (if start + 4 * k + 2 < e then bits (start + 4 * k + 2) 2 else 0) OR (if start + 4 * k + 3 < e then bits (start + 4 * k + 3) 3 else 0)"
  by (simp add: byte2_def upt_conv_Cons ac_simps numeral_eq_Suc)

lemma byte2_step:
  assumes "start \<le> e" "start mod 4 = 0"
  shows "byte2 bits start (Suc e) k = (if k = (e - start) div 4 then byte2 bits start e k OR bits e (e mod 4) else byte2 bits start e k)"
proof -
  obtain q t where e: "e = start + 4 * q + t" "t < 4"
    using assms(1) by (metis add.assoc le_add_diff_inverse mod_less_divisor mult_div_mod_eq zero_less_numeral)
  have q: "(e - start) div 4 = q" and t: "e mod 4 = t" using e assms(2) by auto presburger
  consider "t = 0" | "t = 1" | "t = 2" | "t = 3" using e(2) by linarith
  then show ?thesis
  proof cases
    case 1 show ?thesis unfolding q t byte2_unfold unfolding e(1) 1 by (auto simp: ac_simps)
  next
    case 2 show ?thesis unfolding q t byte2_unfold unfolding e(1) 2 by (auto simp: ac_simps)
  next
    case 3 show ?thesis unfolding q t byte2_unfold unfolding e(1) 3 by (auto simp: ac_simps)
  next
    case 4 show ?thesis unfolding q t byte2_unfold unfolding e(1) 4 by (auto simp: ac_simps)
  qed
qed

lemma quantize_fold:
  assumes "16 * b \<le> e" "e \<le> 16 * b + 16" "e \<le> length grad" "length grad \<le> length res"
    and "bits = (\<lambda>i. bits2 fp ng ps (f_add fp (res ! i) (grad ! i)))"
  shows "fold (quantize_step fp ng ps grad (16 * b)) [16 * b..<e] (res, [0, 0, 0, 0]) =
    (map (\<lambda>j. if 16 * b \<le> j \<and> j < e then kept fp ng ps (f_add fp (res ! j) (grad ! j)) else res ! j) [0..<length res],
     map (byte2 bits (16 * b) e) [0..<4])"
  using assms(1-3)
proof (induction e)
  case (Suc e)
  show ?case
  proof (cases "16 * b = Suc e")
    case True
    then show ?thesis by (auto simp: byte2_def upt_conv_Cons numeral_eq_Suc intro!: nth_equalityI)
  next
    case False
    let ?res = "\<lambda>e. map (\<lambda>j. if 16 * b \<le> j \<and> j < e then kept fp ng ps (f_add fp (res ! j) (grad ! j)) else res ! j) [0..<length res]"
    have le: "16 * b \<le> e" using False Suc.prems by simp
    have k: "(e - 16 * b) div 4 < 4" using Suc.prems by (simp add: less_mult_imp_div_less)
    have IH: "fold (quantize_step fp ng ps grad (16 * b)) [16 * b..<e] (res, [0, 0, 0, 0]) = (?res e, map (byte2 bits (16 * b) e) [0..<4])"
      using Suc.IH le Suc.prems by simp
    have "?res e ! e = res ! e" using Suc.prems assms(4) by simp
    moreover have "(?res e)[e := kept fp ng ps (f_add fp (res ! e) (grad ! e))] = ?res (Suc e)"
      using Suc.prems assms(4) le by (auto intro!: nth_equalityI simp: nth_list_update less_Suc_eq)
    moreover have "(map (byte2 bits (16 * b) e) [0..<4])[(e - 16 * b) div 4 :=
        map (byte2 bits (16 * b) e) [0..<4] ! ((e - 16 * b) div 4) OR bits e (e mod 4)] = map (byte2 bits (16 * b) (Suc e)) [0..<4]"
      using k by (auto intro!: nth_equalityI simp: nth_list_update byte2_step[OF le])
    ultimately show ?thesis using IH le by (simp add: quantize_step_eq assms(5))
  qed
qed (auto simp: byte2_def upt_conv_Cons numeral_eq_Suc intro!: nth_equalityI)

lemma byte2_cut: "k < 4 \<Longrightarrow> byte2 bits start (min (start + 16) n) k = byte2 bits start n k"
  by (simp add: byte2_unfold)

lemma byte2_cong: "(\<And>t. t < 4 \<Longrightarrow> start + 4 * k + t < e \<Longrightarrow> f (start + 4 * k + t) = g (start + 4 * k + t)) \<Longrightarrow> byte2 f start e k = byte2 g start e k"
  unfolding byte2_def by (rule arg_cong[where f = "\<lambda>xs. fold (OR) xs 0"]) (auto intro!: map_cong)

lemma block_range: "16 * b \<le> j \<and> j < 16 * b + 16 \<longleftrightarrow> j div 16 = (b :: nat)"
proof -
  have "j = 16 * (j div 16) + j mod 16" "j mod 16 < 16" by simp_all
  then show ?thesis by linarith
qed

text \<open>The bits, the residuals and the bytes of one block.\<close>

lemma quantize_2bit_eq:
  assumes "length grad \<le> length res" "bits = (\<lambda>i. bits2 fp ng ps (f_add fp (res ! i) (grad ! i)))"
  shows "quantize_2bit fp ng ps grad b res =
    (map (\<lambda>j. if j div 16 = b \<and> j < length grad then kept fp ng ps (f_add fp (res ! j) (grad ! j)) else res ! j) [0..<length res],
     map (byte2 bits (16 * b) (length grad)) [0..<4])"
proof (cases "16 * b \<le> length grad")
  case True
  define e where "e = min (16 * b + 16) (length grad)"
  have "e = (if 16 * b + 16 \<le> length grad then 16 * b + 16 else length grad)" by (simp add: e_def)
  then have "quantize_2bit fp ng ps grad b res = fold (quantize_step fp ng ps grad (16 * b)) [16 * b..<e] (res, [0, 0, 0, 0])"
    by (simp add: quantize_2bit_def Let_def)
  then have q: "quantize_2bit fp ng ps grad b res =
      (map (\<lambda>j. if 16 * b \<le> j \<and> j < e then kept fp ng ps (f_add fp (res ! j) (grad ! j)) else res ! j) [0..<length res],
       map (byte2 bits (16 * b) e) [0..<4])"
    using quantize_fold[OF _ _ _ assms, of b e] True by (simp add: e_def)
  have iff: "16 * b \<le> j \<and> j < e \<longleftrightarrow> j div 16 = b \<and> j < length grad" for j
    using block_range[of b j] by (auto simp: e_def)
  have "map (byte2 bits (16 * b) e) [0..<4] = map (byte2 bits (16 * b) (length grad)) [0..<4]"
    by (simp add: e_def byte2_cut)
  then show ?thesis unfolding q iff by simp
next
  case False
  then have "quantize_2bit fp ng ps grad b res = (res, [0, 0, 0, 0])" by (simp add: quantize_2bit_def Let_def)
  moreover have "res = map (\<lambda>j. if j div 16 = b \<and> j < length grad then kept fp ng ps (f_add fp (res ! j) (grad ! j)) else res ! j) [0..<length res]"
    using False by (intro nth_equalityI) auto
  moreover have "[0, 0, 0, 0] = map (byte2 bits (16 * b) (length grad)) [0..<4]" using False by (simp add: byte2_unfold upt_conv_Cons numeral_eq_Suc)
  ultimately show ?thesis by simp
qed

lemma quantize_blocks_eq:
  assumes "length grad \<le> length res" "distinct bs"
    and "bits = (\<lambda>i. bits2 fp ng ps (f_add fp (res ! i) (grad ! i)))"
  shows "quantize_blocks fp ng ps grad bs res =
    (map (\<lambda>j. if j div 16 \<in> set bs \<and> j < length grad then kept fp ng ps (f_add fp (res ! j) (grad ! j)) else res ! j) [0..<length res],
     concat (map (\<lambda>b. map (byte2 bits (16 * b) (length grad)) [0..<4]) bs))"
  using assms
proof (induction bs arbitrary: res bits)
  case Nil
  then show ?case by (auto intro: nth_equalityI)
next
  case (Cons b bs)
  let ?r = "map (\<lambda>j. if j div 16 = b \<and> j < length grad then kept fp ng ps (f_add fp (res ! j) (grad ! j)) else res ! j) [0..<length res]"
  let ?bits = "\<lambda>i. bits2 fp ng ps (f_add fp (?r ! i) (grad ! i))"
  have one: "quantize_2bit fp ng ps grad b res = (?r, map (byte2 bits (16 * b) (length grad)) [0..<4])"
    by (rule quantize_2bit_eq[OF Cons.prems(1,3)])
  have rest: "quantize_blocks fp ng ps grad bs ?r =
    (map (\<lambda>j. if j div 16 \<in> set bs \<and> j < length grad then kept fp ng ps (f_add fp (?r ! j) (grad ! j)) else ?r ! j) [0..<length res],
     concat (map (\<lambda>b. map (byte2 ?bits (16 * b) (length grad)) [0..<4]) bs))"
    using Cons.IH[of ?r ?bits] Cons.prems by simp
  have same: "byte2 ?bits (16 * c) (length grad) k = byte2 bits (16 * c) (length grad) k" if "c \<in> set bs" "k < 4" for c k
  proof -
    have bits: "?bits i = bits i" if "i div 16 = c" "i < length grad" for i
      using that \<open>c \<in> set bs\<close> Cons.prems by auto
    show ?thesis
    proof (rule byte2_cong)
      fix t assume "t < (4 :: nat)" "16 * c + 4 * k + t < length grad"
      then show "?bits (16 * c + 4 * k + t) = bits (16 * c + 4 * k + t)" using \<open>k < 4\<close> by (intro bits) simp_all
    qed
  qed
  have "concat (map (\<lambda>b. map (byte2 ?bits (16 * b) (length grad)) [0..<4]) bs) = concat (map (\<lambda>b. map (byte2 bits (16 * b) (length grad)) [0..<4]) bs)"
    using same by (intro arg_cong[of _ _ concat] map_cong) auto
  then show ?case using Cons.prems by (auto simp: one rest intro!: nth_equalityI)
qed

lemma nth_concat_fours: "(\<And>b. length (f b) = 4) \<Longrightarrow> b < n \<Longrightarrow> k < 4 \<Longrightarrow> concat (map f [0..<n]) ! (4 * b + k) = f b ! k"
proof (induction n)
  case (Suc n)
  have len: "length (concat (map f [0..<n])) = 4 * n" using Suc.prems(1) by (induction n) auto
  show ?case
  proof (cases "b = n")
    case True
    then show ?thesis using len by (simp add: nth_append)
  next
    case False
    then have "b < n" using Suc.prems(2) by simp
    then have "4 * b + k < 4 * n" using Suc.prems(3) by simp
    then show ?thesis using Suc.IH[OF Suc.prems(1) \<open>b < n\<close> Suc.prems(3)] len by (simp add: nth_append)
  qed
qed simp

text \<open>Masking a byte gives the two bits of its column back.\<close>

lemma bits2_values: "bits2 fp ng ps r c \<in> {posbits ! c, negbits ! c, 0}"
  by (simp add: bits2_def)

lemma less_4: "c < 4 \<longleftrightarrow> c = 0 \<or> c = 1 \<or> c = 2 \<or> c = (3 :: nat)"
  by linarith

lemma mask_one:
  assumes "i < 4" "c < 4" "x \<in> {posbits ! i, negbits ! i, 0}"
  shows "x AND posbits ! c = (if i = c then x else 0)"
proof -
  have p: "posbits ! 0 = 0xC0" "posbits ! 1 = 0x30" "posbits ! 2 = 0x0C" "posbits ! 3 = 0x03"
    "negbits ! 0 = 0x80" "negbits ! 1 = 0x20" "negbits ! 2 = 0x08" "negbits ! 3 = 0x02"
    by (simp_all add: posbits_def negbits_def)
  have "i = 0 \<or> i = 1 \<or> i = 2 \<or> i = 3" "c = 0 \<or> c = 1 \<or> c = 2 \<or> c = 3" using assms(1,2) less_4 by auto
  then show ?thesis using assms(3) p by (elim disjE) (simp_all, (elim disjE, simp_all)+)
qed

lemma mask_column:
  assumes "\<And>t. t < 4 \<Longrightarrow> x t \<in> {posbits ! t, negbits ! t, 0}" "c < 4"
  shows "(x 0 OR x 1 OR x 2 OR x 3) AND posbits ! c = x c"
proof -
  have "(x 0 OR x 1 OR x 2 OR x 3) AND posbits ! c =
      (if 0 = c then x 0 else 0) OR (if 1 = c then x 1 else 0) OR (if 2 = c then x 2 else 0) OR (if 3 = c then x 3 else 0)"
    by (simp add: bit.conj_disj_distrib2 mask_one[OF _ assms(2) assms(1)])
  then show ?thesis using assms(2) less_4[of c] by auto
qed

lemma round_up_16: "(if n mod 16 = 0 then n div 16 else n div 16 + 1) = (n + 15) div (16 :: nat)"
proof -
  obtain q r where n: "n = 16 * q + r" "r < 16" by (metis mod_less_divisor mult_div_mod_eq zero_less_numeral)
  have "(r + 15) div 16 = (if r = 0 then 0 else 1)" using n(2) by (cases "r = 0") (auto intro: div_nat_eqI)
  then show ?thesis using n by (simp add: add.assoc)
qed

lemma GetCompressedSize_eq: "gc_type gc = kTwoBit \<Longrightarrow> GetCompressedSize gc (int n) = Inr (int ((n + 15) div 16))"
proof -
  have "int n mod 16 = int (n mod 16)" "int n div 16 = int (n div 16)" by (simp_all add: zmod_int zdiv_int)
  moreover have "(if n mod 16 = 0 then n div 16 else n div 16 + 1) = (n + 15) div 16"
    by (rule round_up_16)
  moreover assume "gc_type gc = kTwoBit"
  ultimately show ?thesis by (auto simp: GetCompressedSize_def GetCompressionFactor_def cmod_nonneg cdiv_nonneg split: if_splits)
qed

lemma dequantize_bits:
  assumes "inp ! (4 * (i div 16) + (i mod 16) div 4) AND posbits ! (i mod 4) = bits2 fp ng ps r (i mod 4)"
  shows "dequantize_2bit ng ps inp i = sent fp ng ps r"
proof -
  have "i mod 4 = 0 \<or> i mod 4 = 1 \<or> i mod 4 = 2 \<or> i mod 4 = 3" using less_4[of "i mod 4"] by simp
  then have "posbits ! (i mod 4) \<noteq> negbits ! (i mod 4) \<and> posbits ! (i mod 4) \<noteq> 0 \<and> negbits ! (i mod 4) \<noteq> 0"
    by (auto simp: posbits_def negbits_def)
  then show ?thesis using assms by (auto simp: dequantize_2bit_def Let_def bits2_def sent_def)
qed

text \<open>
  C19: two-bit compression sends thresholds and keeps the rest. Quantising gradients into a
  destination of the size computed for them succeeds; dequantising the result gives, for each gradient
  with its residual added, the positive threshold if it is reached, the negative one if that is reached,
  and zero otherwise; and the new residual is what was not sent.
\<close>

theorem two_bit_roundtrip:
  assumes "gc_type gc = kTwoBit" "length residual = length grad" "GetCompressedSize gc (int (length grad)) = Inr size2"
    and "ps = gc_threshold gc" "ng = f_neg fp ps" "rs = map2 (f_add fp) residual grad"
  shows "\<exists>out. Quantize fp gc (nat size2) grad residual = Inr (map (kept fp ng ps) rs, out) \<and> length out = 4 * nat size2 \<and>
    Dequantize fp gc out (length grad) = Inr (map (sent fp ng ps) rs)"
proof -
  let ?n = "length grad"
  have size2: "nat size2 = (?n + 15) div 16" using assms(3) GetCompressedSize_eq[OF assms(1), of ?n] by simp
  define bits where "bits = (\<lambda>i. bits2 fp ng ps (f_add fp (residual ! i) (grad ! i)))"
  let ?blk = "\<lambda>b. map (byte2 bits (16 * b) ?n) [0..<4]"
  let ?out = "concat (map ?blk [0..<(?n + 15) div 16])"
  have len: "length ?out = 4 * ((?n + 15) div 16)" by (simp add: length_concat comp_def sum_list_triv)
  have blk: "i div 16 < (?n + 15) div 16" if "i < ?n" for i
    using that div_le_mono[of "i + 16" "?n + 15" 16] by simp
  have "map (\<lambda>j. if j div 16 \<in> set [0..<(?n + 15) div 16] \<and> j < ?n then kept fp ng ps (f_add fp (residual ! j) (grad ! j)) else residual ! j)
      [0..<length residual] = map (kept fp ng ps) rs"
    using blk by (auto simp: assms(2,6) intro!: nth_equalityI)
  then have q: "Quantize fp gc (nat size2) grad residual = Inr (map (kept fp ng ps) rs, ?out)"
    unfolding Quantize_def size2 using quantize_blocks_eq[of grad residual "[0..<(?n + 15) div 16]" bits fp ng ps] assms(1,2)
    by (simp add: bits_def[symmetric] assms(4,5)[symmetric])
  have deq: "dequantize_2bit ng ps ?out i = sent fp ng ps (rs ! i)" if "i < ?n" for i
  proof (rule dequantize_bits)
    let ?k = "(i mod 16) div 4"
    have k: "?k < 4" by (simp add: less_mult_imp_div_less)
    have pos: "16 * (i div 16) + 4 * ?k + i mod 4 = i"
    proof -
      have "i mod 16 = 4 * ?k + (i mod 16) mod 4" by simp
      moreover have "(i mod 16) mod 4 = i mod 4" by (simp add: mod_mod_cancel)
      ultimately show ?thesis using div_mult_mod_eq[of i 16] by linarith
    qed
    define x where "x t = (if 16 * (i div 16) + 4 * ?k + t < ?n then bits (16 * (i div 16) + 4 * ?k + t) t else 0)" for t
    have "?out ! (4 * (i div 16) + ?k) = ?blk (i div 16) ! ?k"
      by (rule nth_concat_fours) (use blk[OF that] k in auto)
    also have "\<dots> = x 0 OR x 1 OR x 2 OR x 3" using k by (simp add: byte2_unfold x_def)
    finally have "?out ! (4 * (i div 16) + ?k) AND posbits ! (i mod 4) = x (i mod 4)"
      using mask_column[of x "i mod 4"] bits2_values by (simp add: x_def bits_def)
    then show "?out ! (4 * (i div 16) + ?k) AND posbits ! (i mod 4) = bits2 fp ng ps (rs ! i) (i mod 4)"
      using that pos by (simp add: x_def bits_def assms(2,6))
  qed
  define out where "out = ?out"
  have l: "length out = 4 * ((?n + 15) div 16)" using len by (simp only: out_def)
  have "map (dequantize_2bit ng ps out) [0..<?n] = map (sent fp ng ps) rs"
  proof (rule nth_equalityI)
    fix i assume "i < length (map (dequantize_2bit ng ps out) [0..<?n])"
    then have "i < ?n" by simp
    then show "map (dequantize_2bit ng ps out) [0..<?n] ! i = map (sent fp ng ps) rs ! i"
      using deq[OF \<open>i < ?n\<close>, folded out_def] assms(2,6) by simp
  qed (simp add: assms(2,6))
  then have "Dequantize fp gc out ?n = Inr (map (sent fp ng ps) rs)"
    unfolding Dequantize_def using assms(1) l by (simp add: assms(4,5)[symmetric])
  then show ?thesis using q[folded out_def] l by (intro exI[of _ out]) (simp add: size2)
qed

text \<open>Floating point that computes on patterns as integers, for concrete runs.\<close>

definition sample_fpuc :: FpuC where
  "sample_fpuc = \<lparr>f_add = (+), f_sub = (-), f_less = (<s), f_center = (\<lambda>_ _ _ _. 0), f_quant = (\<lambda>_ _ _ _. 0), h_add = (+),
     f_contrib = (\<lambda>_ _ _ n. of_int n), f_min_index = (\<lambda>_ n. n div 2), f_of_int = of_int, f_edge = (\<lambda>_ _ _ i. of_int i),
     f_le = (\<le>s), f_neg = uminus, f_momentum = (+), f_scale = (\<lambda>n _ _. n div 2), f_sample = (\<lambda>n _. n), f_to_int = sint,
     f_shuffle = (\<lambda>n. [0..<n])\<rparr>"

theorem two_bit_roundtrip_witness:
  "\<exists>out. Quantize sample_fpuc (SetTwoBitCompression 5 new_GradientCompression) 1 [7, -9, 1] [0, 0, 3] =
       Inr ([2, -4, 4], out) \<and> length out = 4 \<and>
     Dequantize sample_fpuc (SetTwoBitCompression 5 new_GradientCompression) out 3 = Inr [5, -5, 0]"
proof -
  let ?gc = "SetTwoBitCompression 5 new_GradientCompression"
  have "gc_type ?gc = kTwoBit" "gc_threshold ?gc = 5" by (simp_all add: SetTwoBitCompression_def)
  moreover have "GetCompressedSize ?gc (int (length [7, -9, 1 :: f32])) = Inr 1"
    using GetCompressedSize_eq[of ?gc 3] by (simp add: SetTwoBitCompression_def)
  moreover have "map (kept sample_fpuc (-5) 5) (map2 (f_add sample_fpuc) [0, 0, 3] [7, -9, 1]) = [2, -4, 4]" by code_simp
  moreover have "map (sent sample_fpuc (-5) 5) (map2 (f_add sample_fpuc) [0, 0, 3] [7, -9, 1]) = [5, -5, 0]" by code_simp
  moreover have "f_neg sample_fpuc 5 = -5" by (simp add: sample_fpuc_def)
  ultimately show ?thesis
    using two_bit_roundtrip[of ?gc "[0, 0, 3]" "[7, -9, 1]" 1 5 "-5" sample_fpuc "map2 (f_add sample_fpuc) [0, 0, 3] [7, -9, 1]"]
    by (auto simp: numeral_3_eq_3)
qed

subsection \<open>What bi-sparse compression carries\<close>

text \<open>Positions that survive the conversion to floating point and back.\<close>

definition exact_positions :: "FpuC \<Rightarrow> nat \<Rightarrow> bool" where
  "exact_positions fp n \<longleftrightarrow> (\<forall>i < n. f_to_int fp (f_of_int fp (int i)) = int i) \<and> f_to_int fp (f_of_int fp (-1)) < 0"

lemma decompress_append:
  "decompress_loop fp (xs @ ys) out = rbind (decompress_loop fp xs out) (decompress_loop fp ys)"
  by (induction xs arbitrary: out) (auto simp: Let_def defined_def)

lemma decompress_placeholders:
  "f_to_int fp (f_of_int fp (-1)) < 0 \<Longrightarrow> decompress_loop fp (replicate k (p, f_of_int fp (-1))) out = Inr out"
  by (induction k) auto

lemma decompress_zip_out:
  assumes "exact_positions fp n" "length out \<le> zs" "gc_type gc = kBiSparseCompression"
  shows "length (zip_out fp zs out) = 2 * zs \<and>
    BSCDecompress fp gc (zip_out fp zs out) n = decompress_loop fp out (replicate n 0)"
proof -
  let ?p = "replicate (zs - length out) (f_of_int fp (-65530))" and ?q = "replicate (zs - length out) (f_of_int fp (-1))"
  have len: "length (zip_out fp zs out) = 2 * zs" using assms(2) by (simp add: zip_out_def)
  have halves: "take zs (zip_out fp zs out) = map fst out @ ?p" "take zs (drop zs (zip_out fp zs out)) = map snd out @ ?q"
    using assms(2) by (simp_all add: zip_out_def)
  have zips: "zip (map fst out @ ?p) (map snd out @ ?q) = out @ replicate (zs - length out) (f_of_int fp (-65530), f_of_int fp (-1))"
    by (simp add: zip_append zip_map_fst_snd zip_replicate)
  have half: "2 * zs div 2 = zs" by simp
  have "BSCDecompress fp gc (zip_out fp zs out) n =
      rbind (decompress_loop fp out (replicate n 0)) (decompress_loop fp (replicate (zs - length out) (f_of_int fp (-65530), f_of_int fp (-1))))"
    unfolding BSCDecompress_def Let_def len half halves zips decompress_append using assms(3) by simp
  also have "\<dots> = decompress_loop fp out (replicate n 0)"
    using assms(1) by (cases "decompress_loop fp out (replicate n 0)") (simp_all add: exact_positions_def decompress_placeholders)
  finally show ?thesis using len by simp
qed

text \<open>The gradients that are not zero, as many as fit, at their places.\<close>

fun first_nonzero :: "nat \<Rightarrow> f32 list \<Rightarrow> f32 list" where
  "first_nonzero zs [] = []"
| "first_nonzero zs (x # xs) =
     (if fabs x \<noteq> 0 \<and> 0 < zs then x # first_nonzero (zs - 1) xs else 0 # first_nonzero zs xs)"

lemma length_nonzero_keep: "length (nonzero_keep fp i zs xs) \<le> zs"
  by (induction fp i zs xs rule: nonzero_keep.induct) auto

lemma decompress_nonzero:
  assumes "exact_positions fp (length pre + length xs)"
  shows "decompress_loop fp (nonzero_keep fp (length pre) zs xs) (pre @ replicate (length xs) 0) = Inr (pre @ first_nonzero zs xs)"
  using assms
proof (induction xs arbitrary: pre zs)
  case (Cons x xs)
  have ex: "f_to_int fp (f_of_int fp (int (length pre))) = int (length pre)" using Cons.prems by (simp add: exact_positions_def)
  have "exact_positions fp (length (pre @ [y]) + length xs)" for y using Cons.prems by simp
  from Cons.IH[OF this, of x "zs - 1"] Cons.IH[OF this, of 0 zs] ex show ?case by (auto simp: Let_def)
qed simp

lemma first_nonzero_all:
  "length (filter (\<lambda>x. fabs x \<noteq> 0) xs) \<le> zs \<Longrightarrow> first_nonzero zs xs = map (\<lambda>x. if fabs x = 0 then 0 else x) xs"
  by (induction zs xs rule: first_nonzero.induct) auto

text \<open>
  C20: what a pull under bi-sparse compression delivers. Compressing the sum on a global server and
  decompressing it on a party's server gives the gradients that are not zero at their places, as many
  as the compressed size has room for and zeros elsewhere; if they all fit nothing is lost. Positions
  travel as floating point numbers and have to survive that.
\<close>

theorem bsc_pull_roundtrip:
  assumes "gc_type gc = kBiSparseCompression" "exact_positions fp (length grad)"
    and "zs = nat (f_scale fp (int (length grad)) (gc_threshold gc) m)"
  shows "\<exists>z. BSCPullCompress fp gc grad m = Inr z \<and> length z = 2 * zs \<and>
    BSCDecompress fp gc z (length grad) = Inr (first_nonzero zs grad) \<and>
    (length (filter (\<lambda>x. fabs x \<noteq> 0) grad) \<le> zs \<longrightarrow> first_nonzero zs grad = map (\<lambda>x. if fabs x = 0 then 0 else x) grad)"
proof -
  let ?out = "nonzero_keep fp 0 zs grad"
  have "BSCPullCompress fp gc grad m = Inr (zip_out fp zs ?out)" using assms(1) by (simp add: BSCPullCompress_def Let_def assms(3))
  moreover have "length (zip_out fp zs ?out) = 2 * zs"
    "BSCDecompress fp gc (zip_out fp zs ?out) (length grad) = decompress_loop fp ?out (replicate (length grad) 0)"
    using decompress_zip_out[OF assms(2) length_nonzero_keep assms(1)] by simp_all
  moreover have "decompress_loop fp ?out (replicate (length grad) 0) = Inr (first_nonzero zs grad)"
    using decompress_nonzero[of fp "[]" grad zs] assms(2) by simp
  ultimately show ?thesis using first_nonzero_all by (intro exI[of _ "zip_out fp zs ?out"]) simp
qed

theorem bsc_pull_roundtrip_witness:
  "\<exists>z. BSCPullCompress sample_fpuc (SetBiSparseCompression 5 new_GradientCompression) [7, 0, 0, 9] 1 = Inr z \<and>
     BSCDecompress sample_fpuc (SetBiSparseCompression 5 new_GradientCompression) z 4 = Inr [7, 0, 0, 9]"
proof -
  let ?gc = "SetBiSparseCompression 5 new_GradientCompression"
  have len: "length [7, 0, 0, 9 :: f32] = 4" by simp
  have "exact_positions sample_fpuc 4" by (auto simp: exact_positions_def sample_fpuc_def less_4)
  then have ex: "exact_positions sample_fpuc (length [7, 0, 0, 9 :: f32])" unfolding len .
  have gc: "gc_type ?gc = kBiSparseCompression" by (simp add: SetBiSparseCompression_def)
  have zs: "2 = nat (f_scale sample_fpuc (int (length [7, 0, 0, 9 :: f32])) (gc_threshold ?gc) 1)" by (simp add: sample_fpuc_def)
  have fn: "first_nonzero 2 [7, 0, 0, 9] = [7, 0, 0, 9]" by code_simp
  from bsc_pull_roundtrip[OF gc ex zs] show ?thesis unfolding fn len by blast
qed

text \<open>At each position the accumulated gradient is either sent and cleared, or not sent and kept.\<close>

definition sent_or_kept :: "f32 list \<Rightarrow> f32 list \<Rightarrow> f32 list \<Rightarrow> f32 list \<Rightarrow> f32 list \<Rightarrow> bool" where
  "sent_or_kept v u d v' u' \<longleftrightarrow> length d = length v \<and> length v' = length v \<and> length u' = length v \<and>
     (\<forall>j < length v. (d ! j = v ! j \<and> v' ! j = 0 \<and> u' ! j = 0) \<or> (d ! j = 0 \<and> v' ! j = v ! j \<and> u' ! j = u ! j))"

lemma sent_or_kept_Cons:
  assumes "sent_or_kept v u d v' u'" "(a = x \<and> b = 0 \<and> c = 0) \<or> (a = 0 \<and> b = x \<and> c = y)"
  shows "sent_or_kept (x # v) (y # u) (a # d) (b # v') (c # u')"
  using assms by (auto simp: sent_or_kept_def nth_Cons split: nat.splits)

lemma bsc_keep_decompress:
  assumes "length u = length v" "exact_positions fp (length pre + length v)" "bsc_keep fp bd (length pre) zs v u = (out, v', u')"
  shows "length out \<le> zs \<and>
    (\<exists>d. decompress_loop fp out (pre @ replicate (length v) 0) = Inr (pre @ d) \<and> sent_or_kept v u d v' u')"
  using assms
proof (induction v arbitrary: u pre zs out v' u')
  case Nil
  then show ?case by (simp add: sent_or_kept_def)
next
  case (Cons x v)
  then obtain y us where u: "u = y # us" "length us = length v" by (cases u) auto
  have ex: "f_to_int fp (f_of_int fp (int (length pre))) = int (length pre)" using Cons.prems by (simp add: exact_positions_def)
  have ex': "exact_positions fp (length (pre @ [z]) + length v)" for z using Cons.prems by simp
  show ?case
  proof (cases "f_le fp bd (fabs x) \<and> 0 < zs")
    case True
    obtain o1 v1 u1 where r: "bsc_keep fp bd (length (pre @ [x])) (zs - 1) v us = (o1, v1, u1)" by (cases "bsc_keep fp bd (length (pre @ [x])) (zs - 1) v us")
    then have o: "out = (x, f_of_int fp (int (length pre))) # o1" "v' = 0 # v1" "u' = 0 # u1" using Cons.prems(3) True u by auto
    obtain d where "decompress_loop fp o1 ((pre @ [x]) @ replicate (length v) 0) = Inr ((pre @ [x]) @ d)" "sent_or_kept v us d v1 u1" "length o1 \<le> zs - 1"
      using Cons.IH[OF u(2) ex' r] by blast
    then show ?thesis using True ex o u(1) sent_or_kept_Cons[of v us d v1 u1 x x 0 0 y] by (auto simp: Let_def intro!: exI[of _ "x # d"])
  next
    case False
    obtain o1 v1 u1 where r: "bsc_keep fp bd (length (pre @ [0])) zs v us = (o1, v1, u1)" by (cases "bsc_keep fp bd (length (pre @ [0])) zs v us")
    then have o: "out = o1" "v' = x # v1" "u' = y # u1" using Cons.prems(3) False u by auto
    obtain d where "decompress_loop fp o1 ((pre @ [0]) @ replicate (length v) 0) = Inr ((pre @ [0]) @ d)" "sent_or_kept v us d v1 u1" "length o1 \<le> zs"
      using Cons.IH[OF u(2) ex' r] by blast
    then show ?thesis using o u(1) sent_or_kept_Cons[of v us d v1 u1 0 x x y y] by (auto intro!: exI[of _ "0 # d"])
  qed
qed

text \<open>
  C18: bi-sparse compression sends or keeps every gradient. After momentum is added, what the
  receiver decompresses has at each position either the whole accumulated gradient, and then both
  residuals are cleared there, or zero, and then both are kept.
\<close>

theorem bsc_push_conserves:
  assumes "BSCompress fp gc grad u v = Inr (z, u', v')" "exact_positions fp (length grad)" "momentum_step fp grad u v = (u1, v1)"
  shows "\<exists>d. BSCDecompress fp gc z (length grad) = Inr d \<and> sent_or_kept v1 u1 d v' u' \<and> length d = length grad"
proof -
  define zs where "zs = nat (f_scale fp (int (length grad)) (gc_threshold gc) 1)"
  from assms(1,3) obtain q out where gc: "gc_type gc = kBiSparseCompression" and len: "length u = length grad" "length v = length grad"
    and keep: "bsc_keep fp (hd q) 0 zs v1 u1 = (out, v', u')" and z: "z = zip_out fp zs out"
    by (auto simp: BSCompress_def Let_def zs_def defined_def res_simps split: if_splits prod.splits)
  have l: "length u1 = length v1" "length v1 = length grad" using assms(3) len by (auto simp: momentum_step_def Let_def)
  obtain d where d: "decompress_loop fp out (replicate (length v1) 0) = Inr d" "sent_or_kept v1 u1 d v' u'" "length out \<le> zs"
    using bsc_keep_decompress[of u1 v1 fp "[]" "hd q" zs out v' u'] l assms(2) keep by auto
  then show ?thesis using decompress_zip_out[OF assms(2) d(3) gc] l z by (auto simp: sent_or_kept_def)
qed

theorem bsc_push_conserves_witness:
  "\<exists>z u' v' d. BSCompress sample_fpuc (SetBiSparseCompression 5 new_GradientCompression) [7, 1, 0, 9] [0, 0, 0, 0] [0, 5, 0, 0] = Inr (z, u', v') \<and>
     BSCDecompress sample_fpuc (SetBiSparseCompression 5 new_GradientCompression) z 4 = Inr d \<and>
     sent_or_kept [7, 6, 0, 9] [7, 1, 0, 9] d v' u'"
proof -
  let ?gc = "SetBiSparseCompression 5 new_GradientCompression"
  have len: "length [7, 1, 0, 9 :: f32] = 4" by simp
  have "exact_positions sample_fpuc 4" by (auto simp: exact_positions_def sample_fpuc_def less_4)
  then have ex: "exact_positions sample_fpuc (length [7, 1, 0, 9 :: f32])" unfolding len .
  have mom: "momentum_step sample_fpuc [7, 1, 0, 9] [0, 0, 0, 0] [0, 5, 0, 0] = ([7, 1, 0, 9], [7, 6, 0, 9])"
    by (simp add: momentum_step_def sample_fpuc_def)
  have "BSCompress sample_fpuc ?gc [7, 1, 0, 9] [0, 0, 0, 0] [0, 5, 0, 0] = Inr ([7, 9, 0, 3], [0, 1, 0, 0], [0, 6, 0, 0])"
    by code_simp
  from this bsc_push_conserves[OF this ex mom] show ?thesis unfolding len by blast
qed

end
