(* ===== verification/Ndarrays.thy ===== *)
theory Ndarrays
  imports Prelude
begin

text \<open>
  Arrays of the tensor library as the key-value server uses them (\<^verbatim>\<open>src/ndarray/ndarray.cc\<close>,
  \<^verbatim>\<open>3rdparty/mshadow/mshadow/base.h\<close>): an \<open>NDArray\<close> is a handle on a memory cell, assignment
  shares the cell, copying and compound assignment write into it. Cells live in an explicit heap;
  handles are addresses. The engine runs operations in the order of their dependencies and the code
  waits before it reads, so an operation takes effect where it is called. Element arithmetic is a
  parameter, and so is what fresh memory holds. All arrays here are one-dimensional.
\<close>

record NDArray =
  nd_dtype :: int
  nd_bytes :: bytes

record Heap =
  hp_cell :: "nat \<Rightarrow> NDArray"
  hp_next :: nat

record NdLib =
  nl_add :: "int \<Rightarrow> bytes \<Rightarrow> bytes \<Rightarrow> bytes"
  nl_sub :: "int \<Rightarrow> bytes \<Rightarrow> bytes \<Rightarrow> bytes"
  nl_div :: "int \<Rightarrow> bytes \<Rightarrow> int \<Rightarrow> bytes"
  nl_cast :: "int \<Rightarrow> int \<Rightarrow> bytes \<Rightarrow> bytes"
  nl_garbage :: "nat \<Rightarrow> nat \<Rightarrow> 8 word"

definition kFloat32 :: int where "kFloat32 = 0"

definition mshadow_sizeof :: "int \<Rightarrow> nat res" where
  "mshadow_sizeof t =
     (if t = 0 \<or> t = 4 then Inr 4 else if t = 1 \<or> t = 6 then Inr 8 else if t = 2 then Inr 2
      else if t = 3 \<or> t = 5 then Inr 1 else Inl (Fatal ''Unknown type enum''))"

definition real_type :: "int \<Rightarrow> bool" where
  "real_type t \<longleftrightarrow> t = 0 \<or> t = 1 \<or> t = 2"

definition elem_size :: "int \<Rightarrow> nat" where
  "elem_size t = (case mshadow_sizeof t of Inr n \<Rightarrow> n | Inl _ \<Rightarrow> 1)"

definition nd_size :: "NDArray \<Rightarrow> nat" where
  "nd_size a = length (nd_bytes a) div elem_size (nd_dtype a)"

definition nd_alloc :: "NDArray \<Rightarrow> Heap \<Rightarrow> nat \<times> Heap" where
  "nd_alloc a h = (hp_next h, h\<lparr>hp_cell := (hp_cell h)(hp_next h := a), hp_next := hp_next h + 1\<rparr>)"

definition nd_new :: "NdLib \<Rightarrow> nat \<Rightarrow> int \<Rightarrow> Heap \<Rightarrow> nat \<times> Heap" where
  "nd_new N n t h = nd_alloc \<lparr>nd_dtype = t, nd_bytes = map (nl_garbage N (hp_next h)) [0..<n * elem_size t]\<rparr> h"

text \<open>An array over the values of a message, \<open>NDArray(TBlob(vals.data(), dshape))\<close>.\<close>

definition nd_wrap :: "int \<Rightarrow> nat \<Rightarrow> bytes \<Rightarrow> Heap \<Rightarrow> (nat \<times> Heap) res" where
  "nd_wrap t n vals h =
     (if real_type t then defined (n * elem_size t \<le> length vals) ''vals.data()''
        (Inr (nd_alloc \<lparr>nd_dtype = t, nd_bytes = take (n * elem_size t) vals\<rparr> h))
      else Inl (Fatal ''This operation only support floating point types''))"

definition nd_set :: "nat \<Rightarrow> bytes \<Rightarrow> Heap \<Rightarrow> Heap" where
  "nd_set a bs h = h\<lparr>hp_cell := (hp_cell h)(a := (hp_cell h a)\<lparr>nd_bytes := bs\<rparr>)\<rparr>"

definition CopyFromTo :: "NdLib \<Rightarrow> nat \<Rightarrow> nat \<Rightarrow> Heap \<Rightarrow> Heap res" where
  "CopyFromTo N src dst h =
     (if src = dst then Inr h
      else (let a = hp_cell h src; b = hp_cell h dst in
        chk (nd_size a = nd_size b) ''operands shape mismatch''
          (Inr (nd_set dst (if nd_dtype a = nd_dtype b then nd_bytes a else nl_cast N (nd_dtype a) (nd_dtype b) (nd_bytes a)) h))))"

text \<open>\<open>dst += src\<close>.\<close>

definition nd_iadd :: "NdLib \<Rightarrow> nat \<Rightarrow> nat \<Rightarrow> Heap \<Rightarrow> Heap res" where
  "nd_iadd N dst src h =
     (let a = hp_cell h dst; b = hp_cell h src in
      chk (nd_size a = nd_size b) ''target shape mismatch'' (chk (nd_dtype a = nd_dtype b) ''type_flag_''
        (Inr (nd_set dst (nl_add N (nd_dtype a) (nd_bytes a) (nd_bytes b)) h))))"

text \<open>Binary operations and division by a scalar make a new array.\<close>

definition nd_binop :: "(int \<Rightarrow> bytes \<Rightarrow> bytes \<Rightarrow> bytes) \<Rightarrow> nat \<Rightarrow> nat \<Rightarrow> Heap \<Rightarrow> (nat \<times> Heap) res" where
  "nd_binop f x y h =
     (let a = hp_cell h x; b = hp_cell h y in
      chk (nd_size a = nd_size b) ''operands shape mismatch'' (chk (nd_dtype a = nd_dtype b) ''type_flag_''
        (Inr (nd_alloc \<lparr>nd_dtype = nd_dtype a, nd_bytes = f (nd_dtype a) (nd_bytes a) (nd_bytes b)\<rparr> h))))"

definition nd_scale :: "NdLib \<Rightarrow> nat \<Rightarrow> int \<Rightarrow> Heap \<Rightarrow> nat \<times> Heap" where
  "nd_scale N x k h = (let a = hp_cell h x in nd_alloc \<lparr>nd_dtype = nd_dtype a, nd_bytes = nl_div N (nd_dtype a) (nd_bytes a) k\<rparr> h)"

end
