(* ===== verification/DistServers.thy ===== *)
theory DistServers
  imports Compression Ndarrays
begin

text \<open>
  \<open>KVStoreDistServer\<close> (\<^verbatim>\<open>src/kvstore/kvstore_dist_server.h\<close>): the server of a party and the global
  server. A party's server sums the gradients of its workers, pushes the sum to the global servers,
  pulls the result and answers its workers; a global server sums over parties and runs the
  optimiser. Arrays are handles into an explicit heap, since several members share memory.

  \<open>DistLib\<close> is what the server is given: the key-value server's library, array and floating point
  arithmetic, the optimiser, which reads the update and the stored array and keeps a state of its
  own, the controller and the profiler, and the handler of row-sparse data, which is not modelled.
  The executor runs a function in the main thread while the caller waits, so it is a call here; once
  stopped it runs nothing and the caller waits for ever. Values in a message are bytes, not memory
  shared with the array they were taken from. What other threads do while a handler waits for TSEngine is \<open>ds_moves\<close>.
\<close>

subsection \<open>State\<close>

record UpdateBuf =
  ub_request :: "KVMeta list"
  ub_merged :: "nat option"
  ub_temp :: "nat option"

definition empty_UpdateBuf :: UpdateBuf where
  "empty_UpdateBuf = \<lparr>ub_request = [], ub_merged = None, ub_temp = None\<rparr>"

record PSKV =
  pk_keys :: "key list"
  pk_lens :: "int list"
  pk_size :: int

definition empty_PSKV :: PSKV where
  "empty_PSKV = \<lparr>pk_keys = [], pk_lens = [], pk_size = 0\<rparr>"

record DistServer = KVServer +
  ds_heap :: Heap
  ds_store :: "int \<Rightarrow> nat option"
  ds_store_keys :: "int list"
  ds_milestone :: "int \<Rightarrow> nat option"
  ds_realt :: "int \<Rightarrow> nat option"
  ds_store_v :: "int \<Rightarrow> int"
  ds_comm_buf :: "int \<Rightarrow> nat option"
  ds_update_buf :: "int \<Rightarrow> UpdateBuf"
  ds_update_tmp :: "int \<Rightarrow> UpdateBuf"
  ds_update_global :: "int \<Rightarrow> UpdateBuf"
  ds_compr_buf :: "int \<Rightarrow> nat option"
  ds_velocity :: "int \<Rightarrow> nat option"
  ds_accumulated :: "int \<Rightarrow> nat option"
  ds_residual :: "int \<Rightarrow> nat option"
  ds_initialized :: "int \<Rightarrow> bool"
  ds_recv_kvs :: "int \<Rightarrow> kvs list"
  ds_key_map :: "key \<Rightarrow> int"
  ds_ts_key_map :: "int \<Rightarrow> int"
  ds_ps_kv :: "int \<Rightarrow> PSKV"
  ds_compr_push :: "int \<Rightarrow> PSKV"
  ds_compr_pull :: "int \<Rightarrow> PSKV"
  ds_bigarray_bound :: nat
  ds_size_lower_bound :: nat
  ds_use_hfa :: bool
  ds_local_iters :: nat
  ds_period_k1 :: nat
  ds_period_k2 :: nat
  ds_sync_mode :: bool
  ds_sync_global_mode :: bool
  ds_multi_precision :: bool
  ds_gc :: GradientCompression
  ds_send_q :: "int list"
  ds_req_meta_buf :: "int \<Rightarrow> KVMeta"
  ds_req_data_buf :: "int \<Rightarrow> kvs"
  ds_num_stop_executor :: int
  ds_stopped :: bool
  ds_optimizer :: nat
  ds_moves :: moves

text \<open>The calls of the profiler's interface.\<close>

datatype ProfilerCall = MXSetProfilerConfig "(string \<times> string) list" | MXSetProfilerState int | MXProfilePause int | MXDumpProfile int

record DistLib =
  dl_kvs :: "DistServer KVSLib"
  dl_nd :: NdLib
  dl_fpu :: FpuC
  dl_updater :: "(int \<Rightarrow> NDArray \<Rightarrow> NDArray \<Rightarrow> nat \<Rightarrow> bytes \<times> nat) option"
  dl_controller :: "(int \<Rightarrow> string \<Rightarrow> DistServer \<Rightarrow> DistServer res) option"
  dl_profiler :: "ProfilerCall \<Rightarrow> DistServer \<Rightarrow> DistServer res"
  dl_print_int :: "int \<Rightarrow> string"
  dl_row_sparse :: "DataHandleType \<Rightarrow> KVMeta \<Rightarrow> kvs \<Rightarrow> DistServer \<Rightarrow> DistServer res"
  dl_stoi :: "string \<Rightarrow> int res"
  dl_stof :: "string \<Rightarrow> f32 res"
  dl_part :: "nat \<Rightarrow> nat \<Rightarrow> nat \<Rightarrow> nat"
  dl_sort :: "kvs list \<Rightarrow> kvs list"

definition is_global_server :: "DistServer \<Rightarrow> bool" where
  "is_global_server st = po_is_global_server (pr_po (ks_proc st))"

definition has_multi_precision_copy :: "DataHandleType \<Rightarrow> DistServer \<Rightarrow> bool" where
  "has_multi_precision_copy type st \<longleftrightarrow> ds_multi_precision st \<and> dh_dtype type \<noteq> kFloat32"

text \<open>\<open>store_realt_[key]\<close> or \<open>store_[key]\<close>.\<close>

definition stored_ref :: "bool \<Rightarrow> int \<Rightarrow> DistServer \<Rightarrow> nat option" where
  "stored_ref mp key st = (if mp then ds_realt st key else ds_store st key)"

definition set_store :: "int \<Rightarrow> nat \<Rightarrow> DistServer \<Rightarrow> DistServer" where
  "set_store key a st = st\<lparr>ds_store := (ds_store st)(key \<mapsto> a), ds_store_keys := List.insert key (ds_store_keys st)\<rparr>"

definition set_stored :: "bool \<Rightarrow> int \<Rightarrow> nat \<Rightarrow> DistServer \<Rightarrow> DistServer" where
  "set_stored mp key a st = (if mp then st\<lparr>ds_realt := (ds_realt st)(key \<mapsto> a)\<rparr> else set_store key a st)"

definition handle :: "nat option \<Rightarrow> nat res" where
  "handle r = (case r of None \<Rightarrow> Inl (Check ''!is_none()'') | Some a \<Rightarrow> Inr a)"

definition cell :: "DistServer \<Rightarrow> nat \<Rightarrow> NDArray" where
  "cell st a = hp_cell (ds_heap st) a"

text \<open>\<open>shape().Size()\<close>: an array that is none has an empty shape, whose size is 1.\<close>

definition arr_size :: "DistServer \<Rightarrow> nat option \<Rightarrow> nat" where
  "arr_size st r = (case r of None \<Rightarrow> 1 | Some a \<Rightarrow> nd_size (cell st a))"

definition heap_run :: "(Heap \<Rightarrow> Heap res) \<Rightarrow> DistServer \<Rightarrow> DistServer res" where
  "heap_run f st = rbind (f (ds_heap st)) (\<lambda>h. Inr (st\<lparr>ds_heap := h\<rparr>))"

definition heap_get :: "(Heap \<Rightarrow> (nat \<times> Heap) res) \<Rightarrow> DistServer \<Rightarrow> (nat \<times> DistServer) res" where
  "heap_get f st = rbind (f (ds_heap st)) (\<lambda>(a, h). Inr (a, st\<lparr>ds_heap := h\<rparr>))"

definition heap_new :: "NdLib \<Rightarrow> nat \<Rightarrow> int \<Rightarrow> DistServer \<Rightarrow> nat \<times> DistServer" where
  "heap_new N n t st = (let (a, h) = nd_new N n t (ds_heap st) in (a, st\<lparr>ds_heap := h\<rparr>))"

definition heap_write :: "nat \<Rightarrow> bytes \<Rightarrow> DistServer \<Rightarrow> DistServer" where
  "heap_write a bs st = st\<lparr>ds_heap := nd_set a bs (ds_heap st)\<rparr>"

definition set_updates :: "int \<Rightarrow> UpdateBuf \<Rightarrow> DistServer \<Rightarrow> DistServer" where
  "set_updates key u st = st\<lparr>ds_update_buf := (ds_update_buf st)(key := u)\<rparr>"

text \<open>Responses without data, to one request and to each of a list.\<close>

definition respond :: "DistLib \<Rightarrow> KVMeta \<Rightarrow> bool \<Rightarrow> DistServer \<Rightarrow> DistServer res" where
  "respond L req is_global st = KVServer_Response (dl_kvs L) req empty_KVPairs is_global st"

fun respond_each :: "DistLib \<Rightarrow> (KVMeta \<Rightarrow> bool) \<Rightarrow> KVMeta list \<Rightarrow> DistServer \<Rightarrow> DistServer res" where
  "respond_each L g [] st = Inr st"
| "respond_each L g (req # reqs) st = rbind (respond L req (g req) st) (respond_each L g reqs)"

text \<open>The response of P3: the stored array under its key.\<close>

definition respond_stored :: "DistLib \<Rightarrow> int \<Rightarrow> nat option \<Rightarrow> KVMeta \<Rightarrow> DistServer \<Rightarrow> DistServer res" where
  "respond_stored L key stored req st =
     rbind (handle stored) (\<lambda>a. let bs = nd_bytes (cell st a) in
       KVServer_Response (dl_kvs L) req \<lparr>kv_keys = [word_of_int key], kv_vals = bs, kv_lens = [int (length bs)], kv_priority = 0\<rparr> False st)"

fun respond_stored_each :: "DistLib \<Rightarrow> int \<Rightarrow> nat option \<Rightarrow> KVMeta list \<Rightarrow> DistServer \<Rightarrow> DistServer res" where
  "respond_stored_each L key stored [] st = Inr st"
| "respond_stored_each L key stored (req # reqs) st =
     rbind (respond_stored L key stored req st) (respond_stored_each L key stored reqs)"

subsection \<open>Keys\<close>

definition DecodeKey :: "key \<Rightarrow> bool \<Rightarrow> DistServer \<Rightarrow> (int \<times> DistServer) res" where
  "DecodeKey k is_global st =
     (let (po, krs) = GetServerKeyRanges (pr_po (ks_proc st)) is_global; st1 = st\<lparr>ks_proc := (ks_proc st)\<lparr>pr_po := po\<rparr>\<rparr> in
      rbind (my_node is_global (pr_van (ks_proc st1))) (\<lambda>node.
        let rank = nat (IDtoRank (n_id node)) in
        defined (rank < length krs) ''krs[MyRank()]'' (Inr (int_of_key (k - range_begin (krs ! rank)), st1))))"

text \<open>The key of a request; P3 does not encode keys.\<close>

definition request_key :: "kvs \<Rightarrow> DistServer \<Rightarrow> (int \<times> DistServer) res" where
  "request_key req_data st =
     (if ks_enable_p3 st \<noteq> 0 then Inr (int_of_key (hd (kv_keys req_data)), st)
      else DecodeKey (hd (kv_keys req_data)) (is_global_server st) st)"

text \<open>Conversions to a 32 bit \<open>int\<close> and to \<open>size_t\<close>.\<close>

definition wrap32 :: "int \<Rightarrow> int" where
  "wrap32 x = sint (word_of_int x :: 32 word)"

definition size_t :: "int \<Rightarrow> nat" where
  "size_t x = nat (x mod 2 ^ 64)"

text \<open>The server a small array is sent to.\<close>

definition pick_server :: "int \<Rightarrow> nat \<Rightarrow> nat res" where
  "pick_server key n =
     defined (int32 (key * 9973)) ''key * 9973''
      (let r = cmod (key * 9973) (int n) in defined (0 \<le> r) ''krs[global_server]'' (Inr (nat r)))"

text \<open>The parts of a big array; \<open>bound i\<close> is where part \<open>i\<close> begins.\<close>

fun encode_parts :: "(nat \<Rightarrow> nat) \<Rightarrow> int \<Rightarrow> nat \<Rightarrow> nat \<Rightarrow> Range list \<Rightarrow> PSKV \<Rightarrow> PSKV res" where
  "encode_parts bound key num_bytes i [] pk = Inr pk"
| "encode_parts bound key num_bytes i (r # rs) pk =
     (let ps_key = range_begin r + word_of_int key;
          total_bytes = wrap32 ((int (bound (Suc i)) - int (bound i)) * int num_bytes) in
      chk (ps_key < range_end r) ''ps_key < krs[i].end()''
       (defined (int32 (pk_size pk + total_bytes)) ''pskv.size += total_bytes''
         (encode_parts bound key num_bytes (Suc i) rs
            \<lparr>pk_keys = pk_keys pk @ [ps_key], pk_lens = pk_lens pk @ [total_bytes], pk_size = pk_size pk + total_bytes\<rparr>)))"

definition EncodeDefaultKey :: "DistLib \<Rightarrow> int \<Rightarrow> nat \<Rightarrow> nat \<Rightarrow> DistServer \<Rightarrow> (PSKV \<times> DistServer) res" where
  "EncodeDefaultKey L key num_arr_elems num_bytes st =
     (let pskv = ds_ps_kv st key; pskv_size = int (num_arr_elems * num_bytes) in
      if pk_keys pskv \<noteq> [] then chk (pk_size pskv = pskv_size) ''The value size cannot be changed'' (Inr (pskv, st))
      else (let (po, krs) = GetServerKeyRanges (pr_po (ks_proc st)) True;
                st1 = st\<lparr>ks_proc := (ks_proc st)\<lparr>pr_po := po\<rparr>\<rparr> in
        chk (krs \<noteq> []) ''num_global_servers > 0''
         (rbind (if num_arr_elems < ds_bigarray_bound st
                 then rbind (pick_server key (length krs)) (\<lambda>g.
                   let ps_key = range_begin (krs ! g) + word_of_int key; total_bytes = wrap32 pskv_size in
                   chk (ps_key < range_end (krs ! g)) ''ps_key < krs[global_server].end()''
                    (Inr \<lparr>pk_keys = [ps_key], pk_lens = pk_lens pskv @ [total_bytes], pk_size = total_bytes\<rparr>))
                 else encode_parts (dl_part L num_arr_elems (length krs)) key num_bytes 0 krs (pskv\<lparr>pk_size := 0\<rparr>)) (\<lambda>pk.
          chk (pk_size pk = pskv_size) ''pskv.size == pskv_size''
            (Inr (pk, st1\<lparr>ds_ps_kv := (ds_ps_kv st1)(key := pk)\<rparr>))))))"

text \<open>
  The compressed parts. Each server gets a pair: a key that stands for the number of its elements,
  with no data, and the key of the data. The last part takes the rest.
\<close>

fun encode_compressed_parts ::
  "(nat \<Rightarrow> nat) \<Rightarrow> int res \<Rightarrow> int \<Rightarrow> nat \<Rightarrow> int \<Rightarrow> int \<Rightarrow> nat \<Rightarrow> Range list \<Rightarrow> PSKV \<Rightarrow> PSKV \<Rightarrow> (PSKV \<times> PSKV) res" where
  "encode_compressed_parts bound factor key num_bytes compr orig i [] push pull = Inr (push, pull)"
| "encode_compressed_parts bound factor key num_bytes compr orig i (r # rs) push pull =
     rbind (if rs = [] then Inr (compr - pk_size push, orig - pk_size pull)
            else (let part_compr = int (bound (Suc i)) - int (bound i) in rbind factor (\<lambda>f. Inr (part_compr, part_compr * f))))
      (\<lambda>(part_compr, part_orig).
       let ps_key_dummy = range_begin r + word_of_int part_orig; ps_key = range_begin r + word_of_int key in
       chk (ps_key_dummy < range_end r) ''ps_key_dummy < krs[i].end()''
        (chk (ps_key < range_end r) ''ps_key < krs[i].end()''
          (encode_compressed_parts bound factor key num_bytes compr orig (Suc i) rs
             \<lparr>pk_keys = pk_keys push @ [ps_key_dummy, ps_key], pk_lens = pk_lens push @ [0, wrap32 (part_compr * int num_bytes)],
               pk_size = wrap32 (pk_size push + part_compr)\<rparr>
             \<lparr>pk_keys = pk_keys pull @ [ps_key], pk_lens = pk_lens pull @ [wrap32 (part_orig * int num_bytes)],
               pk_size = wrap32 (pk_size pull + part_orig)\<rparr>)))"

text \<open>The numbers of elements pushed and pulled. Doubling a float is exact.\<close>

definition compressed_sizes :: "DistLib \<Rightarrow> nat \<Rightarrow> DistServer \<Rightarrow> (int \<times> int) res" where
  "compressed_sizes L n st =
     (let gc = ds_gc st in
      if gc_type gc = kTwoBit then rbind (GetCompressedSize gc (int n)) (\<lambda>c. Inr (c, int n))
      else if gc_type gc = kBiSparseCompression
        then (let c = f_scale (dl_fpu L) (int n) (gc_threshold gc) 2 in Inr (c, c * po_num_global_workers (pr_po (ks_proc st))))
      else Inr (0, 0))"

definition new_compressed_key ::
  "DistLib \<Rightarrow> int \<Rightarrow> nat \<Rightarrow> nat \<Rightarrow> int \<Rightarrow> int \<Rightarrow> Range list \<Rightarrow> DistServer \<Rightarrow> (PSKV \<times> PSKV) res" where
  "new_compressed_key L key n num_bytes compr compr_pull krs st =
     (let push = ds_compr_push st key; pull = ds_compr_pull st key in
      if gc_type (ds_gc st) = kBiSparseCompression \<or> n < ds_bigarray_bound st
      then rbind (pick_server key (length krs)) (\<lambda>g.
        let r = krs ! g; ps_key = range_begin r + word_of_int key;
            compr_size = wrap32 (compr * int num_bytes); pull_size = wrap32 (compr_pull * int num_bytes) in
        chk (ps_key < range_end r) ''ps_key < krs[global_server].end()''
         (Inr (\<lparr>pk_keys = pk_keys push @ [range_begin r + of_nat n, ps_key], pk_lens = pk_lens push @ [0, compr_size], pk_size = compr_size\<rparr>,
               \<lparr>pk_keys = pk_keys pull @ [ps_key], pk_lens = pk_lens pull @ [pull_size], pk_size = pull_size\<rparr>)))
      else rbind (encode_compressed_parts (dl_part L (nat compr) (length krs)) (GetCompressionFactor (ds_gc st)) key num_bytes
                    compr (int n) 0 krs (push\<lparr>pk_size := 0\<rparr>) (pull\<lparr>pk_size := 0\<rparr>)) (\<lambda>(push1, pull1).
        chk (pk_size push1 = compr) ''push_pskv.size == compr_num_elem'' (chk (pk_size pull1 = int n) ''pull_pskv.size == original_num_elem''
         (defined (int32 (pk_size push1 * int num_bytes) \<and> int32 (pk_size pull1 * int num_bytes)) ''size *= num_bytes''
           (chk (length (pk_lens push1) = length krs * 2) ''push_pskv.lens.size() == num_global_servers * 2''
             (Inr (push1\<lparr>pk_size := pk_size push1 * int num_bytes\<rparr>, pull1\<lparr>pk_size := pk_size pull1 * int num_bytes\<rparr>)))))))"

definition EncodeCompressedKey :: "DistLib \<Rightarrow> int \<Rightarrow> nat \<Rightarrow> bool \<Rightarrow> nat \<Rightarrow> DistServer \<Rightarrow> (PSKV \<times> DistServer) res" where
  "EncodeCompressedKey L key original_num_elem is_push num_bytes st =
     (let (po, krs) = GetServerKeyRanges (pr_po (ks_proc st)) True; st1 = st\<lparr>ks_proc := (ks_proc st)\<lparr>pr_po := po\<rparr>\<rparr> in
      chk (krs \<noteq> []) ''num_global_servers > 0''
       (rbind (compressed_sizes L original_num_elem st1) (\<lambda>(compr, compr_pull).
        let pskv = (if is_push then ds_compr_push st1 key else ds_compr_pull st1 key) in
        if pk_keys pskv \<noteq> []
        then chk (pk_size pskv = (if is_push then compr else compr_pull) * int num_bytes) ''The value size can't be changed'' (Inr (pskv, st1))
        else rbind (new_compressed_key L key original_num_elem num_bytes compr compr_pull krs st1) (\<lambda>(push, pull).
          Inr (if is_push then push else pull,
               st1\<lparr>ds_compr_push := (ds_compr_push st1)(key := push), ds_compr_pull := (ds_compr_pull st1)(key := pull)\<rparr>)))))"

subsection \<open>Compression of stored arrays\<close>

text \<open>Compressors read and write single precision only; a fixed-size buffer must hold what is written.\<close>

definition floats_at :: "nat \<Rightarrow> DistServer \<Rightarrow> f32 list res" where
  "floats_at a st = chk (nd_dtype (cell st a) = kFloat32) ''dptr<float>'' (Inr (floats_of (nd_bytes (cell st a))))"

definition write_floats :: "nat \<Rightarrow> f32 list \<Rightarrow> DistServer \<Rightarrow> DistServer res" where
  "write_floats a xs st =
     (let old = nd_bytes (cell st a); new = bytes_of_floats xs in
      chk (nd_dtype (cell st a) = kFloat32) ''dptr<float>''
       (defined (length new \<le> length old) ''out[i]'' (Inr (heap_write a (new @ drop (length new) old) st))))"

definition zeros :: "nat \<Rightarrow> DistServer \<Rightarrow> DistServer" where
  "zeros a st = heap_write a (replicate (length (nd_bytes (cell st a))) 0) st"

definition dequantize_into :: "DistLib \<Rightarrow> nat \<Rightarrow> nat \<Rightarrow> DistServer \<Rightarrow> DistServer res" where
  "dequantize_into L src dst st =
     rbind (Dequantize (dl_fpu L) (ds_gc st) (nd_bytes (cell st src)) (nd_size (cell st dst))) (\<lambda>xs. write_floats dst xs st)"

definition decompress_into :: "DistLib \<Rightarrow> nat \<Rightarrow> nat \<Rightarrow> DistServer \<Rightarrow> DistServer res" where
  "decompress_into L src dst st =
     rbind (floats_at src st) (\<lambda>zs.
     rbind (BSCDecompress (dl_fpu L) (ds_gc st) zs (nd_size (cell st dst))) (\<lambda>xs. write_floats dst xs st))"

subsection \<open>Pushing to the global servers\<close>

text \<open>The values of a push: the first \<open>n\<close> bytes of the array's memory.\<close>

definition memory :: "nat \<Rightarrow> nat \<Rightarrow> DistServer \<Rightarrow> bytes res" where
  "memory a n st = defined (n \<le> length (nd_bytes (cell st a))) ''stored.data()'' (Inr (take n (nd_bytes (cell st a))))"

definition push_pskv :: "DistLib \<Rightarrow> PSKV \<Rightarrow> bytes \<Rightarrow> int \<Rightarrow> int \<Rightarrow> DistServer \<Rightarrow> (DistServer \<times> int) res" where
  "push_pskv L pskv vals cmd uniq_key st =
     KVServer_Push (dl_kvs L) \<lparr>kv_keys = pk_keys pskv, kv_vals = vals, kv_lens = pk_lens pskv, kv_priority = 0\<rparr> cmd None uniq_key st"

text \<open>Uncompressed; also the branch of the bi-sparse push for small arrays.\<close>

definition push_uncompressed :: "DistLib \<Rightarrow> DataHandleType \<Rightarrow> int \<Rightarrow> nat \<Rightarrow> DistServer \<Rightarrow> (DistServer \<times> int) res" where
  "push_uncompressed L type key a st =
     rbind (mshadow_sizeof (dh_dtype type)) (\<lambda>num_bytes.
     let n = nd_size (cell st a) in
     rbind (EncodeDefaultKey L key n num_bytes st) (\<lambda>(pskv, st1).
     rbind (memory a (n * num_bytes) st1) (\<lambda>vals.
       push_pskv L pskv vals (GetCommandType kDefaultPushPull (dh_dtype type)) key st1)))"

definition DataPushToGlobalServersDefault :: "DistLib \<Rightarrow> DataHandleType \<Rightarrow> int \<Rightarrow> DistServer \<Rightarrow> (DistServer \<times> int) res" where
  "DataPushToGlobalServersDefault L type key st =
     chk (\<not> is_global_server st) ''Invalid push operation on global servers''
      (chk (gc_type (ds_gc st) = kNone) ''kNone''
        (rbind (handle (stored_ref (has_multi_precision_copy type st) key st)) (\<lambda>a. push_uncompressed L type key a st)))"

text \<open>The buffers of a compressed push, made on the first one.\<close>

definition two_bit_buffers :: "DistLib \<Rightarrow> int \<Rightarrow> nat \<Rightarrow> nat \<Rightarrow> int \<Rightarrow> DistServer \<Rightarrow> DistServer" where
  "two_bit_buffers L key sz n d st =
     (case ds_compr_buf st key of
        Some _ \<Rightarrow> st
      | None \<Rightarrow> (let (b, st1) = heap_new (dl_nd L) sz d st; (r, st2) = heap_new (dl_nd L) n d st1 in
          (zeros r st2)\<lparr>ds_compr_buf := (ds_compr_buf st)(key \<mapsto> b), ds_residual := (ds_residual st)(key \<mapsto> r)\<rparr>))"

definition bi_sparse_buffers :: "DistLib \<Rightarrow> int \<Rightarrow> nat \<Rightarrow> nat \<Rightarrow> DistServer \<Rightarrow> DistServer" where
  "bi_sparse_buffers L key zipped_size n st =
     (case ds_compr_buf st key of
        Some _ \<Rightarrow> st
      | None \<Rightarrow> (let (b, st1) = heap_new (dl_nd L) zipped_size kFloat32 st; (u, st2) = heap_new (dl_nd L) n kFloat32 st1;
            (v, st3) = heap_new (dl_nd L) n kFloat32 st2 in
          (zeros v (zeros u st3))\<lparr>ds_compr_buf := (ds_compr_buf st)(key \<mapsto> b), ds_velocity := (ds_velocity st)(key \<mapsto> u),
            ds_accumulated := (ds_accumulated st)(key \<mapsto> v)\<rparr>))"

text \<open>
  The destination has as many elements as the compressed data has bytes.
\<close>

definition DataPushToGlobalServersCompressed :: "DistLib \<Rightarrow> DataHandleType \<Rightarrow> int \<Rightarrow> DistServer \<Rightarrow> (DistServer \<times> int) res" where
  "DataPushToGlobalServersCompressed L type key st =
     chk (\<not> is_global_server st) ''Invalid push operation on global servers''
      (chk (gc_type (ds_gc st) = kTwoBit) ''kTwoBit''
       (chk (dh_dtype type = kFloat32) ''Gradient compression is only supported for float32''
        (rbind (handle (ds_store st key)) (\<lambda>a.
         let d = nd_dtype (cell st a); n = nd_size (cell st a) in
         rbind (mshadow_sizeof d) (\<lambda>num_bytes.
         rbind (EncodeCompressedKey L key n True num_bytes st) (\<lambda>(pskv, st1).
         let st2 = two_bit_buffers L key (nat (pk_size pskv)) n d st1 in
         rbind (handle (ds_compr_buf st2 key)) (\<lambda>b. rbind (handle (ds_residual st2 key)) (\<lambda>r.
         rbind (floats_at a st2) (\<lambda>grad. rbind (floats_at b st2) (\<lambda>_. rbind (floats_at r st2) (\<lambda>residual.
         rbind (Quantize (dl_fpu L) (ds_gc st2) (nd_size (cell st2 b)) grad residual) (\<lambda>(residual1, out).
         rbind (write_floats r residual1 st2) (\<lambda>st3.
           push_pskv L pskv out (GetCommandType kCompressedPushPull d) kEmpty (heap_write b out st3))))))))))))))"

definition DataPushToGlobalServersBSCompressed :: "DistLib \<Rightarrow> DataHandleType \<Rightarrow> int \<Rightarrow> DistServer \<Rightarrow> (DistServer \<times> int) res" where
  "DataPushToGlobalServersBSCompressed L type key st =
     chk (\<not> is_global_server st) ''Invalid push operation on global servers''
      (chk (gc_type (ds_gc st) = kBiSparseCompression) ''kBiSparseCompression''
       (rbind (handle (stored_ref (has_multi_precision_copy type st) key st)) (\<lambda>a.
        let n = nd_size (cell st a) in
        if n < ds_size_lower_bound st then push_uncompressed L type key a st
        else rbind (EncodeCompressedKey L key n True 4 st) (\<lambda>(pskv, st1).
          let zipped_size = f_scale (dl_fpu L) (int n) (gc_threshold (ds_gc st)) 2;
              st2 = bi_sparse_buffers L key (nat zipped_size) n st1 in
          rbind (handle (ds_compr_buf st2 key)) (\<lambda>b. rbind (handle (ds_velocity st2 key)) (\<lambda>u. rbind (handle (ds_accumulated st2 key)) (\<lambda>v.
          rbind (floats_at a st2) (\<lambda>grad. rbind (floats_at u st2) (\<lambda>us. rbind (floats_at v st2) (\<lambda>vs.
          rbind (BSCompress (dl_fpu L) (ds_gc st2) grad us vs) (\<lambda>(out, us1, vs1).
          rbind (write_floats b out st2) (\<lambda>st3. rbind (write_floats u us1 st3) (\<lambda>st4. rbind (write_floats v vs1 st4) (\<lambda>st5.
            push_pskv L pskv (nd_bytes (cell st5 b)) (GetCommandType kBSCompressedPushPull kFloat32) key st5))))))))))))))"

subsection \<open>Pulling from the global servers\<close>

definition map_keys :: "key list \<Rightarrow> int \<Rightarrow> (key \<Rightarrow> int) \<Rightarrow> (key \<Rightarrow> int)" where
  "map_keys ks key m = (\<lambda>k. if k \<in> set ks then key else m k)"

definition DataPullFromGlobalServersDefault :: "DistLib \<Rightarrow> DataHandleType \<Rightarrow> int \<Rightarrow> DistServer \<Rightarrow> DistServer res" where
  "DataPullFromGlobalServersDefault L type key st =
     chk (\<not> is_global_server st) ''Invalid pull operation on global servers''
      (let is_compressed = (gc_type (ds_gc st) = kTwoBit); is_bsc = (dh_requestType type = kBSCompressedPushPull);
           stored = (if is_compressed \<or> \<not> has_multi_precision_copy type st \<or> \<not> is_bsc then ds_store st key else ds_realt st key);
           n = arr_size st stored; d = dh_dtype type;
           cmd = GetCommandType (if is_compressed then kCompressedPushPull else if is_bsc then kBSCompressedPushPull else kDefaultPushPull) d in
       rbind (mshadow_sizeof d) (\<lambda>num_bytes.
       rbind (if is_compressed \<or> is_bsc then EncodeCompressedKey L key n False num_bytes st
              else EncodeDefaultKey L key n num_bytes st) (\<lambda>(pskv, st1).
       let st2 = st1\<lparr>ds_key_map := map_keys (pk_keys pskv) key (ds_key_map st1)\<rparr> in
       if ks_enable_inter_ts st2 = 0 \<or> \<not> ds_initialized st2 key
       then rbind (KVServer_Pull (dl_kvs L) (pk_keys pskv) cmd key st2) (\<lambda>(st3, _). Inr st3)
       else Inr st2)))"

text \<open>A timestamp that is not in the map reads as key 0.\<close>

definition DataHandlePushResponseDefault :: "DistLib \<Rightarrow> DataHandleType \<Rightarrow> KVMeta \<Rightarrow> DistServer \<Rightarrow> DistServer res" where
  "DataHandlePushResponseDefault L type req_meta st =
     chk (km_push req_meta) ''req_meta.push'' (chk (\<not> is_global_server st) ''Invalid push response on global servers''
       (let ts = km_timestamp req_meta in
        rbind (obj_NumResponse (ks_this st) ts (ks_proc st)) (\<lambda>num.
        if num \<noteq> po_num_global_servers (pr_po (ks_proc st)) - 1 then Inr st
        else DataPullFromGlobalServersDefault L type (ds_ts_key_map st ts) (st\<lparr>ds_ts_key_map := (ds_ts_key_map st)(ts := 0)\<rparr>))))"

text \<open>The sum becomes the stored array and, as the same array, the milestone.\<close>

definition HandleHFAAccumulate :: "DistLib \<Rightarrow> DataHandleType \<Rightarrow> bool \<Rightarrow> int \<Rightarrow> nat \<Rightarrow> DistServer \<Rightarrow> DistServer res" where
  "HandleHFAAccumulate L type mp key recved st =
     chk (ds_use_hfa st) ''Invalid operation, hfa is not enabled''
      (case ds_milestone st key of
         None \<Rightarrow> rbind (handle (stored_ref mp key st)) (\<lambda>a.
           let (m, st1) = heap_new (dl_nd L) (nd_size (cell st a)) (dh_dtype type) st in
           heap_run (CopyFromTo (dl_nd L) a m) (st1\<lparr>ds_milestone := (ds_milestone st1)(key \<mapsto> m)\<rparr>))
       | Some m \<Rightarrow> rbind (heap_get (nd_binop (nl_add (dl_nd L)) m recved) st) (\<lambda>(s, st1).
           Inr ((set_stored mp key s st1)\<lparr>ds_milestone := (ds_milestone st1)(key \<mapsto> s)\<rparr>)))"

definition DefaultAutoPull :: "DistLib \<Rightarrow> DataHandleType \<Rightarrow> int \<Rightarrow> int \<Rightarrow> KVMeta \<Rightarrow> kvs \<Rightarrow> bool \<Rightarrow> DistServer \<Rightarrow> DistServer res" where
  "DefaultAutoPull L type key version req_meta req_data inter_domain st =
     chk (dh_requestType type = kDefaultPushPull) ''kDefaultPushPull''
      (rbind (handle (ds_store st key)) (\<lambda>a.
       let bs = nd_bytes (cell st a) in
       rbind (KVServer_AutoPullUpdate (dl_kvs L) (ds_moves st) version req_meta
                \<lparr>kv_keys = kv_keys req_data, kv_vals = bs, kv_lens = [int (length bs)], kv_priority = 0\<rparr> inter_domain (-1) (-1) (-1) st)
         (\<lambda>(st1, ms). Inr (st1\<lparr>ds_moves := ms\<rparr>))))"

text \<open>What was pulled goes into the stored array, decompressed if it has to be.\<close>

definition store_pulled :: "DistLib \<Rightarrow> DataHandleType \<Rightarrow> bool \<Rightarrow> int \<Rightarrow> nat \<Rightarrow> DistServer \<Rightarrow> DistServer res" where
  "store_pulled L type mp key recved st =
     (let put = (\<lambda>src st. if ds_use_hfa st then HandleHFAAccumulate L type mp key src st
                   else rbind (handle (stored_ref mp key st)) (\<lambda>a. heap_run (CopyFromTo (dl_nd L) src a) st)) in
      if dh_requestType type = kDefaultPushPull \<or> dh_requestType type = kCompressedPushPull then put recved st
      else if dh_requestType type = kBSCompressedPushPull
        then (let (t, st1) = heap_new (dl_nd L) (arr_size st (stored_ref mp key st)) (dh_dtype type) st in
              rbind (decompress_into L recved t (zeros t st1)) (put t))
      else Inr st)"

text \<open>The copy of the declared type, of \<open>n\<close> elements, beside a multi-precision array.\<close>

definition dtype_copy :: "DistLib \<Rightarrow> DataHandleType \<Rightarrow> int \<Rightarrow> nat \<Rightarrow> DistServer \<Rightarrow> DistServer res" where
  "dtype_copy L type key n st =
     rbind (handle (ds_realt st key)) (\<lambda>a.
       let (c, st1) = heap_new (dl_nd L) n (dh_dtype type) st in
       heap_run (CopyFromTo (dl_nd L) a c) (set_store key c st1))"

definition pull_small :: "DistLib \<Rightarrow> DataHandleType \<Rightarrow> bool \<Rightarrow> int \<Rightarrow> nat \<Rightarrow> kvs \<Rightarrow> DistServer \<Rightarrow> DistServer res" where
  "pull_small L type mp key num_bytes req_data st =
     defined (kv_lens req_data \<noteq> []) ''req_data.lens[0]''
      (let n = size_t (hd (kv_lens req_data)) div num_bytes in
       rbind (heap_get (nd_wrap (dh_dtype type) n (kv_vals req_data)) st) (\<lambda>(recved, st1).
       rbind (store_pulled L type mp key recved st1) (\<lambda>st2. if mp then dtype_copy L type key n st2 else Inr st2)))"

definition receive_buffer :: "DistLib \<Rightarrow> int \<Rightarrow> nat \<Rightarrow> int \<Rightarrow> DistServer \<Rightarrow> nat \<times> DistServer" where
  "receive_buffer L key n d st =
     (case ds_comm_buf st key of
        Some b \<Rightarrow> (b, st)
      | None \<Rightarrow> (let (b, st1) = heap_new (dl_nd L) n d st in (b, st1\<lparr>ds_comm_buf := (ds_comm_buf st1)(key \<mapsto> b)\<rparr>)))"

text \<open>
  The parts in the order of their keys, side by side in the receive buffer. The lengths of the
  parts overwrite those of the cached keys.
\<close>

definition pull_large :: "DistLib \<Rightarrow> DataHandleType \<Rightarrow> bool \<Rightarrow> int \<Rightarrow> nat \<Rightarrow> kvs list \<Rightarrow> DistServer \<Rightarrow> DistServer res" where
  "pull_large L type mp key num_bytes kvs st =
     (let compressed = (dh_requestType type = kCompressedPushPull \<or> dh_requestType type = kBSCompressedPushPull);
          n = arr_size st (stored_ref mp key st) in
      rbind (if compressed then EncodeCompressedKey L key n False num_bytes st else EncodeDefaultKey L key n num_bytes st) (\<lambda>(pskv, st1).
      let (b, st2) = receive_buffer L key n (dh_dtype type) st1; buf = nd_bytes (cell st2 b) in
      rbind (pull_totals (pk_keys pskv) True kvs) (\<lambda>(total_key, total_val).
      chk (total_key = length (pk_keys pskv)) ''Lost some servers?''
       (chk (n * num_bytes = 0 \<or> dh_requestType type = kBSCompressedPushPull \<or> n * num_bytes = total_val) ''vals->size() == total_val''
        (rbind (sized 0 (length (pk_keys pskv)) (pk_lens pskv)) (\<lambda>lens.
         rbind (fill_loop (dl_sort L kvs) 0 0 (if n * num_bytes = 0 then replicate total_val 0 else buf) (Some lens)) (\<lambda>(buf1, lens1).
         let pskv1 = pskv\<lparr>pk_lens := (case lens1 of None \<Rightarrow> [] | Some ls \<Rightarrow> ls)\<rparr>;
             st3 = (if compressed then st2\<lparr>ds_compr_pull := (ds_compr_pull st2)(key := pskv1)\<rparr>
                    else st2\<lparr>ds_ps_kv := (ds_ps_kv st2)(key := pskv1)\<rparr>);
             st4 = (if n * num_bytes = 0 then st3 else heap_write b buf1 st3) in
         rbind (store_pulled L type mp key b st4) (\<lambda>st5. if mp then dtype_copy L type key (arr_size st5 (stored_ref mp key st5)) st5 else Inr st5))))))))"

text \<open>After the data: the first pull opens the key, any later one answers the waiting workers.\<close>

definition pull_finish :: "DistLib \<Rightarrow> DataHandleType \<Rightarrow> bool \<Rightarrow> int \<Rightarrow> KVMeta \<Rightarrow> kvs \<Rightarrow> DistServer \<Rightarrow> DistServer res" where
  "pull_finish L type mp key req_meta req_data st =
     (let tmp = ds_update_tmp st key; clear = (\<lambda>st. st\<lparr>ds_update_tmp := (ds_update_tmp st)(key := (ds_update_tmp st key)\<lparr>ub_request := []\<rparr>)\<rparr>) in
      if \<not> ds_initialized st key
      then (let st1 = st\<lparr>ds_initialized := (ds_initialized st)(key := True)\<rparr> in
            if ks_enable_intra_ts st \<noteq> 0 then DefaultAutoPull L type key (ds_store_v st key) req_meta req_data False st1 else Inr st1)
      else if ks_enable_intra_ts st \<noteq> 0
      then defined (ub_request tmp \<noteq> []) ''updates_tmp.request[0]''
        (rbind (DefaultAutoPull L type key (ds_store_v st key) (hd (ub_request tmp)) req_data False st) (\<lambda>st1. Inr (clear st1)))
      else rbind (if ks_enable_p3 st = 0 then respond_each L (\<lambda>_. False) (ub_request tmp) st
                  else respond_stored_each L key (stored_ref mp key st) (ub_request tmp) st) (\<lambda>st1. Inr (clear st1)))"

definition DataHandlePullResponseDefault :: "DistLib \<Rightarrow> DataHandleType \<Rightarrow> KVMeta \<Rightarrow> kvs \<Rightarrow> DistServer \<Rightarrow> DistServer res" where
  "DataHandlePullResponseDefault L type req_meta req_data st =
     chk (\<not> is_global_server st) ''Invalid pull operation on global servers''
      (chk (dh_requestType type = kCompressedPushPull \<longrightarrow> dh_dtype type = kFloat32) ''fp32 only''
       (defined (kv_keys req_data \<noteq> []) ''req_data.keys[0]''
        (let key = ds_key_map st (hd (kv_keys req_data)); kvs = ds_recv_kvs st key @ [req_data];
             st1 = st\<lparr>ds_recv_kvs := (ds_recv_kvs st)(key := kvs)\<rparr>;
             mp = (dh_requestType type \<noteq> kCompressedPushPull \<and> has_multi_precision_copy type st);
             n = arr_size st (stored_ref mp key st) in
         rbind (mshadow_sizeof (dh_dtype type)) (\<lambda>num_bytes.
         if ds_bigarray_bound st \<le> n \<and> int (length kvs) \<noteq> po_num_global_servers (pr_po (ks_proc st)) then Inr st1
         else rbind (if n < ds_bigarray_bound st then pull_small L type mp key num_bytes req_data st1
                     else pull_large L type mp key num_bytes kvs st1) (\<lambda>st2.
           pull_finish L type mp key req_meta req_data (st2\<lparr>ds_recv_kvs := (ds_recv_kvs st2)(key := [])\<rparr>))))))"

subsection \<open>Answering pulls\<close>

definition DefaultStorageResponse :: "DistLib \<Rightarrow> DataHandleType \<Rightarrow> int \<Rightarrow> KVMeta \<Rightarrow> kvs \<Rightarrow> DistServer \<Rightarrow> DistServer res" where
  "DefaultStorageResponse L type key req_meta req_data st =
     rbind (handle (ds_store st key)) (\<lambda>a.
     let is_global = (km_sender req_meta < kOffset); n = nd_size (cell st a);
         answer = (\<lambda>vals. KVServer_Response (dl_kvs L) req_meta
           \<lparr>kv_keys = kv_keys req_data, kv_vals = vals, kv_lens = [int (length vals)], kv_priority = 0\<rparr> is_global) in
     if dh_requestType type = kDefaultPushPull \<or> dh_requestType type = kCompressedPushPull
     then rbind (mshadow_sizeof (dh_dtype type)) (\<lambda>num_bytes.
       rbind (memory a (n * num_bytes) st) (\<lambda>vals. answer vals st))
     else if dh_requestType type = kBSCompressedPushPull
     then (let workers = po_num_global_workers (pr_po (ks_proc st));
               zipped_size = f_scale (dl_fpu L) (int n) (gc_threshold (ds_gc st)) (workers * 2);
               (b, st1) = heap_new (dl_nd L) (nat zipped_size) (dh_dtype type) st;
               (c, st2) = heap_new (dl_nd L) n (dh_dtype type) st1 in
       rbind (mshadow_sizeof (dh_dtype type)) (\<lambda>num_bytes.
       rbind (heap_run (CopyFromTo (dl_nd L) a c) (zeros b st2)) (\<lambda>st3.
       rbind (floats_at c st3) (\<lambda>xs.
       rbind (BSCPullCompress (dl_fpu L) (ds_gc st3) xs workers) (\<lambda>out.
       rbind (write_floats b out st3) (\<lambda>st4.
       rbind (memory b (nat zipped_size * num_bytes) st4) (\<lambda>vals. answer vals st4)))))))
     else Inl (Fatal ''Unsupported RequestType''))"

text \<open>The handler waits until the key is initialised; nothing wakes it in the model of one handler.\<close>

definition answer_pull :: "DistLib \<Rightarrow> DataHandleType \<Rightarrow> KVMeta \<Rightarrow> kvs \<Rightarrow> int \<times> DistServer \<Rightarrow> DistServer res" where
  "answer_pull L type req_meta req_data = (\<lambda>(key, st).
     if ds_initialized st key then DefaultStorageResponse L type key req_meta req_data st
     else Inl (Blocked ''initialized_[key]''))"

definition DataHandlePullDefault :: "DistLib \<Rightarrow> DataHandleType \<Rightarrow> KVMeta \<Rightarrow> kvs \<Rightarrow> DistServer \<Rightarrow> DistServer res" where
  "DataHandlePullDefault L type req_meta req_data st =
     chk (\<not> km_push req_meta) ''!req_meta.push'' (chk (length (kv_keys req_data) = 1) ''req_data.keys.size() == 1''
       (let request = (cmod (km_sender req_meta) 2 = 1) in
        if km_sender req_meta \<le> 100 \<and> ks_enable_inter_ts st \<noteq> 0
        then (if request \<and> is_global_server st
              then rbind (DecodeKey (hd (kv_keys req_data)) (is_global_server st) st) (answer_pull L type req_meta req_data)
              else DataHandlePullResponseDefault L type req_meta req_data st)
        else if request then rbind (request_key req_data st) (answer_pull L type req_meta req_data)
        else DataHandlePullResponseDefault L type req_meta req_data st))"

subsection \<open>Aggregating pushes\<close>

text \<open>\<open>exec_.Exec\<close>.\<close>

definition Exec :: "(DistServer \<Rightarrow> DistServer res) \<Rightarrow> DistServer \<Rightarrow> DistServer res" where
  "Exec f st = (if ds_stopped st then Inl (Blocked ''fut.wait()'') else f st)"

definition run_updater ::
  "(int \<Rightarrow> NDArray \<Rightarrow> NDArray \<Rightarrow> nat \<Rightarrow> bytes \<times> nat) \<Rightarrow> int \<Rightarrow> nat \<Rightarrow> nat \<Rightarrow> DistServer \<Rightarrow> DistServer res" where
  "run_updater updater key update stored =
     Exec (\<lambda>st. let (bs, o') = updater key (cell st update) (cell st stored) (ds_optimizer st) in
       Inr ((heap_write stored bs st)\<lparr>ds_optimizer := o'\<rparr>))"

definition ApplyUpdates ::
  "DistLib \<Rightarrow> DataHandleType \<Rightarrow> int \<Rightarrow> bool \<Rightarrow> bool \<Rightarrow> KVMeta \<Rightarrow> kvs \<Rightarrow> DistServer \<Rightarrow> DistServer res" where
  "ApplyUpdates L type key sync_mode enable_ts req_meta req_data st =
     (let mp = has_multi_precision_copy type st; u = ds_update_buf st key in
      rbind (handle (stored_ref mp key st)) (\<lambda>stored.
      rbind (case (dl_updater L, is_global_server st) of
               (Some updater, True) \<Rightarrow> rbind (handle (if sync_mode then ub_merged u else ub_temp u)) (\<lambda>update. run_updater updater key update stored st)
             | _ \<Rightarrow> chk sync_mode ''sync_mode''
                 (rbind (handle (ub_merged u)) (\<lambda>merged. heap_run (CopyFromTo (dl_nd L) merged stored) st))) (\<lambda>st1.
      rbind (if mp then rbind (handle (ds_store st1 key)) (\<lambda>c. heap_run (CopyFromTo (dl_nd L) stored c) st1) else Inr st1) (\<lambda>st2.
      if enable_ts then DefaultAutoPull L type key (ds_store_v st2 key) req_meta req_data True st2 else Inr st2))))"

text \<open>The pieces the push handlers share.\<close>

definition new_dtype :: "bool \<Rightarrow> DataHandleType \<Rightarrow> int" where
  "new_dtype mp type = (if mp then kFloat32 else dh_dtype type)"

definition init_stored :: "DistLib \<Rightarrow> DataHandleType \<Rightarrow> bool \<Rightarrow> int \<Rightarrow> nat \<Rightarrow> nat \<Rightarrow> DistServer \<Rightarrow> DistServer res" where
  "init_stored L type mp key n recved st =
     (let (a, st1) = heap_new (dl_nd L) n (new_dtype mp type) st in
      rbind (heap_run (CopyFromTo (dl_nd L) recved a) (set_stored mp key a st1)) (\<lambda>st2.
        if mp then dtype_copy L type key n st2 else Inr st2))"

definition ensure_merged :: "DistLib \<Rightarrow> nat \<Rightarrow> int \<Rightarrow> int \<Rightarrow> DistServer \<Rightarrow> DistServer" where
  "ensure_merged L n d key st =
     (case ub_merged (ds_update_buf st key) of
        Some _ \<Rightarrow> st
      | None \<Rightarrow> (let (a, st1) = heap_new (dl_nd L) n d st in set_updates key ((ds_update_buf st1 key)\<lparr>ub_merged := Some a\<rparr>) st1))"

definition ensure_temp :: "DistLib \<Rightarrow> nat \<Rightarrow> int \<Rightarrow> int \<Rightarrow> DistServer \<Rightarrow> DistServer" where
  "ensure_temp L n d key st =
     (case ub_temp (ds_update_buf st key) of
        Some _ \<Rightarrow> st
      | None \<Rightarrow> (let (a, st1) = heap_new (dl_nd L) n d st in set_updates key ((ds_update_buf st1 key)\<lparr>ub_temp := Some a\<rparr>) st1))"

definition prepare_updates :: "DistLib \<Rightarrow> DataHandleType \<Rightarrow> bool \<Rightarrow> int \<Rightarrow> nat \<Rightarrow> DistServer \<Rightarrow> DistServer" where
  "prepare_updates L type mp key n st =
     (let st1 = ensure_merged L n (new_dtype mp type) key st in if mp then ensure_temp L n kFloat32 key st1 else st1)"

text \<open>The first push of a round is copied, any later one added.\<close>

definition accumulate :: "DistLib \<Rightarrow> bool \<Rightarrow> int \<Rightarrow> nat \<Rightarrow> DistServer \<Rightarrow> DistServer res" where
  "accumulate L mp key recved st =
     (let u = ds_update_buf st key in
      rbind (handle (ub_merged u)) (\<lambda>merged.
      if ub_request u = [] then heap_run (CopyFromTo (dl_nd L) recved merged) st
      else if mp then rbind (handle (ub_temp u)) (\<lambda>temp.
        rbind (heap_run (CopyFromTo (dl_nd L) recved temp) st) (heap_run (nd_iadd (dl_nd L) merged temp)))
      else heap_run (nd_iadd (dl_nd L) merged recved) st))"

definition add_requests :: "int \<Rightarrow> KVMeta list \<Rightarrow> DistServer \<Rightarrow> DistServer" where
  "add_requests key reqs st = (let u = ds_update_buf st key in set_updates key (u\<lparr>ub_request := ub_request u @ reqs\<rparr>) st)"

definition clear_requests :: "int \<Rightarrow> DistServer \<Rightarrow> DistServer" where
  "clear_requests key st = set_updates key ((ds_update_buf st key)\<lparr>ub_request := []\<rparr>) st"

text \<open>The pushes a global round waits for.\<close>

definition global_quota :: "DistServer \<Rightarrow> nat" where
  "global_quota st = (let po = pr_po (ks_proc st) in
     (if po_enable_central_workers po then nat (po_num_workers po) else 0) + nat (po_num_global_workers po))"

definition finish_global :: "DistLib \<Rightarrow> DataHandleType \<Rightarrow> int \<Rightarrow> bool \<Rightarrow> KVMeta \<Rightarrow> kvs \<Rightarrow> DistServer \<Rightarrow> DistServer res" where
  "finish_global L type key enable_ts req_meta req_data st =
     (if length (ub_request (ds_update_buf st key)) = global_quota st
      then rbind (ApplyUpdates L type key True enable_ts req_meta req_data st) (\<lambda>st1.
        rbind (respond_each L (\<lambda>req. km_sender req < kOffset) (ub_request (ds_update_buf st1 key)) st1) (\<lambda>st2.
          Inr (clear_requests key st2)))
      else Inr st)"

definition from_central :: "KVMeta \<Rightarrow> bool" where
  "from_central req_meta \<longleftrightarrow> kOffset < km_sender req_meta"

definition ignored :: "KVMeta \<Rightarrow> DistServer \<Rightarrow> bool" where
  "ignored req_meta st \<longleftrightarrow> from_central req_meta \<and> \<not> po_enable_central_workers (pr_po (ks_proc st))"

subsection \<open>Synchronous pushes\<close>

definition push_to_global :: "DistLib \<Rightarrow> DataHandleType \<Rightarrow> int \<Rightarrow> DistServer \<Rightarrow> (DistServer \<times> int) res" where
  "push_to_global L type key st =
     (case gc_type (ds_gc st) of
        kNone \<Rightarrow> DataPushToGlobalServersDefault L type key st
      | kTwoBit \<Rightarrow> DataPushToGlobalServersCompressed L type key st
      | kBiSparseCompression \<Rightarrow> DataPushToGlobalServersBSCompressed L type key st
      | OtherCompression i \<Rightarrow> Inl (Undefined ''ts''))"

text \<open>With HFA, what is pushed is the mean difference to the milestone.\<close>

definition hfa_difference :: "DistLib \<Rightarrow> bool \<Rightarrow> int \<Rightarrow> DistServer \<Rightarrow> DistServer res" where
  "hfa_difference L mp key st =
     (case ds_milestone st key of
        None \<Rightarrow> Inl (Check ''init stored_milestone first!'')
      | Some m \<Rightarrow> rbind (handle (stored_ref mp key st)) (\<lambda>a.
          rbind (heap_get (nd_binop (nl_sub (dl_nd L)) a m) st) (\<lambda>(d, st1).
          let (q, h) = nd_scale (dl_nd L) d (po_num_global_workers (pr_po (ks_proc st1))) (ds_heap st1) in
          Inr (set_stored mp key q (st1\<lparr>ds_heap := h\<rparr>)))))"

text \<open>A local round: the workers' requests wait in the second buffer while the sum is pushed.\<close>

definition forward_round :: "DistLib \<Rightarrow> DataHandleType \<Rightarrow> bool \<Rightarrow> int \<Rightarrow> DistServer \<Rightarrow> DistServer res" where
  "forward_round L type mp key st =
     rbind (if ds_use_hfa st then hfa_difference L mp key st else Inr st) (\<lambda>st1.
     let reqs = ub_request (ds_update_buf st1 key);
         st2 = clear_requests key (st1\<lparr>ds_update_tmp := (ds_update_tmp st1)(key := (ds_update_tmp st1 key)\<lparr>ub_request := reqs\<rparr>)\<rparr>) in
     rbind (if ks_enable_intra_ts st2 \<noteq> 0 then respond_each L (\<lambda>_. False) reqs st2 else Inr st2) (\<lambda>st3.
     rbind (push_to_global L type key st3) (\<lambda>(st4, ts).
       Inr (st4\<lparr>ds_ts_key_map := (ds_ts_key_map st4)(ts := key)\<rparr>))))"

definition finish_local :: "DistLib \<Rightarrow> DataHandleType \<Rightarrow> bool \<Rightarrow> int \<Rightarrow> DistServer \<Rightarrow> DistServer res" where
  "finish_local L type mp key st =
     (if length (ub_request (ds_update_buf st key)) = nat (po_num_workers (pr_po (ks_proc st)))
      then rbind (ApplyUpdates L type key True False empty_KVMeta empty_KVPairs st) (\<lambda>st1.
        let st2 = (if key = 0 then st1\<lparr>ds_local_iters := ds_local_iters st1 + 1\<rparr> else st1) in
        defined (ds_period_k2 st2 \<noteq> 0) ''local_iters % period_k2''
         (if ds_local_iters st2 mod ds_period_k2 st2 \<noteq> 0 \<and> ds_use_hfa st2
          then rbind (respond_each L (\<lambda>_. False) (ub_request (ds_update_buf st2 key)) st2) (\<lambda>st3. Inr (clear_requests key st3))
          else forward_round L type mp key st2))
      else Inr st)"

definition DataHandleSyncDefault :: "DistLib \<Rightarrow> DataHandleType \<Rightarrow> KVMeta \<Rightarrow> kvs \<Rightarrow> DistServer \<Rightarrow> DistServer res" where
  "DataHandleSyncDefault L type req_meta req_data st =
     chk (km_push req_meta) ''req_meta.push'' (chk (length (kv_keys req_data) = 1) ''keys.size() == 1''
      (chk (length (kv_lens req_data) = 1) ''lens.size() == 1'' (chk (int (length (kv_vals req_data)) = hd (kv_lens req_data)) ''vals.size() == lens[0]''
       (chk (is_global_server st \<longrightarrow> ds_sync_global_mode st) ''sync_global_mode_''
        (rbind (request_key req_data st) (\<lambda>(key, st1).
         let mp = has_multi_precision_copy type st1 in
         rbind (mshadow_sizeof (dh_dtype type)) (\<lambda>num_bytes.
         let n = length (kv_vals req_data) div num_bytes in
         rbind (heap_get (nd_wrap (dh_dtype type) n (kv_vals req_data)) st1) (\<lambda>(recved, st2).
         if stored_ref mp key st2 = None
         then rbind (init_stored L type mp key n recved st2) (\<lambda>st3.
           if is_global_server st3
           then rbind (respond L req_meta False st3) (\<lambda>st4. Inr (st4\<lparr>ds_initialized := (ds_initialized st4)(key := True)\<rparr>))
           else rbind (if ks_enable_p3 st3 = 0 then respond L req_meta False st3
                       else respond_stored L key (stored_ref mp key st3) req_meta st3)
                  (DataPullFromGlobalServersDefault L type key))
         else chk (ds_sync_mode st2) ''sync_mode_''
          (if is_global_server st2 \<and> ignored req_meta st2 then Inr st2
           else rbind (accumulate L mp key recved (prepare_updates L type mp key n st2)) (\<lambda>st3.
             let st4 = add_requests key (replicate (nat (km_num_merge req_meta)) req_meta) st3 in
             if is_global_server st4 then finish_global L type key (ks_enable_inter_ts st4 \<noteq> 0) req_meta req_data st4
             else finish_local L type mp key st4))))))))))"

text \<open>
  The checks and the two keys of a compressed push. The buffer for later pushes is a copy of a map
  entry that is never set, so it is new each time.
\<close>

definition compressed_keys :: "kvs \<Rightarrow> DistServer \<Rightarrow> (int \<times> int \<times> DistServer) res" where
  "compressed_keys req_data st =
     chk (length (kv_keys req_data) = 2) ''keys.size() == 2'' (chk (length (kv_lens req_data) = 2) ''lens.size() == 2''
      (chk (int (length (kv_vals req_data)) = kv_lens req_data ! 1) ''vals.size() == lens[1]''
       (rbind (DecodeKey (kv_keys req_data ! 0) True st) (\<lambda>(original_size, st1).
        rbind (DecodeKey (kv_keys req_data ! 1) True st1) (\<lambda>(key, st2). Inr (original_size, key, st2))))))"

definition init_dequantized :: "DistLib \<Rightarrow> int \<Rightarrow> nat \<Rightarrow> nat \<Rightarrow> KVMeta \<Rightarrow> DistServer \<Rightarrow> DistServer res" where
  "init_dequantized L key n recved req_meta st =
     (let (a, st1) = heap_new (dl_nd L) n kFloat32 st in
      rbind (dequantize_into L recved a (set_store key a st1)) (\<lambda>st2.
      rbind (respond L req_meta False st2) (\<lambda>st3.
        Inr (if is_global_server st3 then st3\<lparr>ds_initialized := (ds_initialized st3)(key := True)\<rparr> else st3))))"

definition accumulate_dequantized :: "DistLib \<Rightarrow> int \<Rightarrow> nat \<Rightarrow> nat \<Rightarrow> DistServer \<Rightarrow> DistServer res" where
  "accumulate_dequantized L key recved decomp_buf st =
     (let u = ds_update_buf st key in
      rbind (handle (ub_merged u)) (\<lambda>merged.
      if ub_request u = [] then dequantize_into L recved merged st
      else rbind (dequantize_into L recved decomp_buf st) (heap_run (nd_iadd (dl_nd L) merged decomp_buf))))"

definition DataHandleSyncCompressed :: "DistLib \<Rightarrow> DataHandleType \<Rightarrow> KVMeta \<Rightarrow> kvs \<Rightarrow> DistServer \<Rightarrow> DistServer res" where
  "DataHandleSyncCompressed L type req_meta req_data st =
     chk (is_global_server st) ''IsGlobalServer()'' (chk (km_push req_meta) ''req_meta.push'' (chk (ds_sync_global_mode st) ''sync_global_mode_''
      (chk (dh_dtype type = kFloat32) ''fp32 only''
       (rbind (compressed_keys req_data st) (\<lambda>(original_size, key, st1).
        let n = nat original_size in
        rbind (heap_get (nd_wrap kFloat32 (length (kv_vals req_data) div 4) (kv_vals req_data)) st1) (\<lambda>(recved, st2).
        let (decomp_buf, st3) = heap_new (dl_nd L) n kFloat32 st2 in
        if ds_store st3 key = None then init_dequantized L key n recved req_meta st3
        else if ignored req_meta st3 then Inr st3
        else rbind (accumulate_dequantized L key recved decomp_buf (ensure_merged L n kFloat32 key st3)) (\<lambda>st4.
          finish_global L type key False empty_KVMeta empty_KVPairs (add_requests key [req_meta] st4))))))))"

definition DataHandleSyncBSCompressed :: "DistLib \<Rightarrow> DataHandleType \<Rightarrow> KVMeta \<Rightarrow> kvs \<Rightarrow> DistServer \<Rightarrow> DistServer res" where
  "DataHandleSyncBSCompressed L type req_meta req_data st =
     chk (is_global_server st) ''IsGlobalServer()'' (chk (km_push req_meta) ''req_meta.push'' (chk (ds_sync_global_mode st) ''sync_global_mode_''
      (rbind (compressed_keys req_data st) (\<lambda>(original_size, key, st1).
       let mp = has_multi_precision_copy type st1; n = nat original_size; d = new_dtype mp type in
       chk (stored_ref mp key st1 \<noteq> None) ''init key first''
        (rbind (mshadow_sizeof (dh_dtype type)) (\<lambda>num_bytes.
         rbind (heap_get (nd_wrap (dh_dtype type) (length (kv_vals req_data) div num_bytes) (kv_vals req_data)) st1) (\<lambda>(recved, st2).
         if ignored req_meta st2 then Inr st2
         else (let st3 = ensure_temp L n d key (ensure_merged L n d key st2); u = ds_update_buf st3 key in
           rbind (handle (ub_merged u)) (\<lambda>merged. rbind (handle (ub_temp u)) (\<lambda>temp.
           rbind (if ub_request u = [] then decompress_into L recved merged st3
                  else rbind (decompress_into L recved temp st3) (heap_run (nd_iadd (dl_nd L) merged temp))) (\<lambda>st4.
             finish_global L type key False empty_KVMeta empty_KVPairs (add_requests key [req_meta] st4))))))))))))"

subsection \<open>Asynchronous pushes\<close>

text \<open>A round of the central party's workers, which are summed also in asynchronous mode.\<close>

fun respond_central :: "DistLib \<Rightarrow> KVMeta list \<Rightarrow> DistServer \<Rightarrow> DistServer res" where
  "respond_central L [] st = Inr st"
| "respond_central L (req # reqs) st =
     chk (from_central req) ''req.sender > kOffset'' (rbind (respond L req False st) (respond_central L reqs))"

definition finish_central :: "DistLib \<Rightarrow> DataHandleType \<Rightarrow> int \<Rightarrow> DistServer \<Rightarrow> DistServer res" where
  "finish_central L type key st =
     (if length (ub_request (ds_update_buf st key)) = nat (po_num_workers (pr_po (ks_proc st)))
      then rbind (ApplyUpdates L type key True False empty_KVMeta empty_KVPairs st) (\<lambda>st1.
        rbind (respond_central L (ub_request (ds_update_buf st1 key)) st1) (\<lambda>st2. Inr (clear_requests key st2)))
      else Inr st)"

definition DataHandleAsyncDefault :: "DistLib \<Rightarrow> DataHandleType \<Rightarrow> KVMeta \<Rightarrow> kvs \<Rightarrow> DistServer \<Rightarrow> DistServer res" where
  "DataHandleAsyncDefault L type req_meta req_data st =
     chk (km_push req_meta) ''req_meta.push'' (chk (length (kv_keys req_data) = 1) ''keys.size() == 1''
      (chk (length (kv_lens req_data) = 1) ''lens.size() == 1'' (chk (int (length (kv_vals req_data)) = hd (kv_lens req_data)) ''vals.size() == lens[0]''
       (chk (is_global_server st \<and> \<not> ds_sync_global_mode st) ''!sync_global_mode_''
        (rbind (DecodeKey (hd (kv_keys req_data)) True st) (\<lambda>(key, st1).
         let mp = has_multi_precision_copy type st1 in
         rbind (mshadow_sizeof (dh_dtype type)) (\<lambda>num_bytes.
         let n = length (kv_vals req_data) div num_bytes in
         rbind (heap_get (nd_wrap (dh_dtype type) n (kv_vals req_data)) st1) (\<lambda>(recved, st2).
         if stored_ref mp key st2 = None
         then rbind (init_stored L type mp key n recved st2) (\<lambda>st3.
           rbind (respond L req_meta False st3) (\<lambda>st4. Inr (st4\<lparr>ds_initialized := (ds_initialized st4)(key := True)\<rparr>)))
         else if ignored req_meta st2 then Inr st2
         else (let st3 = prepare_updates L type mp key n st2 in
           if from_central req_meta
           then rbind (accumulate L mp key recved st3) (\<lambda>st4. finish_central L type key (add_requests key [req_meta] st4))
           else rbind (if mp then rbind (handle (ub_temp (ds_update_buf st3 key))) (\<lambda>temp. heap_run (CopyFromTo (dl_nd L) recved temp) st3)
                       else Inr (set_updates key ((ds_update_buf st3 key)\<lparr>ub_temp := Some recved\<rparr>) st3)) (\<lambda>st4.
             rbind (ApplyUpdates L type key False False empty_KVMeta empty_KVPairs st4) (respond L req_meta True)))))))))))"

definition DataHandleAsyncCompressed :: "DistLib \<Rightarrow> DataHandleType \<Rightarrow> KVMeta \<Rightarrow> kvs \<Rightarrow> DistServer \<Rightarrow> DistServer res" where
  "DataHandleAsyncCompressed L type req_meta req_data st =
     chk (km_push req_meta) ''req_meta.push'' (chk (is_global_server st \<and> \<not> ds_sync_global_mode st) ''!sync_global_mode_''
      (chk (dh_dtype type = kFloat32) ''fp32 only''
       (rbind (compressed_keys req_data st) (\<lambda>(original_size, key, st1).
        let n = nat original_size in
        rbind (heap_get (nd_wrap kFloat32 (length (kv_vals req_data) div 4) (kv_vals req_data)) st1) (\<lambda>(recved, st2).
        let (decomp_buf, st3) = heap_new (dl_nd L) n kFloat32 st2 in
        if ds_store st3 key = None then init_dequantized L key n recved req_meta st3
        else if ignored req_meta st3 then Inr st3
        else (let st4 = ensure_merged L n kFloat32 key st3 in
          if from_central req_meta
          then rbind (accumulate_dequantized L key recved decomp_buf st4) (\<lambda>st5.
            finish_central L type key (add_requests key [req_meta] st5))
          else rbind (dequantize_into L recved decomp_buf st4) (\<lambda>st5.
            rbind (handle (ds_store st5 key)) (\<lambda>stored.
            rbind (case dl_updater L of None \<Rightarrow> Inl (Check ''updater_'') | Some updater \<Rightarrow> run_updater updater key decomp_buf stored st5)
              (respond L req_meta True)))))))))"

text \<open>Not implemented in the code: no effect and no response.\<close>

definition DataHandleAsyncBSCompressed :: "DistLib \<Rightarrow> DataHandleType \<Rightarrow> KVMeta \<Rightarrow> kvs \<Rightarrow> DistServer \<Rightarrow> DistServer res" where
  "DataHandleAsyncBSCompressed L type req_meta req_data st = Inr st"

subsection \<open>Requests\<close>

definition DataHandleEx :: "DistLib \<Rightarrow> KVMeta \<Rightarrow> kvs \<Rightarrow> DistServer \<Rightarrow> DistServer res" where
  "DataHandleEx L req_meta req_data st =
     rbind (DepairDataHandleType (km_cmd req_meta)) (\<lambda>type.
     let async = (is_global_server st \<and> \<not> ds_sync_global_mode st); odd_sender = (cmod (km_sender req_meta) 2 = 1);
         dispatch = (\<lambda>request on_async on_sync.
           if km_push req_meta
           then (if request then (if async then on_async L type req_meta req_data st else on_sync L type req_meta req_data st)
                 else DataHandlePushResponseDefault L type req_meta st)
           else DataHandlePullDefault L type req_meta req_data st) in
     case dh_requestType type of
       kRowSparsePushPull \<Rightarrow> dl_row_sparse L type req_meta req_data st
     | kCompressedPushPull \<Rightarrow> dispatch odd_sender DataHandleAsyncCompressed DataHandleSyncCompressed
     | kDefaultPushPull \<Rightarrow> dispatch (if ks_enable_inter_ts st \<noteq> 0 then km_app_id req_meta \<noteq> 0 else odd_sender)
         DataHandleAsyncDefault DataHandleSyncDefault
     | kBSCompressedPushPull \<Rightarrow> dispatch odd_sender DataHandleAsyncBSCompressed DataHandleSyncBSCompressed
     | OtherRequest i \<Rightarrow> Inl (Fatal ''Unsupported RequestType''))"

subsection \<open>Merging between parties\<close>

text \<open>TSEngine's request to forward: the head of the queue is sent to the receiver the scheduler named.\<close>

definition forward_merged :: "DistLib \<Rightarrow> DistServer \<Rightarrow> DistServer res" where
  "forward_merged L st =
     defined (ds_send_q st \<noteq> []) ''send_q.front()''
      (let key = hd (ds_send_q st); data = ds_req_data_buf st key; req = ds_req_meta_buf st key in
       defined (kv_lens data \<noteq> [] \<and> ub_merged (ds_update_global st key) \<noteq> None) ''merged.data(), lens[0]''
        (rbind (handle (ub_merged (ds_update_global st key))) (\<lambda>a.
         rbind (memory a (size_t (hd (kv_lens data))) st) (\<lambda>vals.
         let data1 = data\<lparr>kv_vals := vals\<rparr>; st1 = st\<lparr>ds_req_data_buf := (ds_req_data_buf st)(key := data1)\<rparr> in
         rbind (KVServer_Send (dl_kvs L) (km_timestamp req) (km_push req) (km_cmd req) data1 (km_key req) (km_version req)
                  (km_app_id req) (km_customer_id req) (km_num_merge req) st1) (\<lambda>st2.
           Inr (st2\<lparr>ds_send_q := tl (ds_send_q st2)\<rparr>))))))"

text \<open>The server's own push opens the queue entry.\<close>

definition enqueue_own :: "int \<Rightarrow> KVMeta \<Rightarrow> kvs \<Rightarrow> DistServer \<Rightarrow> DistServer" where
  "enqueue_own key req_meta req_data st =
     st\<lparr>ds_send_q := ds_send_q st @ [key],
        ds_req_meta_buf := (ds_req_meta_buf st)(key := (ds_req_meta_buf st key)\<lparr>km_cmd := km_cmd req_meta, km_push := km_push req_meta,
          km_sender := km_sender req_meta, km_timestamp := km_timestamp req_meta, km_customer_id := km_customer_id req_meta,
          km_app_id := km_app_id req_meta, km_key := km_key req_meta, km_version := km_version req_meta, km_num_merge := km_num_merge req_meta\<rparr>),
        ds_req_data_buf := (ds_req_data_buf st)(key := (ds_req_data_buf st key)\<lparr>kv_keys := kv_keys req_data, kv_lens := kv_lens req_data\<rparr>)\<rparr>"

definition WorkersMerge :: "DistLib \<Rightarrow> KVMeta \<Rightarrow> kvs \<Rightarrow> DistServer \<Rightarrow> DistServer res" where
  "WorkersMerge L req_meta req_data st =
     (if km_num_merge req_meta = -1 then forward_merged L st
      else chk (length (kv_keys req_data) = 1) ''keys.size() == 1''
       (chk (km_push req_meta \<longrightarrow> length (kv_lens req_data) = 1) ''lens.size() == 1''
        (defined (kv_lens req_data \<noteq> []) ''lens[0]''
         (chk (km_push req_meta \<longrightarrow> int (length (kv_vals req_data)) = hd (kv_lens req_data)) ''vals.size() == lens[0]''
          (let key = int_of_key (hd (kv_keys req_data)); own = (km_sender req_meta = n_id (van_my_node_global (pr_van (ks_proc st)))) in
           rbind (DepairDataHandleType (km_cmd req_meta)) (\<lambda>type.
           rbind (if own then Inr (enqueue_own key req_meta req_data st) else respond L req_meta True st) (\<lambda>st1.
           rbind (mshadow_sizeof (dh_dtype type)) (\<lambda>num_bytes.
           let n = size_t (hd (kv_lens req_data)) div num_bytes in
           rbind (heap_get (nd_wrap (dh_dtype type) n (kv_vals req_data)) st1) (\<lambda>(recved, st2).
           let u = ds_update_global st2 key;
               (merged, st3) = (case ub_merged u of Some a \<Rightarrow> (a, st2) | None \<Rightarrow> heap_new (dl_nd L) n (dh_dtype type) st2);
               put = (\<lambda>a st. st\<lparr>ds_update_global := (ds_update_global st)(key := (ds_update_global st key)\<lparr>ub_merged := Some a\<rparr>)\<rparr>) in
           if own then Inr (put recved st3)
           else rbind (heap_run (nd_iadd (dl_nd L) merged recved) (put merged st3)) (\<lambda>st4.
             Inr (st4\<lparr>ds_req_meta_buf := (ds_req_meta_buf st4)(key := (ds_req_meta_buf st4 key)
               \<lparr>km_num_merge := km_num_merge (ds_req_meta_buf st4 key) + km_num_merge req_meta\<rparr>)\<rparr>)))))))))))"

subsection \<open>Commands\<close>

datatype CommandType = kController | kSetMultiPrecision | kStopServer | kSyncMode | kSyncGlobalMode
  | kSetGradientCompression | kSetProfilerParams | OtherCommand int

definition CommandType_of_int :: "int \<Rightarrow> CommandType" where
  "CommandType_of_int i = (if i = 0 then kController else if i = 1 then kSetMultiPrecision else if i = 2 then kStopServer
     else if i = 3 then kSyncMode else if i = 4 then kSyncGlobalMode else if i = 5 then kSetGradientCompression
     else if i = 6 then kSetProfilerParams else OtherCommand i)"

text \<open>
  The single precision copies of the arrays stored so far. The keys are visited in the order of
  \<open>ds_store_keys\<close>.
\<close>

definition multi_precision_copy :: "DistLib \<Rightarrow> int \<Rightarrow> DistServer \<Rightarrow> DistServer res" where
  "multi_precision_copy L key st =
     rbind (handle (ds_store st key)) (\<lambda>a.
     if nd_dtype (cell st a) = kFloat32 then Inr st
     else (let (r, st1) = heap_new (dl_nd L) (nd_size (cell st a)) kFloat32 st;
               st2 = st1\<lparr>ds_realt := (ds_realt st1)(key \<mapsto> r)\<rparr>; u = ds_update_buf st2 key;
               st3 = (case ub_merged u of
                   None \<Rightarrow> st2
                 | Some m \<Rightarrow> (let (m', s) = heap_new (dl_nd L) (nd_size (cell st2 m)) kFloat32 st2 in set_updates key (u\<lparr>ub_merged := Some m'\<rparr>) s)) in
       chk (ub_request u = []) ''Multiprecision mode can not be set while pushes are underway.''
        (heap_run (CopyFromTo (dl_nd L) a r) st3)))"

fun CreateMultiPrecisionCopies :: "DistLib \<Rightarrow> int list \<Rightarrow> DistServer \<Rightarrow> DistServer res" where
  "CreateMultiPrecisionCopies L [] st = Inr st"
| "CreateMultiPrecisionCopies L (key # keys) st = rbind (multi_precision_copy L key st) (CreateMultiPrecisionCopies L keys)"

definition char_digit :: "char \<Rightarrow> int" where
  "char_digit c = (let x = int (of_char c) in (if x < 128 then x else x - 256) - 48)"

fun profiler_params :: "DistLib \<Rightarrow> string list \<Rightarrow> DistServer \<Rightarrow> (string \<times> string) list res" where
  "profiler_params L [] st = Inr []"
| "profiler_params L (e # es) st =
     (let parts = split_string (CHR '':'') [] e in
      chk (length parts = 2) ''Improper profiler config passed from worker''
       (chk (parts ! 0 \<noteq> []) ''ProfilerConfig parameter is empty'' (chk (parts ! 1 \<noteq> []) ''ProfilerConfig value is empty''
         (rbind (if parts ! 0 = ''filename''
                 then rbind (my_node False (pr_van (ks_proc st))) (\<lambda>node.
                   Inr (''rank'' @ dl_print_int L (IDtoRank (n_id node)) @ ''_'' @ parts ! 1))
                 else Inr (parts ! 1)) (\<lambda>v.
          rbind (profiler_params L es st) (\<lambda>ps. Inr ((parts ! 0, v) # ps)))))))"

definition SetProfilerConfig :: "DistLib \<Rightarrow> string \<Rightarrow> DistServer \<Rightarrow> DistServer res" where
  "SetProfilerConfig L params_str st =
     (let elems = split_string (CHR '','') [] params_str in
      rbind (profiler_params L elems st) (\<lambda>ps.
        defined (ps \<noteq> []) ''&ckeys[0]'' (dl_profiler L (MXSetProfilerConfig ps) st)))"

text \<open>The kind is the last character of the body.\<close>

definition ProcessServerProfilerCommands :: "DistLib \<Rightarrow> int \<Rightarrow> string \<Rightarrow> DistServer \<Rightarrow> DistServer res" where
  "ProcessServerProfilerCommands L kind body st =
     (if kind = 0 then SetProfilerConfig L (butlast body) st
      else if kind = 1 then dl_profiler L (MXSetProfilerState (char_digit (hd body))) st
      else if kind = 2 then dl_profiler L (MXProfilePause (char_digit (hd body))) st
      else if kind = 3 then dl_profiler L (MXDumpProfile (char_digit (hd body))) st
      else Inr st)"

definition server_request :: "DistLib \<Rightarrow> int \<Rightarrow> string \<Rightarrow> int \<Rightarrow> bool \<Rightarrow> DistServer \<Rightarrow> DistServer res" where
  "server_request L cmd_id body recv_id is_global st =
     rbind (srv_proc (SimpleApp_Request (sl_world (dl_kvs L)) (ks_this st) cmd_id body recv_id is_global) st) (\<lambda>(st1, _). Inr st1)"

definition stop_executor :: "DistServer \<Rightarrow> DistServer res" where
  "stop_executor = Exec (\<lambda>st. Inr (st\<lparr>ds_stopped := True\<rparr>))"

definition run_command :: "DistLib \<Rightarrow> SimpleData \<Rightarrow> DistServer \<Rightarrow> DistServer res" where
  "run_command L recved st =
     (case CommandType_of_int (sd_head recved) of
        kStopServer \<Rightarrow>
          if is_global_server st
          then (let st1 = st\<lparr>ds_num_stop_executor := ds_num_stop_executor st + 1\<rparr> in
                if ds_num_stop_executor st1 = po_num_global_workers (pr_po (ks_proc st1)) then stop_executor st1 else Inr st1)
          else rbind (server_request L 2 [] kServerGroupGlobal True st) stop_executor
      | kSyncMode \<Rightarrow> Inr (st\<lparr>ds_sync_mode := True\<rparr>)
      | kSyncGlobalMode \<Rightarrow> chk (is_global_server st) ''only global server could perform global synchronous mode''
          (Inr (st\<lparr>ds_sync_global_mode := True\<rparr>))
      | kSetGradientCompression \<Rightarrow>
          rbind (DecodeParams (dl_stoi L) (dl_stof L) (sd_body recved) (ds_gc st)) (\<lambda>gc.
          let st1 = st\<lparr>ds_gc := gc\<rparr> in
          if \<not> is_global_server st1 then Inr st1
          else rbind (my_node True (pr_van (ks_proc st1))) (\<lambda>node.
            if IDtoRank (n_id node) \<noteq> 0 then Inr st1
            else rbind (server_request L 5 (sd_body recved) kWorkerGroupGlobal True st1)
              (server_request L 5 (sd_body recved) kWorkerGroup False)))
      | kSetProfilerParams \<Rightarrow> defined (sd_body recved \<noteq> []) ''recved.body.back()''
          (ProcessServerProfilerCommands L (char_digit (last (sd_body recved))) (sd_body recved) st)
      | kSetMultiPrecision \<Rightarrow>
          if ds_multi_precision st then Inr st
          else CreateMultiPrecisionCopies L (ds_store_keys st) (st\<lparr>ds_multi_precision := True\<rparr>)
      | kController \<Rightarrow> Exec (\<lambda>st. case dl_controller L of None \<Rightarrow> Inl (Check ''controller_'') | Some f \<Rightarrow> f (sd_head recved) (sd_body recved) st) st
      | OtherCommand i \<Rightarrow> Inr st)"

definition CommandHandle :: "DistLib \<Rightarrow> SimpleData \<Rightarrow> DistServer \<Rightarrow> DistServer res" where
  "CommandHandle L recved st =
     rbind (run_command L recved st) (\<lambda>st1. srv_run (SimpleApp_Response (sl_world (dl_kvs L)) (ks_this st1) recved []) st1)"

subsection \<open>The server\<close>

text \<open>Truth values in the environment, in any case.\<close>

definition to_lower :: "char \<Rightarrow> char" where
  "to_lower c = (let x = (of_char c :: nat) in if 65 \<le> x \<and> x \<le> 90 then char_of (x + 32) else c)"

definition set_bool :: "string \<Rightarrow> bool res" where
  "set_bool v = (let l = map to_lower v in
     if l = ''true'' \<or> l = ''1'' then Inr True else if l = ''false'' \<or> l = ''0'' then Inr False
     else Inl (Fatal ''Invalid Parameter format''))"

definition initial_state :: "KVServer \<Rightarrow> nat \<Rightarrow> nat \<Rightarrow> bool \<Rightarrow> nat \<Rightarrow> nat \<Rightarrow> moves \<Rightarrow> DistServer" where
  "initial_state s big lower use_hfa k1 k2 ms = KVServer.extend s (DistServer.fields
     \<lparr>hp_cell = (\<lambda>_. \<lparr>nd_dtype = 0, nd_bytes = []\<rparr>), hp_next = 0\<rparr> Map.empty [] Map.empty Map.empty (\<lambda>_. 0) Map.empty
     (\<lambda>_. empty_UpdateBuf) (\<lambda>_. empty_UpdateBuf) (\<lambda>_. empty_UpdateBuf) Map.empty Map.empty Map.empty Map.empty
     (\<lambda>_. False) (\<lambda>_. []) (\<lambda>_. 0) (\<lambda>_. 0) (\<lambda>_. empty_PSKV) (\<lambda>_. empty_PSKV) (\<lambda>_. empty_PSKV) big lower
     use_hfa 0 k1 k2 False False False new_GradientCompression []
     (\<lambda>_. empty_KVMeta) (\<lambda>_. empty_KVPairs) 0 False 0 ms)"

definition new_DistServer :: "KVServer KVSLib \<Rightarrow> Proc \<Rightarrow> nat \<Rightarrow> moves \<Rightarrow> DistServer res" where
  "new_DistServer K p this ms =
     rbind (KVServer_init K p this) (\<lambda>s.
     let int_env = (\<lambda>name d. rbind (env_or (sl_env_int K) (pr_env p) name d) (\<lambda>i. Inr (size_t i))) in
     rbind (int_env ''MXNET_KVSTORE_BIGARRAY_BOUND'' 1000000) (\<lambda>big.
     rbind (int_env ''MXNET_KVSTORE_SIZE_LOWER_BOUND'' 200000) (\<lambda>lower.
     rbind (env_or set_bool (pr_env p) ''MXNET_KVSTORE_DIST_ROW_SPARSE_VERBOSE'' False) (\<lambda>_.
     rbind (env_or set_bool (pr_env p) ''MXNET_KVSTORE_USE_HFA'' False) (\<lambda>use_hfa.
     rbind (int_env ''MXNET_KVSTORE_HFA_K1'' 1) (\<lambda>k1.
     rbind (int_env ''MXNET_KVSTORE_HFA_K2'' 1) (\<lambda>k2.
       Inr (initial_state s big lower use_hfa k1 k2 ms))))))))"

text \<open>The handlers as the constructor installs them. Only a server's own push calls the merging one.\<close>

definition install :: "DistLib \<Rightarrow> DistLib" where
  "install L =
     (let L1 = L\<lparr>dl_kvs := (dl_kvs L)\<lparr>sl_request_global := WorkersMerge L\<rparr>\<rparr> in
      L1\<lparr>dl_kvs := (dl_kvs L1)\<lparr>sl_request := DataHandleEx L1, sl_simple_request := CommandHandle L1\<rparr>\<rparr>)"

definition DistServer_Process :: "DistLib \<Rightarrow> moves \<Rightarrow> Message \<Rightarrow> DistServer \<Rightarrow> (DistServer \<times> moves) res" where
  "DistServer_Process L ms m st = KVServer_Process (dl_kvs (install L)) ms m st"

end
