(* ===== verification/Rounds.thy ===== *)
theory Rounds
  imports DistServers
begin

text \<open>
  What a global server in synchronous mode promises: \<open>Agg\<close> is its state without a heap, a value, a
  running sum and the waiting requests for each key. Pushes and pulls through \<open>DataHandleEx\<close>
  implement its operations, for any interleaving of keys and senders.
\<close>

subsection \<open>Specification\<close>

record Round =
  rd_value :: "NDArray option"
  rd_sum :: bytes
  rd_waiting :: "KVMeta list"

record Agg =
  ag_rounds :: "int \<Rightarrow> Round"
  ag_optimizer :: nat
  ag_outbox :: "(Message \<times> channel) list"

definition response_msg :: "int \<Rightarrow> KVMeta \<Rightarrow> Message" where
  "response_msg app req = empty_Message\<lparr>msg_meta := empty_Meta\<lparr>m_app_id := app, m_customer_id := km_customer_id req,
     m_request := False, m_push := km_push req, m_head := km_cmd req, m_timestamp := km_timestamp req,
     m_recver := km_sender req, m_key := km_key req, m_version := 0\<rparr>\<rparr>"

definition answer :: "int \<Rightarrow> KVMeta \<Rightarrow> Message \<times> channel" where
  "answer app req = (response_msg app req, chan (km_sender req < kOffset))"

type_synonym updater = "int \<Rightarrow> NDArray \<Rightarrow> NDArray \<Rightarrow> nat \<Rightarrow> bytes \<times> nat"

definition updated :: "updater option \<Rightarrow> int \<Rightarrow> bytes \<Rightarrow> NDArray \<Rightarrow> nat \<Rightarrow> NDArray \<times> nat" where
  "updated upd key acc v opt =
     (case upd of None \<Rightarrow> (v\<lparr>nd_bytes := acc\<rparr>, opt)
      | Some f \<Rightarrow> (let (bs, opt') = f key \<lparr>nd_dtype = nd_dtype v, nd_bytes = acc\<rparr> v opt in (v\<lparr>nd_bytes := bs\<rparr>, opt')))"

text \<open>One push of values: the first opens the key, a complete round updates the value and answers.\<close>

definition agg_push ::
  "(int \<Rightarrow> bytes \<Rightarrow> bytes \<Rightarrow> bytes) \<Rightarrow> updater option \<Rightarrow> int \<Rightarrow> nat \<Rightarrow> bool \<Rightarrow> int \<Rightarrow> int \<Rightarrow> KVMeta \<Rightarrow> bytes \<Rightarrow> Agg \<Rightarrow> Agg" where
  "agg_push add upd app quota central d key req vals A =
     (let r = ag_rounds A key in
      case rd_value r of
        None \<Rightarrow> A\<lparr>ag_rounds := (ag_rounds A)(key := r\<lparr>rd_value := Some \<lparr>nd_dtype = d, nd_bytes = vals\<rparr>\<rparr>),
                  ag_outbox := ag_outbox A @ [(response_msg app req, Local)]\<rparr>
      | Some v \<Rightarrow>
          if from_central req \<and> \<not> central then A
          else (let acc = (if rd_waiting r = [] then vals else add d (rd_sum r) vals);
                    waiting = rd_waiting r @ replicate (nat (km_num_merge req)) req in
            if length waiting = quota
            then (let (v', opt) = updated upd key acc v (ag_optimizer A) in
              A\<lparr>ag_rounds := (ag_rounds A)(key := \<lparr>rd_value = Some v', rd_sum = [], rd_waiting = []\<rparr>),
                ag_optimizer := opt, ag_outbox := ag_outbox A @ map (answer app) waiting\<rparr>)
            else A\<lparr>ag_rounds := (ag_rounds A)(key := \<lparr>rd_value = Some v,
                     rd_sum = (if waiting = [] then [] else acc), rd_waiting = waiting\<rparr>)\<rparr>))"

definition pull_msg :: "int \<Rightarrow> KVMeta \<Rightarrow> key \<Rightarrow> bytes \<Rightarrow> Message" where
  "pull_msg app req k vals = (response_msg app req)\<lparr>
     msg_meta := (msg_meta (response_msg app req))\<lparr>m_data_type := [UINT64, CHAR_T, INT32]\<rparr>,
     msg_data := [bytes_of_keys [k], vals, bytes_of_ints [int (length vals)]]\<rparr>"

text \<open>The messages of a run: pushes of a data type, key and values, and pulls of a key.\<close>

datatype event = EPush KVMeta int int bytes | EPull KVMeta int

record AggParams =
  ap_add :: "int \<Rightarrow> bytes \<Rightarrow> bytes \<Rightarrow> bytes"
  ap_updater :: "updater option"
  ap_app :: int
  ap_quota :: nat
  ap_central :: bool
  ap_begin :: key

fun agg_step :: "AggParams \<Rightarrow> event \<Rightarrow> Agg \<Rightarrow> Agg" where
  "agg_step P (EPush req d key vals) A =
     agg_push (ap_add P) (ap_updater P) (ap_app P) (ap_quota P) (ap_central P) d key req vals A"
| "agg_step P (EPull req key) A =
     (case rd_value (ag_rounds A key) of
        None \<Rightarrow> A
      | Some v \<Rightarrow> A\<lparr>ag_outbox := ag_outbox A @
          [(pull_msg (ap_app P) req (ap_begin P + word_of_int key) (nd_bytes v), chan (km_sender req < kOffset))]\<rparr>)"

text \<open>
  A well-formed event: a request of a worker or of a party's server, with values of a floating point
  type and, once the key has a value, of its type and size. A pull waits until there is one.
\<close>

fun event_ok :: "Agg \<Rightarrow> event \<Rightarrow> bool" where
  "event_ok A (EPush req d key vals) \<longleftrightarrow> km_push req \<and> km_cmd req = GetCommandType kDefaultPushPull d \<and> cmod (km_sender req) 2 = 1 \<and>
     int32 key \<and> real_type d \<and> length vals mod elem_size d = 0 \<and>
     (case rd_value (ag_rounds A key) of None \<Rightarrow> True | Some v \<Rightarrow> nd_dtype v = d \<and> length (nd_bytes v) = length vals)"
| "event_ok A (EPull req key) \<longleftrightarrow> \<not> km_push req \<and> cmod (km_sender req) 2 = 1 \<and> int32 key \<and>
     (case rd_value (ag_rounds A key) of None \<Rightarrow> False | Some v \<Rightarrow> km_cmd req = GetCommandType kDefaultPushPull (nd_dtype v))"

fun events_ok :: "AggParams \<Rightarrow> event list \<Rightarrow> Agg \<Rightarrow> bool" where
  "events_ok P [] A = True"
| "events_ok P (e # es) A \<longleftrightarrow> event_ok A e \<and> events_ok P es (agg_step P e A)"

subsection \<open>Abstraction\<close>

text \<open>The same events as calls of the handler.\<close>

fun run_event :: "DistLib \<Rightarrow> key \<Rightarrow> event \<Rightarrow> DistServer \<Rightarrow> DistServer res" where
  "run_event L b (EPush req d key vals) st =
     DataHandleEx L req \<lparr>kv_keys = [b + word_of_int key], kv_vals = vals, kv_lens = [int (length vals)], kv_priority = 0\<rparr> st"
| "run_event L b (EPull req key) st =
     DataHandleEx L req \<lparr>kv_keys = [b + word_of_int key], kv_vals = [], kv_lens = [], kv_priority = 0\<rparr> st"

fun run_events :: "DistLib \<Rightarrow> key \<Rightarrow> event list \<Rightarrow> DistServer \<Rightarrow> DistServer res" where
  "run_events L b [] st = Inr st"
| "run_events L b (e # es) st = rbind (run_event L b e st) (run_events L b es)"

definition params_of :: "DistLib \<Rightarrow> Customer \<Rightarrow> key \<Rightarrow> DistServer \<Rightarrow> AggParams" where
  "params_of L c b st = \<lparr>ap_add = nl_add (dl_nd L), ap_updater = dl_updater L, ap_app = cu_app_id c, ap_quota = global_quota st,
     ap_central = po_enable_central_workers (pr_po (ks_proc st)), ap_begin = b\<rparr>"

definition round_of :: "DistServer \<Rightarrow> int \<Rightarrow> Round" where
  "round_of st key =
     (let u = ds_update_buf st key in
      \<lparr>rd_value = map_option (cell st) (ds_store st key),
       rd_sum = (if ub_request u = [] then [] else case ub_merged u of None \<Rightarrow> [] | Some m \<Rightarrow> nd_bytes (cell st m)),
       rd_waiting = ub_request u\<rparr>)"

definition agg_of :: "DistServer \<Rightarrow> Agg" where
  "agg_of st = \<lparr>ag_rounds = round_of st, ag_optimizer = ds_optimizer st, ag_outbox = van_outbox (pr_van (ks_proc st))\<rparr>"

text \<open>No two members share a cell, and a sum has the type and the length of its value.\<close>

definition stored_ok :: "DistServer \<Rightarrow> int \<Rightarrow> nat \<Rightarrow> bool" where
  "stored_ok st k a \<longleftrightarrow> a < hp_next (ds_heap st) \<and> real_type (nd_dtype (cell st a)) \<and> ds_initialized st k \<and>
     length (nd_bytes (cell st a)) = nd_size (cell st a) * elem_size (nd_dtype (cell st a))"

definition merged_ok :: "DistServer \<Rightarrow> int \<Rightarrow> nat \<Rightarrow> bool" where
  "merged_ok st k m \<longleftrightarrow> m < hp_next (ds_heap st) \<and>
     (\<exists>a. ds_store st k = Some a \<and> nd_dtype (cell st m) = nd_dtype (cell st a) \<and>
        length (nd_bytes (cell st m)) = length (nd_bytes (cell st a)))"

definition separate :: "(int \<Rightarrow> nat option) \<Rightarrow> (int \<Rightarrow> UpdateBuf) \<Rightarrow> bool" where
  "separate store bufs \<longleftrightarrow>
     (\<forall>k k' a. store k = Some a \<and> store k' = Some a \<longrightarrow> k = k') \<and>
     (\<forall>k k' m. ub_merged (bufs k) = Some m \<and> ub_merged (bufs k') = Some m \<longrightarrow> k = k') \<and>
     (\<forall>k k' a. \<not> (store k = Some a \<and> ub_merged (bufs k') = Some a))"

definition heap_inv :: "DistServer \<Rightarrow> bool" where
  "heap_inv st \<longleftrightarrow> (\<forall>k a. ds_store st k = Some a \<longrightarrow> stored_ok st k a) \<and>
     (\<forall>k m. ub_merged (ds_update_buf st k) = Some m \<longrightarrow> merged_ok st k m) \<and>
     (\<forall>k. ub_merged (ds_update_buf st k) = None \<longrightarrow> ub_request (ds_update_buf st k) = []) \<and>
     separate (ds_store st) (ds_update_buf st)"

text \<open>A started global server in synchronous mode, without TSEngine, P3 and multi precision.\<close>

definition global_ready :: "DistLib \<Rightarrow> Customer \<Rightarrow> Range list \<Rightarrow> nat \<Rightarrow> DistServer \<Rightarrow> bool" where
  "global_ready L c krs rank st \<longleftrightarrow>
     is_global_server st \<and> ds_sync_global_mode st \<and> ds_sync_mode st \<and> \<not> ds_multi_precision st \<and> ks_enable_inter_ts st = 0 \<and>
     ks_enable_p3 st = 0 \<and> \<not> ds_stopped st \<and> van_resender (pr_van (ks_proc st)) = None \<and>
     pr_cust (ks_proc st) (ks_this st) = Some c \<and> po_server_key_ranges_global (pr_po (ks_proc st)) = krs \<and>
     van_ready_global (pr_van (ks_proc st)) \<and> nat (IDtoRank (n_id (van_my_node_global (pr_van (ks_proc st))))) = rank \<and>
     rank < length krs"

text \<open>What is assumed of the parameters: the network takes every message, arithmetic and the optimiser keep sizes.\<close>

definition lib_ok :: "DistLib \<Rightarrow> bool" where
  "lib_ok L \<longleftrightarrow> (\<forall>m g. w_send (sl_world (dl_kvs L)) m g \<noteq> -1) \<and>
     (\<forall>t x y. length x = length y \<longrightarrow> length (nl_add (dl_nd L) t x y) = length x) \<and>
     (\<forall>f k x v opt. dl_updater L = Some f \<and> length (nd_bytes x) = length (nd_bytes v) \<longrightarrow> length (fst (f k x v opt)) = length (nd_bytes v))"

subsection \<open>Steps\<close>

lemma elem_size_pos [simp]: "0 < elem_size t"
  by (auto simp: elem_size_def mshadow_sizeof_def)

lemma real_sizeof: "real_type t \<Longrightarrow> mshadow_sizeof t = Inr (elem_size t)"
  by (auto simp: real_type_def elem_size_def mshadow_sizeof_def)

lemma int_of_key_fits: "int32 key \<Longrightarrow> int_of_key (word_of_int key) = key"
proof -
  assume k: "int32 key"
  have "(ucast (word_of_int key :: 64 word) :: 32 word) = word_of_int key"
    by (rule bit_word_eqI) (simp add: bit_simps)
  then show ?thesis using k by (simp add: int_of_key_def sint_word_of_int)
qed

lemma DecodeKey_ready:
  assumes "global_ready L c krs rank st" "int32 key"
  shows "DecodeKey (range_begin (krs ! rank) + word_of_int key) True st = Inr (key, st)"
proof -
  have "int_of_key (word_of_int key) = key"
    using assms(2) by (simp add: int_of_key_fits)
  moreover have "krs \<noteq> []" using assms(1) by (auto simp: global_ready_def)
  ultimately show ?thesis using assms(1)
    by (auto simp: global_ready_def DecodeKey_def GetServerKeyRanges_def my_node_def Let_def res_simps chk_def defined_def)
qed

lemma respond_ok:
  assumes "van_resender (pr_van (ks_proc st)) = None" "pr_cust (ks_proc st) (ks_this st) = Some c" "lib_ok L"
  shows "\<exists>p. respond L req g st = Inr (st\<lparr>ks_proc := p\<rparr>) \<and> sent_only (ks_proc st) p \<and> van_resender (pr_van p) = None \<and>
    van_outbox (pr_van p) = van_outbox (pr_van (ks_proc st)) @ [(response_msg (cu_app_id c) req, chan g)]"
proof -
  have "w_send (sl_world (dl_kvs L)) (response_msg (cu_app_id c) req) g \<noteq> -1" using assms(3) by (simp add: lib_ok_def)
  from Send_ok[OF assms(1) this] assms(2) show ?thesis
    by (auto simp: respond_def KVServer_Response_def response_msg_def obj_def srv_proc_def empty_KVPairs_def Let_def)
qed

text \<open>The heap may grow; what was there stays.\<close>

definition grown :: "DistServer \<Rightarrow> DistServer \<Rightarrow> bool" where
  "grown st st' \<longleftrightarrow> (\<exists>h. st' = st\<lparr>ds_heap := h\<rparr> \<and> hp_next (ds_heap st) \<le> hp_next h \<and>
     (\<forall>a < hp_next (ds_heap st). hp_cell h a = cell st a))"

lemma grown_cell: "grown st st' \<Longrightarrow> a < hp_next (ds_heap st) \<Longrightarrow> cell st' a = cell st a"
  by (auto simp: grown_def cell_def)

lemma heap_invD:
  assumes "heap_inv st"
  shows "ds_store st k = Some a \<Longrightarrow> stored_ok st k a" "ub_merged (ds_update_buf st k) = Some m \<Longrightarrow> merged_ok st k m"
    "ub_merged (ds_update_buf st k) = None \<Longrightarrow> ub_request (ds_update_buf st k) = []" "separate (ds_store st) (ds_update_buf st)"
    "ds_store st k = Some a \<Longrightarrow> a < hp_next (ds_heap st)" "ub_merged (ds_update_buf st k) = Some m \<Longrightarrow> m < hp_next (ds_heap st)"
  using assms unfolding heap_inv_def by (blast, blast, blast, blast, auto simp: stored_ok_def merged_ok_def)

lemma grown_heap_inv:
  assumes "grown st st'" "heap_inv st"
  shows "heap_inv st'"
proof -
  obtain h where h: "st' = st\<lparr>ds_heap := h\<rparr>" "hp_next (ds_heap st) \<le> hp_next h" using assms(1) by (auto simp: grown_def)
  note c = grown_cell[OF assms(1)]
  have s: "stored_ok st' k a" if "ds_store st k = Some a" for k a
    using heap_invD(1)[OF assms(2) that] c[of a] h by (auto simp: stored_ok_def)
  have m: "merged_ok st' k m" if m: "ub_merged (ds_update_buf st k) = Some m" for k m
  proof -
    from heap_invD(2)[OF assms(2) m] obtain a where
      a: "m < hp_next (ds_heap st)" "ds_store st k = Some a" "nd_dtype (cell st m) = nd_dtype (cell st a)"
        "length (nd_bytes (cell st m)) = length (nd_bytes (cell st a))" by (auto simp: merged_ok_def)
    then show ?thesis using c[of m] c[OF heap_invD(5)[OF assms(2) a(2)]] h by (auto simp: merged_ok_def)
  qed
  show ?thesis using s m heap_invD(3,4)[OF assms(2)] by (simp add: heap_inv_def h(1))
qed

lemma round_of_cong:
  assumes "heap_inv st" "ds_store st' = ds_store st" "ds_update_buf st' = ds_update_buf st"
    and "\<And>a. a < hp_next (ds_heap st) \<Longrightarrow> cell st' a = cell st a"
  shows "round_of st' = round_of st"
proof
  fix k
  have "map_option (cell st') (ds_store st k) = map_option (cell st) (ds_store st k)"
    using assms(1,4) by (cases "ds_store st k") (auto dest: heap_invD(5))
  moreover have "\<And>m. ub_merged (ds_update_buf st k) = Some m \<Longrightarrow> cell st' m = cell st m"
    using assms(1,4) by (auto dest: heap_invD(6))
  ultimately show "round_of st' k = round_of st k"
    by (auto simp: round_of_def assms(2,3) Let_def split: option.split)
qed

lemma grown_agg: "grown st st' \<Longrightarrow> heap_inv st \<Longrightarrow> agg_of st' = agg_of st"
  using round_of_cong[of st st'] grown_cell[of st st'] by (auto simp: agg_of_def grown_def)

lemma heap_new_grown:
  "heap_new N n t st = (a, st') \<Longrightarrow> a = hp_next (ds_heap st) \<and> hp_next (ds_heap st') = a + 1 \<and> grown st st' \<and>
     nd_dtype (cell st' a) = t \<and> length (nd_bytes (cell st' a)) = n * elem_size t"
  by (auto simp: heap_new_def nd_new_def nd_alloc_def grown_def cell_def)

lemma wrap_grown:
  assumes "real_type d" "length vals = n * elem_size d"
  shows "\<exists>st'. heap_get (nd_wrap d n vals) st = Inr (hp_next (ds_heap st), st') \<and> grown st st' \<and>
    hp_next (ds_heap st') = hp_next (ds_heap st) + 1 \<and> cell st' (hp_next (ds_heap st)) = \<lparr>nd_dtype = d, nd_bytes = vals\<rparr>"
  using assms by (auto simp: heap_get_def nd_wrap_def nd_alloc_def grown_def cell_def defined_def)

lemma grown_trans:
  assumes "grown x y" "grown y z"
  shows "grown x z"
proof -
  obtain h where h: "y = x\<lparr>ds_heap := h\<rparr>" "hp_next (ds_heap x) \<le> hp_next h" "\<forall>a < hp_next (ds_heap x). hp_cell h a = cell x a"
    using assms(1) by (auto simp: grown_def)
  obtain h' where h': "z = y\<lparr>ds_heap := h'\<rparr>" "hp_next h \<le> hp_next h'" "\<forall>a < hp_next h. hp_cell h' a = hp_cell h a"
    using assms(2) by (auto simp: grown_def h(1) cell_def)
  show ?thesis unfolding grown_def using h h' by (intro exI[of _ h']) simp
qed

text \<open>Only the heap and the sums differ: what the readiness of a server depends on is the rest.\<close>

lemma ready_cong:
  assumes "global_ready L c krs rank st" "sent_only (ks_proc st) (ks_proc st')" "van_resender (pr_van (ks_proc st')) = None"
    and "ds_sync_global_mode st' = ds_sync_global_mode st" "ds_sync_mode st' = ds_sync_mode st"
    "ds_multi_precision st' = ds_multi_precision st" "ks_enable_inter_ts st' = ks_enable_inter_ts st"
    "ks_enable_p3 st' = ks_enable_p3 st" "ds_stopped st' = ds_stopped st" "ks_this st' = ks_this st"
  shows "global_ready L c krs rank st'"
proof -
  obtain out bs rs ts where "ks_proc st' = (ks_proc st)\<lparr>pr_van := (pr_van (ks_proc st))\<lparr>van_outbox := out, van_send_bytes := bs,
     van_resender := rs, van_timestamp := ts\<rparr>\<rparr>" using assms(2) by (auto simp: sent_only_def)
  then show ?thesis using assms(1,3-) by (auto simp: global_ready_def is_global_server_def)
qed

lemma respond_each_ok:
  assumes "van_resender (pr_van (ks_proc st)) = None" "pr_cust (ks_proc st) (ks_this st) = Some c" "lib_ok L"
  shows "\<exists>p. respond_each L g reqs st = Inr (st\<lparr>ks_proc := p\<rparr>) \<and> sent_only (ks_proc st) p \<and> van_resender (pr_van p) = None \<and>
    van_outbox (pr_van p) = van_outbox (pr_van (ks_proc st)) @ map (\<lambda>r. (response_msg (cu_app_id c) r, chan (g r))) reqs"
  using assms(1,2)
proof (induction reqs arbitrary: st)
  case Nil
  then show ?case by (intro exI[of _ "ks_proc st"]) simp
next
  case (Cons r reqs)
  from respond_ok[OF Cons.prems assms(3), of r "g r"] obtain p where
    p: "respond L r (g r) st = Inr (st\<lparr>ks_proc := p\<rparr>)" "sent_only (ks_proc st) p" "van_resender (pr_van p) = None"
      "van_outbox (pr_van p) = van_outbox (pr_van (ks_proc st)) @ [(response_msg (cu_app_id c) r, chan (g r))]" by auto
  have "pr_cust p (ks_this st) = Some c" using sent_only_fields(1)[OF p(2)] Cons.prems(2) by simp
  from Cons.IH[of "st\<lparr>ks_proc := p\<rparr>"] p(3) this obtain q where
    "respond_each L g reqs (st\<lparr>ks_proc := p\<rparr>) = Inr (st\<lparr>ks_proc := q\<rparr>)" "sent_only p q" "van_resender (pr_van q) = None"
      "van_outbox (pr_van q) = van_outbox (pr_van p) @ map (\<lambda>r. (response_msg (cu_app_id c) r, chan (g r))) reqs" by auto
  then show ?case using p sent_only_trans[OF p(2)] by auto
qed

text \<open>Writing values of the same length keeps the invariant.\<close>

lemma cell_write [simp]: "cell (heap_write a bs st) b = (if b = a then (cell st a)\<lparr>nd_bytes := bs\<rparr> else cell st b)"
  by (simp add: cell_def heap_write_def nd_set_def)

lemma heap_write_fields [simp]:
  "ds_store (heap_write a bs st) = ds_store st" "ds_update_buf (heap_write a bs st) = ds_update_buf st"
  "ds_initialized (heap_write a bs st) = ds_initialized st" "hp_next (ds_heap (heap_write a bs st)) = hp_next (ds_heap st)"
  "ks_proc (heap_write a bs st) = ks_proc st" "ds_optimizer (heap_write a bs st) = ds_optimizer st"
  by (simp_all add: heap_write_def nd_set_def)

lemma cell_fields [simp]:
  "cell (st\<lparr>ks_proc := p\<rparr>) = cell st" "cell (st\<lparr>ds_optimizer := x\<rparr>) = cell st" "cell (st\<lparr>ds_initialized := i\<rparr>) = cell st"
  "cell (st\<lparr>ds_update_buf := b\<rparr>) = cell st" "cell (st\<lparr>ds_store := s\<rparr>) = cell st" "cell (st\<lparr>ds_store_keys := ks\<rparr>) = cell st"
  by (simp_all add: fun_eq_iff cell_def)

lemma heap_inv_cong:
  assumes "heap_inv st" "ds_store st' = ds_store st" "ds_initialized st' = ds_initialized st"
    and "hp_next (ds_heap st') = hp_next (ds_heap st)" "\<And>k. ub_merged (ds_update_buf st' k) = ub_merged (ds_update_buf st k)"
    and "\<And>k. ub_merged (ds_update_buf st k) = None \<Longrightarrow> ub_request (ds_update_buf st' k) = []"
    and "\<And>a. nd_dtype (cell st' a) = nd_dtype (cell st a)" "\<And>a. length (nd_bytes (cell st' a)) = length (nd_bytes (cell st a))"
  shows "heap_inv st'"
proof -
  have z: "nd_size (cell st' a) = nd_size (cell st a)" for a by (simp add: nd_size_def assms(7,8))
  have "stored_ok st' k a = stored_ok st k a" for k a by (simp add: stored_ok_def assms z)
  moreover have "merged_ok st' k a = merged_ok st k a" for k a by (simp add: merged_ok_def assms)
  moreover have "separate (ds_store st') (ds_update_buf st') = separate (ds_store st) (ds_update_buf st)" by (simp add: separate_def assms)
  ultimately show ?thesis using assms(1,6) unfolding heap_inv_def assms(2,5) by simp
qed

text \<open>The buffer of the sum: there, or made.\<close>

lemma ensure_merged_ok:
  assumes inv: "heap_inv st" and a: "ds_store st key = Some a" "nd_dtype (cell st a) = d" "length (nd_bytes (cell st a)) = n * elem_size d"
    and r: "r < hp_next (ds_heap st)" "\<And>k. ub_merged (ds_update_buf st k) \<noteq> Some r"
  shows "\<exists>m h b. ensure_merged L n d key st = st\<lparr>ds_heap := h, ds_update_buf := b\<rparr> \<and> heap_inv (st\<lparr>ds_heap := h, ds_update_buf := b\<rparr>) \<and>
    agg_of (st\<lparr>ds_heap := h, ds_update_buf := b\<rparr>) = agg_of st \<and> ub_merged (b key) = Some m \<and> m \<noteq> r \<and>
    cell (st\<lparr>ds_heap := h, ds_update_buf := b\<rparr>) r = cell st r"
proof (cases "ub_merged (ds_update_buf st key)")
  case (Some m)
  then show ?thesis using inv r(2)[of key] by (intro exI[of _ m] exI[of _ "ds_heap st"] exI[of _ "ds_update_buf st"]) (simp add: ensure_merged_def)
next
  case None
  obtain m st1 where new: "heap_new (dl_nd L) n d st = (m, st1)" by (metis surj_pair)
  note f = heap_new_grown[OF new]
  obtain h where h: "st1 = st\<lparr>ds_heap := h\<rparr>" using f by (auto simp: grown_def)
  define b where "b = (ds_update_buf st)(key := (ds_update_buf st key)\<lparr>ub_merged := Some m\<rparr>)"
  define st2 where "st2 = st\<lparr>ds_heap := h, ds_update_buf := b\<rparr>"
  have inv1: "heap_inv st1" using grown_heap_inv[OF _ inv] f by blast
  have c: "cell st2 = cell st1" "ds_store st2 = ds_store st" "ds_heap st2 = ds_heap st1" "ds_update_buf st2 = b" "ds_initialized st2 = ds_initialized st"
    by (simp_all add: st2_def h fun_eq_iff cell_def)
  have c1: "ds_store st1 = ds_store st" "ds_update_buf st1 = ds_update_buf st" by (simp_all add: h)
  have old: "x < m" if "ds_store st k = Some x \<or> ub_merged (ds_update_buf st k) = Some x" for k x
    using heap_invD(5,6)[OF inv] that f by auto
  have am: "a < m" using old a(1) by blast
  have "cell st1 a = cell st a" using grown_cell[of st st1 a] f am by simp
  then have mok: "merged_ok st2 key m" using f a unfolding merged_ok_def c by auto
  have s: "stored_ok st2 k x" if "ds_store st k = Some x" for k x
    using heap_invD(1)[OF inv1, of k x] that by (simp add: stored_ok_def c h)
  have m: "merged_ok st2 k x" if "ub_merged (b k) = Some x" for k x
    using heap_invD(2)[OF inv1, of k x] that mok by (cases "k = key") (auto simp: merged_ok_def c h b_def)
  have sep: "separate (ds_store st) b"
    using heap_invD(4)[OF inv] old unfolding separate_def b_def by (auto split: if_splits; metis less_irrefl)
  have "heap_inv st2" using s m sep heap_invD(3)[OF inv] by (auto simp: heap_inv_def c b_def)
  moreover have "round_of st2 = round_of st1"
    using heap_invD(3)[OF inv None] None c1 by (intro ext) (auto simp: round_of_def c(1,2,4) b_def Let_def split: option.split)
  then have "agg_of st2 = agg_of st" using grown_agg[of st st1] f inv by (simp add: agg_of_def st2_def h)
  moreover have "cell st2 r = cell st r" using grown_cell[of st st1 r] f r(1) c(1) by simp
  ultimately show ?thesis using None new f r(1)
    by (intro exI[of _ m] exI[of _ h] exI[of _ b]) (simp add: st2_def[symmetric] ensure_merged_def set_updates_def, simp add: st2_def h b_def)
qed

lemma merged_facts:
  assumes "heap_inv st" "ds_store st key = Some a" "ub_merged (ds_update_buf st key) = Some m"
  shows "m \<noteq> a" "nd_dtype (cell st m) = nd_dtype (cell st a)" "length (nd_bytes (cell st m)) = length (nd_bytes (cell st a))"
    "\<And>k x. k \<noteq> key \<Longrightarrow> ds_store st k = Some x \<or> ub_merged (ds_update_buf st k) = Some x \<Longrightarrow> x \<noteq> m \<and> x \<noteq> a"
  using heap_invD(2)[OF assms(1,3)] heap_invD(4)[OF assms(1)] assms(2,3)
  by (auto simp: merged_ok_def separate_def)

lemma accumulate_ok:
  assumes "heap_inv st" "ds_store st key = Some a" "ub_merged (ds_update_buf st key) = Some m" "m \<noteq> r"
    and "cell st r = \<lparr>nd_dtype = nd_dtype (cell st a), nd_bytes = vals\<rparr>" "length vals = length (nd_bytes (cell st a))"
  shows "accumulate L False key r st = Inr (heap_write m
    (if ub_request (ds_update_buf st key) = [] then vals else nl_add (dl_nd L) (nd_dtype (cell st a)) (nd_bytes (cell st m)) vals) st)"
proof -
  note m = merged_facts[OF assms(1-3)]
  have "nd_size (cell st r) = nd_size (cell st m)" using assms(5,6) m(2,3) by (simp add: nd_size_def)
  then show ?thesis using assms(3-6) m(2)
    by (auto simp: accumulate_def handle_def heap_run_def CopyFromTo_def nd_iadd_def cell_def heap_write_def chk_def Let_def)
qed

lemma merge_ok:
  assumes inv: "heap_inv st" and m: "ds_store st key = Some a" "ub_merged (ds_update_buf st key) = Some m"
    and len: "length bs = length (nd_bytes (cell st a))"
    and st': "st' = add_requests key reqs (heap_write m bs st)"
  shows "heap_inv st'" "agg_of st' = (agg_of st)\<lparr>ag_rounds := (round_of st)(key := \<lparr>rd_value = Some (cell st a),
      rd_sum = (if ub_request (ds_update_buf st key) @ reqs = [] then [] else bs), rd_waiting = ub_request (ds_update_buf st key) @ reqs\<rparr>)\<rparr>"
proof -
  note f = merged_facts[OF inv m]
  show "heap_inv st'"
    by (rule heap_inv_cong[OF inv]) (use len f(3) m(2) heap_invD(3)[OF inv] in
      \<open>auto simp: st' add_requests_def set_updates_def Let_def split: if_splits\<close>)
  have "round_of st' k = ((round_of st)(key := \<lparr>rd_value = Some (cell st a),
      rd_sum = (if ub_request (ds_update_buf st key) @ reqs = [] then [] else bs), rd_waiting = ub_request (ds_update_buf st key) @ reqs\<rparr>)) k" for k
  proof (cases "k = key")
    case False
    have "\<And>x. ds_store st k = Some x \<Longrightarrow> x \<noteq> m" "\<And>x. ub_merged (ds_update_buf st k) = Some x \<Longrightarrow> x \<noteq> m" using f(4)[OF False] by auto
    then show ?thesis using False by (cases "ds_store st k"; cases "ub_merged (ds_update_buf st k)")
        (auto simp: st' round_of_def add_requests_def set_updates_def Let_def)
  qed (use m f(1) in \<open>auto simp: st' round_of_def add_requests_def set_updates_def Let_def\<close>)
  then show "agg_of st' = (agg_of st)\<lparr>ag_rounds := (round_of st)(key := \<lparr>rd_value = Some (cell st a),
      rd_sum = (if ub_request (ds_update_buf st key) @ reqs = [] then [] else bs), rd_waiting = ub_request (ds_update_buf st key) @ reqs\<rparr>)\<rparr>"
    by (auto simp: agg_of_def st' add_requests_def set_updates_def Let_def)
qed

lemma ApplyUpdates_ok:
  assumes inv: "heap_inv st" and m: "ds_store st key = Some a" "ub_merged (ds_update_buf st key) = Some m"
    and r: "is_global_server st" "\<not> ds_multi_precision st" "\<not> ds_stopped st"
    and u: "updated (dl_updater L) key (nd_bytes (cell st m)) (cell st a) (ds_optimizer st) = (v, opt)"
  shows "ApplyUpdates L type key True False req data st = Inr ((heap_write a (nd_bytes v) st)\<lparr>ds_optimizer := opt\<rparr>) \<and>
    v = (cell st a)\<lparr>nd_bytes := nd_bytes v\<rparr>"
proof -
  note f = merged_facts[OF inv m]
  have sz: "nd_size (cell st m) = nd_size (cell st a)" using f(2,3) by (simp add: nd_size_def)
  have mc: "\<lparr>nd_dtype = nd_dtype (cell st a), nd_bytes = nd_bytes (cell st m)\<rparr> = cell st m" using f(2) by (cases "cell st m") simp
  show ?thesis
  proof (cases "dl_updater L")
    case None
    then show ?thesis using u m r(2) f(1,2) sz
      by (auto simp: ApplyUpdates_def updated_def has_multi_precision_copy_def stored_ref_def handle_def heap_run_def CopyFromTo_def
          cell_def heap_write_def chk_def Let_def)
  next
    case (Some g)
    then show ?thesis using u m r mc
      by (auto simp: ApplyUpdates_def updated_def has_multi_precision_copy_def stored_ref_def handle_def run_updater_def Exec_def Let_def
          split: prod.splits)
  qed
qed

lemma apply_clear_ok:
  assumes inv: "heap_inv st" and m: "ds_store st key = Some a" "ub_merged (ds_update_buf st key) = Some m"
    and v: "v = (cell st a)\<lparr>nd_bytes := nd_bytes v\<rparr>" "length (nd_bytes v) = length (nd_bytes (cell st a))"
    and st': "st' = clear_requests key ((heap_write a (nd_bytes v) st)\<lparr>ds_optimizer := opt, ks_proc := p\<rparr>)"
  shows "heap_inv st'" "agg_of st' = \<lparr>ag_rounds = (round_of st)(key := \<lparr>rd_value = Some v, rd_sum = [], rd_waiting = []\<rparr>),
    ag_optimizer = opt, ag_outbox = van_outbox (pr_van p)\<rparr>"
proof -
  note f = merged_facts[OF inv m]
  show "heap_inv st'"
    by (rule heap_inv_cong[OF inv]) (use v(2) heap_invD(3)[OF inv] in
      \<open>auto simp: st' clear_requests_def set_updates_def\<close>)
  have "round_of st' k = ((round_of st)(key := \<lparr>rd_value = Some v, rd_sum = [], rd_waiting = []\<rparr>)) k" for k
  proof (cases "k = key")
    case False
    have "\<And>x. ds_store st k = Some x \<Longrightarrow> x \<noteq> a" "\<And>x. ub_merged (ds_update_buf st k) = Some x \<Longrightarrow> x \<noteq> a" using f(4)[OF False] by auto
    then show ?thesis using False by (cases "ds_store st k"; cases "ub_merged (ds_update_buf st k)")
        (auto simp: st' round_of_def clear_requests_def set_updates_def Let_def)
  qed (use m v(1) in \<open>auto simp: st' round_of_def clear_requests_def set_updates_def Let_def\<close>)
  then show "agg_of st' = \<lparr>ag_rounds = (round_of st)(key := \<lparr>rd_value = Some v, rd_sum = [], rd_waiting = []\<rparr>),
    ag_optimizer = opt, ag_outbox = van_outbox (pr_van p)\<rparr>"
    by (auto simp: agg_of_def st' clear_requests_def set_updates_def)
qed

lemma finish_global_ok:
  assumes ready: "global_ready L c krs rank st" and inv: "heap_inv st" and lib: "lib_ok L"
    and m: "ds_store st key = Some a" "ub_merged (ds_update_buf st key) = Some m"
    and u: "updated (dl_updater L) key (nd_bytes (cell st m)) (cell st a) (ds_optimizer st) = (v, opt)"
    and w: "w = ub_request (ds_update_buf st key)"
  shows "\<exists>st'. finish_global L type key False req data st = Inr st' \<and> global_ready L c krs rank st' \<and> heap_inv st' \<and>
    pr_po (ks_proc st') = pr_po (ks_proc st) \<and>
    agg_of st' = (if length w = global_quota st
      then \<lparr>ag_rounds = (round_of st)(key := \<lparr>rd_value = Some v, rd_sum = [], rd_waiting = []\<rparr>), ag_optimizer = opt,
             ag_outbox = van_outbox (pr_van (ks_proc st)) @ map (answer (cu_app_id c)) w\<rparr>
      else agg_of st)"
proof (cases "length w = global_quota st")
  case False
  then show ?thesis using ready inv w by (simp add: finish_global_def)
next
  case True
  have g: "is_global_server st" "\<not> ds_multi_precision st" "\<not> ds_stopped st" "van_resender (pr_van (ks_proc st)) = None"
    "pr_cust (ks_proc st) (ks_this st) = Some c" using ready by (auto simp: global_ready_def)
  note ap = ApplyUpdates_ok[OF inv m g(1-3) u, of type req data]
  have len: "length (nd_bytes v) = length (nd_bytes (cell st a))"
  proof (cases "dl_updater L")
    case (Some f)
    have "length (fst (f key \<lparr>nd_dtype = nd_dtype (cell st a), nd_bytes = nd_bytes (cell st m)\<rparr> (cell st a) (ds_optimizer st))) = length (nd_bytes (cell st a))"
      using lib Some merged_facts(3)[OF inv m] by (simp add: lib_ok_def)
    then show ?thesis using u Some by (auto simp: updated_def split: prod.splits)
  qed (use u merged_facts(3)[OF inv m] in \<open>auto simp: updated_def\<close>)
  define st1 where "st1 = (heap_write a (nd_bytes v) st)\<lparr>ds_optimizer := opt\<rparr>"
  have f1: "ks_proc st1 = ks_proc st" "ks_this st1 = ks_this st" "ds_update_buf st1 = ds_update_buf st"
    by (simp_all add: st1_def heap_write_def)
  from respond_each_ok[of st1 c L "\<lambda>req. km_sender req < kOffset" w] g lib f1 obtain p where
    p: "respond_each L (\<lambda>req. km_sender req < kOffset) w st1 = Inr (st1\<lparr>ks_proc := p\<rparr>)" "sent_only (ks_proc st) p"
      "van_resender (pr_van p) = None"
      "van_outbox (pr_van p) = van_outbox (pr_van (ks_proc st)) @ map (\<lambda>r. (response_msg (cu_app_id c) r, chan (km_sender r < kOffset))) w"
    by auto
  define st' where "st' = clear_requests key (st1\<lparr>ks_proc := p\<rparr>)"
  have run: "finish_global L type key False req data st = Inr st'"
    using True w ap p(1) by (simp add: finish_global_def st1_def[symmetric] f1 st'_def)
  have e: "st' = clear_requests key ((heap_write a (nd_bytes v) st)\<lparr>ds_optimizer := opt, ks_proc := p\<rparr>)"
    by (simp add: st'_def st1_def)
  note cl = apply_clear_ok[OF inv m _ len e]
  have "global_ready L c krs rank st'"
    by (rule ready_cong[OF ready]) (use p in \<open>simp_all add: e clear_requests_def set_updates_def heap_write_def\<close>)
  moreover have "pr_po (ks_proc st') = pr_po (ks_proc st)"
    using sent_only_fields(2)[OF p(2)] by (simp add: e clear_requests_def set_updates_def)
  ultimately show ?thesis using run cl ap True p(4) by (auto simp: answer_def[abs_def])
qed

lemma init_stored_ok:
  assumes inv: "heap_inv st" and none: "ds_store st key = None" and d: "real_type d" "length vals = n * elem_size d"
    and r: "cell st r = \<lparr>nd_dtype = d, nd_bytes = vals\<rparr>" "r < hp_next (ds_heap st)"
  shows "\<exists>h ks. let st' = st\<lparr>ds_heap := h, ds_store := (ds_store st)(key \<mapsto> hp_next (ds_heap st)), ds_store_keys := ks\<rparr> in
    init_stored L \<lparr>dh_requestType = q, dh_dtype = d\<rparr> False key n r st = Inr st' \<and>
    heap_inv (st'\<lparr>ds_initialized := (ds_initialized st)(key := True)\<rparr>) \<and>
    round_of st' = (round_of st)(key := (round_of st key)\<lparr>rd_value := Some \<lparr>nd_dtype = d, nd_bytes = vals\<rparr>\<rparr>)"
proof -
  define a where "a = hp_next (ds_heap st)"
  obtain st1 where new: "heap_new (dl_nd L) n d st = (a, st1)" using heap_new_grown[of "dl_nd L" n d st] by (metis a_def surj_pair)
  note f = heap_new_grown[OF new]
  obtain h1 where h1: "st1 = st\<lparr>ds_heap := h1\<rparr>" using f by (auto simp: grown_def)
  have cr: "cell st1 r = cell st r" using grown_cell[of st st1 r] f r(2) by simp
  define h where "h = nd_set a vals h1"
  define ks where "ks = List.insert key (ds_store_keys st)"
  define st' where "st' = st\<lparr>ds_heap := h, ds_store := (ds_store st)(key \<mapsto> a), ds_store_keys := ks\<rparr>"
  have ra: "r \<noteq> a" using r(2) a_def by simp
  have cells: "cell st' x = (if x = a then \<lparr>nd_dtype = d, nd_bytes = vals\<rparr> else cell st1 x)" for x
    using f by (cases "cell st1 a") (auto simp: st'_def cell_def h_def nd_set_def h1)
  have hc: "hp_cell h1 r = \<lparr>nd_dtype = d, nd_bytes = vals\<rparr>" using cr r(1) by (simp add: cell_def h1)
  have ha: "nd_dtype (hp_cell h1 a) = d" "length (nd_bytes (hp_cell h1 a)) = n * elem_size d" using f by (auto simp: cell_def h1)
  have "nd_size (hp_cell h1 r) = nd_size (hp_cell h1 a)" using hc ha d(2) by (simp add: nd_size_def)
  then have run: "init_stored L \<lparr>dh_requestType = q, dh_dtype = d\<rparr> False key n r st = Inr st'"
    using new ra hc ha by (simp add: init_stored_def new_dtype_def set_stored_def set_store_def heap_run_def CopyFromTo_def chk_def
        h1 st'_def h_def ks_def Let_def)
  have old: "x < a" if "ds_store st k = Some x \<or> ub_merged (ds_update_buf st k) = Some x" for k x
    using heap_invD(5,6)[OF inv] that a_def by auto
  have same: "cell st' x = cell st x" if "x < a" for x using that cells[of x] grown_cell[of st st1 x] f by simp
  have nm: "ub_merged (ds_update_buf st key) = None"
  proof (cases "ub_merged (ds_update_buf st key)")
    case (Some m) with heap_invD(2)[OF inv Some] none show ?thesis by (simp add: merged_ok_def)
  qed
  define st2 where "st2 = st'\<lparr>ds_initialized := (ds_initialized st)(key := True)\<rparr>"
  have f2: "cell st2 = cell st'" "ds_store st2 = (ds_store st)(key \<mapsto> a)" "ds_update_buf st2 = ds_update_buf st"
    "hp_next (ds_heap st2) = a + 1" "ds_initialized st2 = (ds_initialized st)(key := True)"
    using f by (auto simp: st2_def st'_def h_def nd_set_def h1)
  have s: "stored_ok st2 k x" if "ds_store st2 k = Some x" for k x
  proof (cases "k = key")
    case True
    then show ?thesis using that d cells[of a] by (simp add: f2 stored_ok_def nd_size_def)
  next
    case False
    then have "ds_store st k = Some x" using that f2(2) by simp
    from heap_invD(1)[OF inv this] same[of x] old[of k x] this show ?thesis by (simp add: stored_ok_def f2 a_def)
  qed
  have m: "merged_ok st2 k m" if "ub_merged (ds_update_buf st k) = Some m" for k m
  proof -
    from heap_invD(2)[OF inv that] obtain x where x: "ds_store st k = Some x" "nd_dtype (cell st m) = nd_dtype (cell st x)"
      "length (nd_bytes (cell st m)) = length (nd_bytes (cell st x))" by (auto simp: merged_ok_def)
    have "m < a" "x < a" "k \<noteq> key" using old[of k] that x(1) none by auto
    then show ?thesis using x same by (simp add: merged_ok_def f2)
  qed
  have "separate (ds_store st2) (ds_update_buf st2)"
    using heap_invD(4)[OF inv] old none unfolding separate_def f2 by (auto split: if_splits; metis less_irrefl)
  then have inv2: "heap_inv st2" using s m heap_invD(3)[OF inv] by (simp add: heap_inv_def f2)
  have "round_of st' k = ((round_of st)(key := (round_of st key)\<lparr>rd_value := Some \<lparr>nd_dtype = d, nd_bytes = vals\<rparr>\<rparr>)) k" for k
  proof (cases "k = key")
    case True
    then show ?thesis using nm heap_invD(3)[OF inv nm] cells[of a] by (simp add: round_of_def st'_def Let_def)
  next
    case False
    have fs: "ds_store st' k = ds_store st k" "ds_update_buf st' k = ds_update_buf st k" using False by (simp_all add: st'_def)
    show ?thesis using False old[of k] same by (cases "ds_store st k"; cases "ub_merged (ds_update_buf st k)") (auto simp: round_of_def fs Let_def)
  qed
  then have "round_of st' = (round_of st)(key := (round_of st key)\<lparr>rd_value := Some \<lparr>nd_dtype = d, nd_bytes = vals\<rparr>\<rparr>)" by blast
  then show ?thesis using run inv2 unfolding Let_def a_def[symmetric] st2_def
    by (intro exI[of _ h] exI[of _ ks]) (simp add: st'_def[symmetric])
qed

subsection \<open>Handlers\<close>

lemma depair_default: "real_type d \<Longrightarrow> DepairDataHandleType (GetCommandType kDefaultPushPull d) = Inr \<lparr>dh_requestType = kDefaultPushPull, dh_dtype = d\<rparr>"
  unfolding real_type_def
  by (elim disjE; simp add: DepairDataHandleType_def GetCommandType_def tri_root_def tri_root_from.simps cdiv_def RequestType_of_int_def
      defined_def chk_def)

lemma agg_push_None:
  "rd_value (ag_rounds A key) = None \<Longrightarrow> agg_push add upd app quota central d key req vals A =
     A\<lparr>ag_rounds := (ag_rounds A)(key := (ag_rounds A key)\<lparr>rd_value := Some \<lparr>nd_dtype = d, nd_bytes = vals\<rparr>\<rparr>),
       ag_outbox := ag_outbox A @ [(response_msg app req, Local)]\<rparr>"
  by (simp add: agg_push_def)

text \<open>A push that opens its key.\<close>

lemma push_first:
  assumes ready: "global_ready L c krs rank st" and inv: "heap_inv st" and lib: "lib_ok L" and none: "ds_store st key = None"
    and v: "int32 key" "real_type d" "length vals = n * elem_size d" and req: "km_push req"
    and data: "data = \<lparr>kv_keys = [range_begin (krs ! rank) + word_of_int key], kv_vals = vals, kv_lens = [int (length vals)], kv_priority = 0\<rparr>"
  shows "\<exists>st'. DataHandleSyncDefault L \<lparr>dh_requestType = q, dh_dtype = d\<rparr> req data st = Inr st' \<and>
    global_ready L c krs rank st' \<and> heap_inv st' \<and> pr_po (ks_proc st') = pr_po (ks_proc st) \<and>
    agg_of st' = (agg_of st)\<lparr>ag_rounds := (round_of st)(key := (round_of st key)\<lparr>rd_value := Some \<lparr>nd_dtype = d, nd_bytes = vals\<rparr>\<rparr>),
      ag_outbox := van_outbox (pr_van (ks_proc st)) @ [(response_msg (cu_app_id c) req, Local)]\<rparr>"
proof -
  note g = ready[unfolded global_ready_def]
  from wrap_grown[OF v(2,3), of st] obtain st1 where
    w: "heap_get (nd_wrap d n vals) st = Inr (hp_next (ds_heap st), st1)" "grown st st1" "hp_next (ds_heap st1) = hp_next (ds_heap st) + 1"
      "cell st1 (hp_next (ds_heap st)) = \<lparr>nd_dtype = d, nd_bytes = vals\<rparr>" by blast
  define r where "r = hp_next (ds_heap st)"
  obtain h1 where h1: "st1 = st\<lparr>ds_heap := h1\<rparr>" using w(2) by (auto simp: grown_def)
  have inv1: "heap_inv st1" using grown_heap_inv[OF w(2) inv] .
  have none1: "ds_store st1 key = None" using none by (simp add: h1)
  have rr: "cell st1 r = \<lparr>nd_dtype = d, nd_bytes = vals\<rparr>" "r < hp_next (ds_heap st1)" using w by (simp_all add: r_def)
  from init_stored_ok[OF inv1 none1 v(2,3) rr, of L q] obtain h ks st2 where
    st2: "st2 = st1\<lparr>ds_heap := h, ds_store := (ds_store st1)(key \<mapsto> hp_next (ds_heap st1)), ds_store_keys := ks\<rparr>"
      "init_stored L \<lparr>dh_requestType = q, dh_dtype = d\<rparr> False key n r st1 = Inr st2"
      "heap_inv (st2\<lparr>ds_initialized := (ds_initialized st1)(key := True)\<rparr>)"
      "round_of st2 = (round_of st1)(key := (round_of st1 key)\<lparr>rd_value := Some \<lparr>nd_dtype = d, nd_bytes = vals\<rparr>\<rparr>)"
    unfolding Let_def by blast
  have f: "ks_proc st2 = ks_proc st" "ks_this st2 = ks_this st" by (simp_all add: st2(1) h1)
  from respond_ok[of st2 c L req False] g f lib obtain p where
    p: "respond L req False st2 = Inr (st2\<lparr>ks_proc := p\<rparr>)" "sent_only (ks_proc st) p" "van_resender (pr_van p) = None"
      "van_outbox (pr_van p) = van_outbox (pr_van (ks_proc st)) @ [(response_msg (cu_app_id c) req, chan False)]" by auto
  define st' where "st' = st2\<lparr>ks_proc := p, ds_initialized := (ds_initialized st2)(key := True)\<rparr>"
  have k: "request_key data st = Inr (key, st)"
    using DecodeKey_ready[OF ready v(1)] g by (simp add: request_key_def data)
  have nn: "length vals div elem_size d = n" using v(3) by simp
  have mp: "has_multi_precision_copy \<lparr>dh_requestType = q, dh_dtype = d\<rparr> st = False" "is_global_server st2" "ds_sync_global_mode st"
    using g by (auto simp: has_multi_precision_copy_def is_global_server_def f)
  have run: "DataHandleSyncDefault L \<lparr>dh_requestType = q, dh_dtype = d\<rparr> req data st = Inr st'"
    unfolding DataHandleSyncDefault_def using k mp req w(1) real_sizeof[OF v(2)] nn none1 st2(2) p(1)
    by (simp add: data chk_def stored_ref_def r_def st'_def Let_def)
  have "global_ready L c krs rank st'"
    by (rule ready_cong[OF ready]) (use p in \<open>simp_all add: st'_def st2(1) h1\<close>)
  moreover have "heap_inv st'"
    by (rule heap_inv_cong[OF st2(3)]) (use heap_invD(3)[OF inv] in \<open>simp_all add: st'_def st2(1) h1\<close>)
  moreover have "round_of st' = round_of st2" by (intro ext) (simp add: round_of_def st'_def Let_def split: option.split)
  then have "agg_of st' = (agg_of st)\<lparr>ag_rounds := (round_of st)(key := (round_of st key)\<lparr>rd_value := Some \<lparr>nd_dtype = d, nd_bytes = vals\<rparr>\<rparr>),
      ag_outbox := van_outbox (pr_van (ks_proc st)) @ [(response_msg (cu_app_id c) req, Local)]\<rparr>"
    using st2(4) grown_agg[OF w(2) inv] p(4) by (simp add: agg_of_def st'_def st2(1) h1 chan_def)
  ultimately show ?thesis using run sent_only_fields(2)[OF p(2)] by (auto simp: st'_def)
qed

text \<open>A later push: the sum is in the buffer, then the round may be complete.\<close>

lemma agg_push_Some:
  assumes "rd_value r = Some v" "r = ag_rounds A key"
    and "acc = (if rd_waiting r = [] then vals else add d (rd_sum r) vals)" "w = rd_waiting r @ replicate (nat (km_num_merge req)) req"
    and "updated upd key acc v (ag_optimizer A) = (v', opt)" "\<not> (from_central req \<and> \<not> central)"
  shows "agg_push add upd app quota central d key req vals A =
    (if length w = quota then A\<lparr>ag_rounds := (ag_rounds A)(key := \<lparr>rd_value = Some v', rd_sum = [], rd_waiting = []\<rparr>),
       ag_optimizer := opt, ag_outbox := ag_outbox A @ map (answer app) w\<rparr>
     else A\<lparr>ag_rounds := (ag_rounds A)(key := \<lparr>rd_value = Some v, rd_sum = (if w = [] then [] else acc), rd_waiting = w\<rparr>)\<rparr>)"
  unfolding agg_push_def Let_def assms(2)[symmetric] assms(1) option.case(2) assms(3,4)[symmetric] assms(5) prod.case
  using assms(6) by (simp only: if_False)

lemma merge_finish:
  assumes ready: "global_ready L c krs rank st" and inv: "heap_inv st" and lib: "lib_ok L"
    and m: "ds_store st key = Some a" "ub_merged (ds_update_buf st key) = Some m" "m \<noteq> r"
    and r: "cell st r = \<lparr>nd_dtype = nd_dtype (cell st a), nd_bytes = vals\<rparr>" "length vals = length (nd_bytes (cell st a))"
    and ig: "\<not> (from_central req \<and> \<not> po_enable_central_workers (pr_po (ks_proc st)))"
  shows "\<exists>st1 st'. accumulate L False key r st = Inr st1 \<and>
    finish_global L type key False req data (add_requests key (replicate (nat (km_num_merge req)) req) st1) = Inr st' \<and>
    is_global_server (add_requests key (replicate (nat (km_num_merge req)) req) st1) \<and>
    ks_enable_inter_ts (add_requests key (replicate (nat (km_num_merge req)) req) st1) = 0 \<and>
    global_ready L c krs rank st' \<and> heap_inv st' \<and> pr_po (ks_proc st') = pr_po (ks_proc st) \<and>
    agg_of st' = agg_push (nl_add (dl_nd L)) (dl_updater L) (cu_app_id c) (global_quota st)
      (po_enable_central_workers (pr_po (ks_proc st))) (nd_dtype (cell st a)) key req vals (agg_of st)"
proof -
  define d where "d = nd_dtype (cell st a)"
  define reqs where "reqs = replicate (nat (km_num_merge req)) req"
  define u where "u = ub_request (ds_update_buf st key)"
  define acc where "acc = (if u = [] then vals else nl_add (dl_nd L) d (nd_bytes (cell st m)) vals)"
  note f = merged_facts[OF inv m(1,2)]
  have len: "length acc = length (nd_bytes (cell st a))" using lib r(2) f(3) by (simp add: acc_def lib_ok_def)
  have run1: "accumulate L False key r st = Inr (heap_write m acc st)" using accumulate_ok[OF inv m r, of L] by (simp add: acc_def u_def d_def)
  define st2 where "st2 = add_requests key reqs (heap_write m acc st)"
  note mo = merge_ok[OF inv m(1,2) len st2_def]
  have p2: "ks_proc st2 = ks_proc st" "ds_store st2 = ds_store st" "ds_optimizer st2 = ds_optimizer st"
    "ub_merged (ds_update_buf st2 key) = Some m" "ub_request (ds_update_buf st2 key) = u @ reqs"
    using m by (simp_all add: st2_def add_requests_def set_updates_def u_def Let_def)
  have c2: "cell st2 a = cell st a" "nd_bytes (cell st2 m) = acc" using f(1) by (simp_all add: st2_def add_requests_def set_updates_def Let_def)
  have ready2: "global_ready L c krs rank st2"
    by (rule ready_cong[OF ready]) (use ready in \<open>simp_all add: st2_def add_requests_def set_updates_def heap_write_def global_ready_def Let_def\<close>)
  have "ds_store st2 key = Some a" using p2(2) m(1) by simp
  obtain v opt where upd: "updated (dl_updater L) key acc (cell st a) (ds_optimizer st) = (v, opt)" by (metis surj_pair)
  have upd2: "updated (dl_updater L) key (nd_bytes (cell st2 m)) (cell st2 a) (ds_optimizer st2) = (v, opt)" using upd c2 p2(3) by simp
  have q2: "global_quota st2 = global_quota st" by (simp add: global_quota_def p2)
  from finish_global_ok[OF ready2 mo(1) lib \<open>ds_store st2 key = Some a\<close> p2(4) upd2 p2(5)[symmetric], of type req data] obtain st' where
    st': "finish_global L type key False req data st2 = Inr st'" "global_ready L c krs rank st'" "heap_inv st'"
      "pr_po (ks_proc st') = pr_po (ks_proc st)"
      "agg_of st' = (if length (u @ reqs) = global_quota st
        then \<lparr>ag_rounds = (round_of st2)(key := \<lparr>rd_value = Some v, rd_sum = [], rd_waiting = []\<rparr>), ag_optimizer = opt,
               ag_outbox = van_outbox (pr_van (ks_proc st)) @ map (answer (cu_app_id c)) (u @ reqs)\<rparr>
        else agg_of st2)" unfolding q2 p2(1) by blast
  have rd: "rd_value (round_of st key) = Some (cell st a)" "rd_waiting (round_of st key) = u"
    "u \<noteq> [] \<Longrightarrow> rd_sum (round_of st key) = nd_bytes (cell st m)" using m by (simp_all add: round_of_def u_def Let_def)
  have ag: "ag_rounds (agg_of st) = round_of st" "ag_optimizer (agg_of st) = ds_optimizer st" "ag_outbox (agg_of st) = van_outbox (pr_van (ks_proc st))"
    by (simp_all add: agg_of_def)
  have acc': "acc = (if rd_waiting (round_of st key) = [] then vals else nl_add (dl_nd L) d (rd_sum (round_of st key)) vals)"
    using rd by (simp add: acc_def)
  have "agg_push (nl_add (dl_nd L)) (dl_updater L) (cu_app_id c) (global_quota st) (po_enable_central_workers (pr_po (ks_proc st))) d key req vals (agg_of st) =
    (if length (u @ reqs) = global_quota st then (agg_of st)\<lparr>ag_rounds := (round_of st)(key := \<lparr>rd_value = Some v, rd_sum = [], rd_waiting = []\<rparr>),
       ag_optimizer := opt, ag_outbox := van_outbox (pr_van (ks_proc st)) @ map (answer (cu_app_id c)) (u @ reqs)\<rparr>
     else (agg_of st)\<lparr>ag_rounds := (round_of st)(key := \<lparr>rd_value = Some (cell st a), rd_sum = (if u @ reqs = [] then [] else acc), rd_waiting = u @ reqs\<rparr>)\<rparr>)"
    using agg_push_Some[where r = "round_of st key" and A = "agg_of st" and key = key and v = "cell st a" and acc = acc and w = "u @ reqs" and
        add = "nl_add (dl_nd L)" and d = d and vals = vals and req = req and upd = "dl_updater L" and v' = v and opt = opt and
        app = "cu_app_id c" and quota = "global_quota st"] upd ig acc' unfolding ag rd(2) reqs_def by (simp add: rd(1))
  moreover have "round_of st2 = (round_of st)(key := \<lparr>rd_value = Some (cell st a), rd_sum = (if u @ reqs = [] then [] else acc), rd_waiting = u @ reqs\<rparr>)"
    using mo(2) by (simp add: agg_of_def u_def)
  ultimately have "agg_of st' = agg_push (nl_add (dl_nd L)) (dl_updater L) (cu_app_id c) (global_quota st)
      (po_enable_central_workers (pr_po (ks_proc st))) d key req vals (agg_of st)"
    using st'(5) mo(2) by (simp add: u_def agg_of_def)
  moreover have "is_global_server st2" "ks_enable_inter_ts st2 = 0" using ready2 by (auto simp: global_ready_def)
  ultimately show ?thesis using run1 st'(1-4) unfolding st2_def reqs_def d_def by blast
qed

lemma push_later:
  assumes ready: "global_ready L c krs rank st" and inv: "heap_inv st" and lib: "lib_ok L"
    and a: "ds_store st key = Some a" "nd_dtype (cell st a) = d" "length (nd_bytes (cell st a)) = length vals"
    and v: "int32 key" "real_type d" "length vals = n * elem_size d" and req: "km_push req"
    and data: "data = \<lparr>kv_keys = [range_begin (krs ! rank) + word_of_int key], kv_vals = vals, kv_lens = [int (length vals)], kv_priority = 0\<rparr>"
  shows "\<exists>st'. DataHandleSyncDefault L \<lparr>dh_requestType = q, dh_dtype = d\<rparr> req data st = Inr st' \<and>
    global_ready L c krs rank st' \<and> heap_inv st' \<and> pr_po (ks_proc st') = pr_po (ks_proc st) \<and>
    agg_of st' = agg_push (nl_add (dl_nd L)) (dl_updater L) (cu_app_id c) (global_quota st)
      (po_enable_central_workers (pr_po (ks_proc st))) d key req vals (agg_of st)"
proof -
  note g = ready[unfolded global_ready_def]
  from wrap_grown[OF v(2,3), of st] obtain st1 where
    w: "heap_get (nd_wrap d n vals) st = Inr (hp_next (ds_heap st), st1)" "grown st st1" "hp_next (ds_heap st1) = hp_next (ds_heap st) + 1"
      "cell st1 (hp_next (ds_heap st)) = \<lparr>nd_dtype = d, nd_bytes = vals\<rparr>" by blast
  define r where "r = hp_next (ds_heap st)"
  obtain h1 where h1: "st1 = st\<lparr>ds_heap := h1\<rparr>" using w(2) by (auto simp: grown_def)
  have inv1: "heap_inv st1" using grown_heap_inv[OF w(2) inv] .
  have ready1: "global_ready L c krs rank st1" by (rule ready_cong[OF ready]) (use g in \<open>simp_all add: h1\<close>)
  have a1: "ds_store st1 key = Some a" "cell st1 a = cell st a" using a(1) grown_cell[OF w(2)] heap_invD(5)[OF inv a(1)] by (simp_all add: h1)
  have k: "request_key data st = Inr (key, st)" using DecodeKey_ready[OF ready v(1)] g by (simp add: request_key_def data)
  have nn: "length vals div elem_size d = n" using v(3) by simp
  have mp: "has_multi_precision_copy \<lparr>dh_requestType = q, dh_dtype = d\<rparr> st = False" "is_global_server st1" "ds_sync_mode st1" "ds_sync_global_mode st"
    using g by (auto simp: has_multi_precision_copy_def is_global_server_def h1)
  have ag: "agg_of st1 = agg_of st" "global_quota st1 = global_quota st" "pr_po (ks_proc st1) = pr_po (ks_proc st)"
    using grown_agg[OF w(2) inv] by (simp_all add: global_quota_def h1)
  have start: "DataHandleSyncDefault L \<lparr>dh_requestType = q, dh_dtype = d\<rparr> req data st =
    (if ignored req st1 then Inr st1
     else rbind (accumulate L False key r (ensure_merged L n d key st1)) (\<lambda>st3.
       let st4 = add_requests key (replicate (nat (km_num_merge req)) req) st3 in
       if is_global_server st4 then finish_global L \<lparr>dh_requestType = q, dh_dtype = d\<rparr> key (ks_enable_inter_ts st4 \<noteq> 0) req data st4
       else finish_local L \<lparr>dh_requestType = q, dh_dtype = d\<rparr> False key st4))"
    unfolding DataHandleSyncDefault_def using k mp req w(1) real_sizeof[OF v(2)] nn a1(1)
    by (simp add: data chk_def stored_ref_def r_def prepare_updates_def new_dtype_def Let_def cong: if_cong)
  show ?thesis
  proof (cases "ignored req st1")
    case True
    have "rd_value (ag_rounds (agg_of st) key) = Some (cell st a)" using a(1) by (simp add: agg_of_def round_of_def Let_def)
    then have "agg_push (nl_add (dl_nd L)) (dl_updater L) (cu_app_id c) (global_quota st)
      (po_enable_central_workers (pr_po (ks_proc st))) d key req vals (agg_of st) = agg_of st"
      using True by (simp add: agg_push_def ignored_def ag(3))
    then show ?thesis using start True ready1 inv1 ag by simp
  next
    case False
    have r1: "r < hp_next (ds_heap st1)" "\<And>k. ub_merged (ds_update_buf st1 k) \<noteq> Some r"
      using w(3) heap_invD(6)[OF inv] by (auto simp: r_def h1)
    have d1: "nd_dtype (cell st1 a) = d" "length (nd_bytes (cell st1 a)) = n * elem_size d" using a a1 v(3) by simp_all
    from ensure_merged_ok[OF inv1 a1(1) d1 r1, of L] obtain m h b st2 where
      st2: "st2 = st1\<lparr>ds_heap := h, ds_update_buf := b\<rparr>" "ensure_merged L n d key st1 = st2" "heap_inv st2" "agg_of st2 = agg_of st1"
        "ub_merged (ds_update_buf st2 key) = Some m" "m \<noteq> r" "cell st2 r = cell st1 r" by auto
    have ready2: "global_ready L c krs rank st2" by (rule ready_cong[OF ready1]) (use ready1 in \<open>simp_all add: st2(1) global_ready_def\<close>)
    have a2: "ds_store st2 key = Some a" using a1 by (simp add: st2(1))
    have "rd_value (ag_rounds (agg_of st2) key) = rd_value (ag_rounds (agg_of st1) key)" using st2(4) by simp
    then have ca: "cell st2 a = cell st a" using a1 a2 by (simp add: agg_of_def round_of_def Let_def)
    have po2: "pr_po (ks_proc st2) = pr_po (ks_proc st)" "global_quota st2 = global_quota st" using ag by (simp_all add: st2(1) global_quota_def)
    from merge_finish[OF ready2 st2(3) lib a2 st2(5,6), of vals req "\<lparr>dh_requestType = q, dh_dtype = d\<rparr>" data]
    obtain st3 st' where f: "accumulate L False key r st2 = Inr st3"
      "finish_global L \<lparr>dh_requestType = q, dh_dtype = d\<rparr> key False req data (add_requests key (replicate (nat (km_num_merge req)) req) st3) = Inr st'"
      "is_global_server (add_requests key (replicate (nat (km_num_merge req)) req) st3)"
      "ks_enable_inter_ts (add_requests key (replicate (nat (km_num_merge req)) req) st3) = 0"
      "global_ready L c krs rank st'" "heap_inv st'" "pr_po (ks_proc st') = pr_po (ks_proc st)"
      "agg_of st' = agg_push (nl_add (dl_nd L)) (dl_updater L) (cu_app_id c) (global_quota st)
        (po_enable_central_workers (pr_po (ks_proc st))) d key req vals (agg_of st)"
      using st2(7) w(4) ca a False ag(1,3) st2(4) unfolding po2 r_def ignored_def by auto
    then show ?thesis using start False by (simp add: st2(2))
  qed
qed

lemma respond_data_ok:
  assumes "van_resender (pr_van (ks_proc st)) = None" "pr_cust (ks_proc st) (ks_this st) = Some c" "lib_ok L"
  shows "\<exists>p. KVServer_Response (dl_kvs L) req \<lparr>kv_keys = [k], kv_vals = vals, kv_lens = [int (length vals)], kv_priority = 0\<rparr> g st =
      Inr (st\<lparr>ks_proc := p\<rparr>) \<and> sent_only (ks_proc st) p \<and> van_resender (pr_van p) = None \<and>
    van_outbox (pr_van p) = van_outbox (pr_van (ks_proc st)) @ [(pull_msg (cu_app_id c) req k vals, chan g)]"
proof -
  have e: "msg_data (response_msg (cu_app_id c) req) = []" "m_data_type (msg_meta (response_msg (cu_app_id c) req)) = []"
    by (simp_all add: response_msg_def empty_Message_def empty_Meta_def)
  have "w_send (sl_world (dl_kvs L)) (pull_msg (cu_app_id c) req k vals) g \<noteq> -1" using assms(3) by (simp add: lib_ok_def)
  from Send_ok[OF assms(1) this] assms(2)
    AddKVs_data[OF e, of vals "\<lparr>kv_keys = [k], kv_vals = vals, kv_lens = [int (length vals)], kv_priority = 0\<rparr>"]
  show ?thesis
    by (auto simp: KVServer_Response_def response_msg_def[symmetric] obj_def srv_proc_def pull_msg_def Let_def)
qed

lemma pull_ok:
  assumes ready: "global_ready L c krs rank st" and inv: "heap_inv st" and lib: "lib_ok L"
    and a: "ds_store st key = Some a" and k: "int32 key" and req: "\<not> km_push req" "cmod (km_sender req) 2 = 1"
    and data: "data = \<lparr>kv_keys = [range_begin (krs ! rank) + word_of_int key], kv_vals = [], kv_lens = [], kv_priority = 0\<rparr>"
  shows "\<exists>p. DataHandlePullDefault L \<lparr>dh_requestType = kDefaultPushPull, dh_dtype = nd_dtype (cell st a)\<rparr> req data st = Inr (st\<lparr>ks_proc := p\<rparr>) \<and>
    sent_only (ks_proc st) p \<and> van_resender (pr_van p) = None \<and>
    van_outbox (pr_van p) = van_outbox (pr_van (ks_proc st)) @
      [(pull_msg (cu_app_id c) req (range_begin (krs ! rank) + word_of_int key) (nd_bytes (cell st a)), chan (km_sender req < kOffset))]"
proof -
  note g = ready[unfolded global_ready_def]
  note ok = heap_invD(1)[OF inv a, unfolded stored_ok_def]
  have rk: "request_key data st = Inr (key, st)" using DecodeKey_ready[OF ready k] g by (simp add: request_key_def data)
  from g have "van_resender (pr_van (ks_proc st)) = None" "pr_cust (ks_proc st) (ks_this st) = Some c" by auto
  from respond_data_ok[OF this lib, of req "range_begin (krs ! rank) + word_of_int key" "nd_bytes (cell st a)" "km_sender req < kOffset"]
  show ?thesis using g ok a req rk real_sizeof[of "nd_dtype (cell st a)"]
    by (simp add: DataHandlePullDefault_def answer_pull_def DefaultStorageResponse_def handle_def memory_def defined_def chk_def data Let_def)
qed

text \<open>One event of either kind.\<close>

lemma run_event_ok:
  assumes ready: "global_ready L c krs rank st" and inv: "heap_inv st" and lib: "lib_ok L" and ok: "event_ok (agg_of st) e"
    and b: "b = range_begin (krs ! rank)"
  shows "\<exists>st'. run_event L b e st = Inr st' \<and> global_ready L c krs rank st' \<and> heap_inv st' \<and>
    pr_po (ks_proc st') = pr_po (ks_proc st) \<and> agg_of st' = agg_step (params_of L c b st) e (agg_of st)"
proof (cases e)
  case (EPush req d key vals)
  define n where "n = length vals div elem_size d"
  have v: "km_push req" "int32 key" "real_type d" "length vals = n * elem_size d" "cmod (km_sender req) 2 = 1"
    "DepairDataHandleType (km_cmd req) = Inr \<lparr>dh_requestType = kDefaultPushPull, dh_dtype = d\<rparr>"
    using ok depair_default[of d] by (auto simp: EPush n_def)
  define data where "data = \<lparr>kv_keys = [range_begin (krs ! rank) + word_of_int key], kv_vals = vals, kv_lens = [int (length vals)], kv_priority = 0\<rparr>"
  have run: "run_event L b e st = DataHandleSyncDefault L \<lparr>dh_requestType = kDefaultPushPull, dh_dtype = d\<rparr> req data st"
    using v ready by (simp add: EPush DataHandleEx_def b data_def global_ready_def)
  show ?thesis
  proof (cases "ds_store st key")
    case None
    from push_first[OF ready inv lib None v(2,3,4,1) data_def, of kDefaultPushPull] show ?thesis using run None
      by (auto simp: EPush params_of_def agg_push_None agg_of_def round_of_def Let_def)
  next
    case (Some a)
    have "nd_dtype (cell st a) = d" "length (nd_bytes (cell st a)) = length vals"
      using ok Some by (simp_all add: EPush agg_of_def round_of_def Let_def)
    from push_later[OF ready inv lib Some this v(2,3,4,1) data_def, of kDefaultPushPull] show ?thesis using run
      by (auto simp: EPush params_of_def)
  qed
next
  case (EPull req key)
  from ok obtain a where a: "ds_store st key = Some a" "km_cmd req = GetCommandType kDefaultPushPull (nd_dtype (cell st a))"
    by (cases "ds_store st key") (auto simp: EPull agg_of_def round_of_def Let_def)
  have v: "\<not> km_push req" "int32 key" "cmod (km_sender req) 2 = 1" using ok by (auto simp: EPull)
  have t: "real_type (nd_dtype (cell st a))" using heap_invD(1)[OF inv a(1)] by (simp add: stored_ok_def)
  from pull_ok[OF ready inv lib a(1) v(2,1,3) refl] obtain p where
    p: "run_event L b e st = Inr (st\<lparr>ks_proc := p\<rparr>)" "sent_only (ks_proc st) p" "van_resender (pr_van p) = None"
      "van_outbox (pr_van p) = van_outbox (pr_van (ks_proc st)) @
        [(pull_msg (cu_app_id c) req (b + word_of_int key) (nd_bytes (cell st a)), chan (km_sender req < kOffset))]"
    using v(1) depair_default[OF t] a(2) by (auto simp: EPull DataHandleEx_def b)
  have "global_ready L c krs rank (st\<lparr>ks_proc := p\<rparr>)" by (rule ready_cong[OF ready]) (use p in simp_all)
  moreover have "heap_inv (st\<lparr>ks_proc := p\<rparr>)" by (rule heap_inv_cong[OF inv]) (use heap_invD(3)[OF inv] in simp_all)
  moreover have "round_of (st\<lparr>ks_proc := p\<rparr>) = round_of st" by (intro ext) (simp add: round_of_def Let_def split: option.split)
  ultimately show ?thesis using p sent_only_fields(2)[OF p(2)] a(1)
    by (intro exI[of _ "st\<lparr>ks_proc := p\<rparr>"]) (simp add: EPull params_of_def agg_of_def, simp add: round_of_def Let_def)
qed

subsection \<open>Runs\<close>

lemma params_of_cong: "pr_po (ks_proc st') = pr_po (ks_proc st) \<Longrightarrow> params_of L c b st' = params_of L c b st"
  by (simp add: params_of_def global_quota_def)

lemma run_events_ok:
  assumes "global_ready L c krs rank st" "heap_inv st" "lib_ok L" "b = range_begin (krs ! rank)"
    and "events_ok (params_of L c b st) es (agg_of st)"
  shows "\<exists>st'. run_events L b es st = Inr st' \<and> global_ready L c krs rank st' \<and> heap_inv st' \<and>
    pr_po (ks_proc st') = pr_po (ks_proc st) \<and> agg_of st' = fold (agg_step (params_of L c b st)) es (agg_of st)"
  using assms(1,2,5)
proof (induction es arbitrary: st)
  case (Cons e es)
  from run_event_ok[OF Cons.prems(1,2) assms(3) _ assms(4), of e] Cons.prems(3) obtain st1 where
    st1: "run_event L b e st = Inr st1" "global_ready L c krs rank st1" "heap_inv st1" "pr_po (ks_proc st1) = pr_po (ks_proc st)"
      "agg_of st1 = agg_step (params_of L c b st) e (agg_of st)" by auto
  have "events_ok (params_of L c b st1) es (agg_of st1)" using Cons.prems(3) by (simp add: params_of_cong[OF st1(4)] st1(5))
  from Cons.IH[OF st1(2,3) this] st1(1,4,5) show ?case by (auto simp: params_of_cong[OF st1(4)])
qed simp

lemma events_ok_append: "events_ok P (es @ es') A \<longleftrightarrow> events_ok P es A \<and> events_ok P es' (fold (agg_step P) es A)"
  by (induction es arbitrary: A) auto

text \<open>The pushes of one round to one key.\<close>

definition pushes :: "int \<Rightarrow> int \<Rightarrow> (KVMeta \<times> bytes) list \<Rightarrow> event list" where
  "pushes d key ps = map (\<lambda>(req, vals). EPush req d key vals) ps"

lemma pushes_snoc:
  "fold (agg_step P) (pushes d key (ps @ [(req, vals)])) A = agg_step P (EPush req d key vals) (fold (agg_step P) (pushes d key ps) A)"
  by (simp add: pushes_def)

fun sum_of :: "(int \<Rightarrow> bytes \<Rightarrow> bytes \<Rightarrow> bytes) \<Rightarrow> int \<Rightarrow> bytes list \<Rightarrow> bytes" where
  "sum_of add d [] = []"
| "sum_of add d (v # vs) = foldl (add d) v vs"

lemma sum_of_snoc: "sum_of add d (vs @ [v]) = (if vs = [] then v else add d (sum_of add d vs) v)"
  by (cases vs) auto

definition push_ok :: "AggParams \<Rightarrow> int \<Rightarrow> nat \<Rightarrow> KVMeta \<times> bytes \<Rightarrow> bool" where
  "push_ok P d n = (\<lambda>(req, vals). km_push req \<and> km_cmd req = GetCommandType kDefaultPushPull d \<and> cmod (km_sender req) 2 = 1 \<and>
     km_num_merge req = 1 \<and> length vals = n \<and> (from_central req \<longrightarrow> ap_central P))"

definition set_round :: "int \<Rightarrow> Round \<Rightarrow> Agg \<Rightarrow> Agg" where
  "set_round key r A = A\<lparr>ag_rounds := (ag_rounds A)(key := r)\<rparr>"

lemma set_round_simps [simp]:
  "set_round key r (set_round key r' A) = set_round key r A" "ag_rounds (set_round key r A) key = r"
  "ag_optimizer (set_round key r A) = ag_optimizer A" "ag_outbox (set_round key r A) = ag_outbox A"
  by (simp_all add: set_round_def)

lemma push_step:
  assumes r: "ag_rounds A key = \<lparr>rd_value = Some v, rd_sum = sum_of (ap_add P) d (map snd ps), rd_waiting = map fst ps\<rparr>"
    and p: "push_ok P d n (req, vals)" and acc: "acc = sum_of (ap_add P) d (map snd (ps @ [(req, vals)]))"
    and u: "updated (ap_updater P) key acc v (ag_optimizer A) = (v', opt)"
  shows "agg_step P (EPush req d key vals) A =
    (if Suc (length ps) = ap_quota P
     then (set_round key \<lparr>rd_value = Some v', rd_sum = [], rd_waiting = []\<rparr> A)\<lparr>ag_optimizer := opt,
       ag_outbox := ag_outbox A @ map (answer (ap_app P) \<circ> fst) (ps @ [(req, vals)])\<rparr>
     else set_round key \<lparr>rd_value = Some v, rd_sum = acc, rd_waiting = map fst (ps @ [(req, vals)])\<rparr> A)"
proof -
  define w where "w = map fst (ps @ [(req, vals)])"
  have a: "acc = (if rd_waiting (ag_rounds A key) = [] then vals else ap_add P d (rd_sum (ag_rounds A key)) vals)"
    using r acc by (simp add: sum_of_snoc)
  have w: "w = rd_waiting (ag_rounds A key) @ replicate (nat (km_num_merge req)) req" using p r by (simp add: w_def push_ok_def)
  have c: "\<not> (from_central req \<and> \<not> ap_central P)" using p by (auto simp: push_ok_def)
  have v: "rd_value (ag_rounds A key) = Some v" using r by simp
  have "length w = Suc (length ps)" "w \<noteq> []" by (simp_all add: w_def)
  then show ?thesis unfolding agg_step.simps agg_push_Some[where add = "ap_add P" and d = d and vals = vals, OF v refl a w u c]
    by (simp only: set_round_def w_def map_map[symmetric] if_False)
qed

lemma round_prefix:
  assumes r: "ag_rounds A key = \<lparr>rd_value = Some v, rd_sum = [], rd_waiting = []\<rparr>" and n: "length ps < ap_quota P"
    and ok: "\<forall>p \<in> set ps. push_ok P (nd_dtype v) (length (nd_bytes v)) p"
  shows "fold (agg_step P) (pushes (nd_dtype v) key ps) A =
    set_round key \<lparr>rd_value = Some v, rd_sum = sum_of (ap_add P) (nd_dtype v) (map snd ps), rd_waiting = map fst ps\<rparr> A"
  using n ok
proof (induction ps rule: rev_induct)
  case Nil
  have "(ag_rounds A)(key := ag_rounds A key) = ag_rounds A" by simp
  then show ?case by (simp add: pushes_def set_round_def r)
next
  case (snoc p ps)
  obtain req vals where p: "p = (req, vals)" by fastforce
  obtain v' opt where u: "updated (ap_updater P) key (sum_of (ap_add P) (nd_dtype v) (map snd (ps @ [p]))) v (ag_optimizer A) = (v', opt)"
    by (metis surj_pair)
  have pre: "fold (agg_step P) (pushes (nd_dtype v) key ps) A =
    set_round key \<lparr>rd_value = Some v, rd_sum = sum_of (ap_add P) (nd_dtype v) (map snd ps), rd_waiting = map fst ps\<rparr> A"
    by (rule snoc.IH) (use snoc.prems in auto)
  have "push_ok P (nd_dtype v) (length (nd_bytes v)) (req, vals)" using snoc.prems(2) by (simp add: p)
  from push_step[where ps = ps and v' = v' and opt = opt and A = "set_round key \<lparr>rd_value = Some v, rd_sum = sum_of (ap_add P) (nd_dtype v) (map snd ps), rd_waiting = map fst ps\<rparr> A",
      OF set_round_simps(2) this refl] u snoc.prems(1) show ?case by (simp add: p pushes_snoc pre)
qed

lemma pushes_ok:
  assumes r: "ag_rounds A key = \<lparr>rd_value = Some v, rd_sum = [], rd_waiting = []\<rparr>" and n: "length ps \<le> ap_quota P"
    and ok: "\<forall>p \<in> set ps. push_ok P (nd_dtype v) (length (nd_bytes v)) p"
    and v: "int32 key" "real_type (nd_dtype v)" "length (nd_bytes v) mod elem_size (nd_dtype v) = 0"
  shows "events_ok P (pushes (nd_dtype v) key ps) A"
  using n ok
proof (induction ps rule: rev_induct)
  case (snoc p ps)
  obtain req vals where p: "p = (req, vals)" by fastforce
  have "fold (agg_step P) (pushes (nd_dtype v) key ps) A =
    set_round key \<lparr>rd_value = Some v, rd_sum = sum_of (ap_add P) (nd_dtype v) (map snd ps), rd_waiting = map fst ps\<rparr> A"
    using round_prefix[OF r, of ps P] snoc.prems by simp
  then show ?case using snoc v by (auto simp: pushes_def p events_ok_append push_ok_def)
qed (simp add: pushes_def)

lemma round_complete:
  assumes r: "ag_rounds A key = \<lparr>rd_value = Some v, rd_sum = [], rd_waiting = []\<rparr>" and n: "length ps = ap_quota P" "ps \<noteq> []"
    and ok: "\<forall>p \<in> set ps. push_ok P (nd_dtype v) (length (nd_bytes v)) p"
    and u: "updated (ap_updater P) key (sum_of (ap_add P) (nd_dtype v) (map snd ps)) v (ag_optimizer A) = (v', opt)"
  shows "fold (agg_step P) (pushes (nd_dtype v) key ps) A = \<lparr>ag_rounds = (ag_rounds A)(key := \<lparr>rd_value = Some v', rd_sum = [], rd_waiting = []\<rparr>),
    ag_optimizer = opt, ag_outbox = ag_outbox A @ map (answer (ap_app P) \<circ> fst) ps\<rparr>"
proof -
  obtain qs p where ps: "ps = qs @ [p]" using n(2) by (metis rev_exhaust)
  obtain req vals where p: "p = (req, vals)" by fastforce
  have pre: "fold (agg_step P) (pushes (nd_dtype v) key qs) A =
    set_round key \<lparr>rd_value = Some v, rd_sum = sum_of (ap_add P) (nd_dtype v) (map snd qs), rd_waiting = map fst qs\<rparr> A"
    using round_prefix[OF r, of qs P] n(1) ok by (simp add: ps)
  have "push_ok P (nd_dtype v) (length (nd_bytes v)) (req, vals)" using ok by (simp add: ps p)
  from push_step[where ps = qs and v' = v' and opt = opt and A = "set_round key \<lparr>rd_value = Some v, rd_sum = sum_of (ap_add P) (nd_dtype v) (map snd qs), rd_waiting = map fst qs\<rparr> A",
      OF set_round_simps(2) this refl] u n(1)
  have "fold (agg_step P) (pushes (nd_dtype v) key ps) A =
    (set_round key \<lparr>rd_value = Some v', rd_sum = [], rd_waiting = []\<rparr> A)\<lparr>ag_optimizer := opt,
       ag_outbox := ag_outbox A @ map (answer (ap_app P) \<circ> fst) ps\<rparr>"
    by (simp add: ps p pushes_snoc pre)
  then show ?thesis by (simp add: set_round_def)
qed

text \<open>
  C3: a global server in synchronous mode implements the aggregation specification. Whatever pushes
  and pulls of whatever keys and senders arrive, in any order, as long as each is well-formed for the
  state it meets, every handler returns, the invariant is kept, and values, sums, waiting requests,
  the optimiser's state and the messages sent are those of the specification.
\<close>

theorem global_server_refines:
  assumes "global_ready L c krs rank st" "heap_inv st" "lib_ok L" "b = range_begin (krs ! rank)"
    and "events_ok (params_of L c b st) es (agg_of st)"
  shows "\<exists>st'. run_events L b es st = Inr st' \<and> global_ready L c krs rank st' \<and> heap_inv st' \<and>
    agg_of st' = fold (agg_step (params_of L c b st)) es (agg_of st)"
  using run_events_ok[OF assms] by blast

text \<open>
  C4: a synchronous round. When as many pushes to a key arrive as the round waits for, the value is
  updated once, with the sum of all of them in order of arrival, each push is answered once, on the
  layer it came from, no other key changes and the next round starts empty. After any proper part of
  the pushes the value is the old one and nothing has been sent.
\<close>

theorem global_round:
  assumes "global_ready L c krs rank st" "heap_inv st" "lib_ok L" "b = range_begin (krs ! rank)" "int32 key"
    and r: "round_of st key = \<lparr>rd_value = Some v, rd_sum = [], rd_waiting = []\<rparr>"
    and ps: "length ps = global_quota st" "ps \<noteq> []" "\<forall>p \<in> set ps. push_ok (params_of L c b st) (nd_dtype v) (length (nd_bytes v)) p"
    and u: "updated (dl_updater L) key (sum_of (nl_add (dl_nd L)) (nd_dtype v) (map snd ps)) v (ds_optimizer st) = (v', opt)"
  shows "(\<exists>st'. run_events L b (pushes (nd_dtype v) key ps) st = Inr st' \<and> ds_optimizer st' = opt \<and>
      round_of st' = (round_of st)(key := \<lparr>rd_value = Some v', rd_sum = [], rd_waiting = []\<rparr>) \<and>
      van_outbox (pr_van (ks_proc st')) = van_outbox (pr_van (ks_proc st)) @ map (answer (cu_app_id c) \<circ> fst) ps) \<and>
    (\<forall>i < length ps. \<exists>st'. run_events L b (pushes (nd_dtype v) key (take i ps)) st = Inr st' \<and>
      rd_value (round_of st' key) = Some v \<and> van_outbox (pr_van (ks_proc st')) = van_outbox (pr_van (ks_proc st)))"
proof -
  define P where "P = params_of L c b st"
  have P: "ap_quota P = length ps" "ap_updater P = dl_updater L" "ap_add P = nl_add (dl_nd L)" "ap_app P = cu_app_id c"
    using ps(1) by (simp_all add: P_def params_of_def)
  have A: "ag_rounds (agg_of st) key = \<lparr>rd_value = Some v, rd_sum = [], rd_waiting = []\<rparr>" using r by (simp add: agg_of_def)
  obtain a where a: "ds_store st key = Some a" "cell st a = v" using r by (auto simp: round_of_def Let_def)
  have v: "real_type (nd_dtype v)" "length (nd_bytes v) mod elem_size (nd_dtype v) = 0"
    using heap_invD(1)[OF assms(2) a(1)] a(2) unfolding stored_ok_def by auto
  have ok: "\<forall>p \<in> set (take i ps). push_ok P (nd_dtype v) (length (nd_bytes v)) p" for i
    using ps(3) by (auto simp: P_def dest: in_set_takeD)
  have run: "\<exists>st'. run_events L b (pushes (nd_dtype v) key (take i ps)) st = Inr st' \<and>
    agg_of st' = fold (agg_step P) (pushes (nd_dtype v) key (take i ps)) (agg_of st)" for i
    using run_events_ok[OF assms(1-4), folded P_def, OF pushes_ok[OF A _ ok[of i] assms(5) v]] P(1) by auto
  have u': "updated (ap_updater P) key (sum_of (ap_add P) (nd_dtype v) (map snd ps)) v (ag_optimizer (agg_of st)) = (v', opt)"
    using u by (simp add: P agg_of_def)
  have fin: "fold (agg_step P) (pushes (nd_dtype v) key ps) (agg_of st) = \<lparr>ag_rounds = (round_of st)(key := \<lparr>rd_value = Some v', rd_sum = [], rd_waiting = []\<rparr>),
    ag_optimizer = opt, ag_outbox = van_outbox (pr_van (ks_proc st)) @ map (answer (cu_app_id c) \<circ> fst) ps\<rparr>"
    using round_complete[OF A P(1)[symmetric] ps(2) _ u'] ok[of "length ps"] by (simp add: agg_of_def P)
  have part: "fold (agg_step P) (pushes (nd_dtype v) key (take i ps)) (agg_of st) =
    set_round key \<lparr>rd_value = Some v, rd_sum = sum_of (ap_add P) (nd_dtype v) (map snd (take i ps)), rd_waiting = map fst (take i ps)\<rparr> (agg_of st)"
    if "i < length ps" for i using round_prefix[OF A _ ok[of i]] that P(1) by simp
  show ?thesis using run[of "length ps"] run part fin by (fastforce simp: agg_of_def set_round_def)
qed

subsection \<open>A server of two parties\<close>

definition byte_add :: "bytes \<Rightarrow> bytes \<Rightarrow> bytes" where
  "byte_add x y = map2 (+) x y"

definition sample_dist_lib :: DistLib where
  "sample_dist_lib = \<lparr>dl_kvs = \<lparr>sl_world = quiet_world, sl_fpu = sample_fpus, sl_sort = (\<lambda>xs. xs), sl_throughput = (\<lambda>_. 1),
       sl_env_int = (\<lambda>_. Inr 0), sl_env_float = (\<lambda>_. Inr 0), sl_user = (\<lambda>_ s. Inr s), sl_request = (\<lambda>_ _ s. Inr s),
       sl_request_global = (\<lambda>_ _ s. Inr s), sl_simple_request = (\<lambda>_ s. Inr s), sl_simple_response = (\<lambda>_ s. Inr s)\<rparr>,
     dl_nd = \<lparr>nl_add = (\<lambda>_. byte_add), nl_sub = (\<lambda>_ x y. map2 (-) x y), nl_div = (\<lambda>_ x k. map (\<lambda>b. b div of_int k) x),
       nl_cast = (\<lambda>_ _ x. x), nl_garbage = (\<lambda>_ _. 0)\<rparr>,
     dl_fpu = sample_fpuc, dl_updater = Some (\<lambda>_ x v n. (byte_add (nd_bytes v) (nd_bytes x), n + 1)), dl_controller = None,
     dl_profiler = (\<lambda>_ s. Inr s), dl_print_int = (\<lambda>_. []), dl_row_sparse = (\<lambda>_ _ _ s. Inr s), dl_stoi = (\<lambda>_. Inr 0), dl_stof = (\<lambda>_. Inr 0),
     dl_part = (\<lambda>n k i. n * i div k), dl_sort = (\<lambda>xs. xs)\<rparr>"

definition global_proc :: Proc where
  "global_proc = two_layer_proc\<lparr>pr_van := new_Van\<lparr>van_ready_global := True, van_my_node_global := (van_my_node_global new_Van)\<lparr>n_id := 8\<rparr>\<rparr>,
     pr_po := empty_Postoffice\<lparr>po_is_global_server := True, po_num_global_workers := 2, po_server_key_ranges_global := [mk_Range 0 1000]\<rparr>\<rparr>"

definition global_server :: DistServer where
  "global_server = (initial_state (new_KVServer global_proc 7) 1000 1000 False 1 1 [])\<lparr>ds_sync_mode := True, ds_sync_global_mode := True\<rparr>"

definition party_push :: "int \<Rightarrow> int \<Rightarrow> KVMeta" where
  "party_push sndr ts = empty_KVMeta\<lparr>km_cmd := 0, km_push := True, km_sender := sndr, km_timestamp := ts\<rparr>"

lemmas sample_defs = global_server_def global_proc_def initial_state_def new_KVServer_def two_layer_proc_def KVServer.defs DistServer.defs

lemma sample_lib_ok: "lib_ok sample_dist_lib"
  by (auto simp: lib_ok_def sample_dist_lib_def quiet_world_def byte_add_def)

lemma global_server_ready: "global_ready sample_dist_lib (new_Customer 0 0) [mk_Range 0 1000] 0 global_server"
  by (simp add: global_ready_def is_global_server_def sample_defs new_Van_def IDtoRank_def kOffset_def cdiv_def)

lemma global_server_inv: "heap_inv global_server"
  by (simp add: heap_inv_def separate_def sample_defs empty_UpdateBuf_def)

lemma global_server_agg:
  "agg_of global_server = \<lparr>ag_rounds = (\<lambda>_. \<lparr>rd_value = None, rd_sum = [], rd_waiting = []\<rparr>), ag_optimizer = 0, ag_outbox = []\<rparr>"
  "params_of sample_dist_lib (new_Customer 0 0) 0 global_server = \<lparr>ap_add = (\<lambda>_. byte_add),
     ap_updater = Some (\<lambda>_ x v n. (byte_add (nd_bytes v) (nd_bytes x), n + 1)), ap_app = 0, ap_quota = 2, ap_central = False, ap_begin = 0\<rparr>"
  by (simp_all add: agg_of_def round_of_def params_of_def global_quota_def sample_defs empty_UpdateBuf_def new_Van_def new_Customer_def
      empty_Postoffice_def sample_dist_lib_def fun_eq_iff)

theorem global_server_refines_witness:
  "\<exists>st'. run_events sample_dist_lib 0 [EPush (party_push 101 0) 0 3 [1, 0, 0, 0], EPush (party_push 9 1) 0 3 [2, 0, 0, 0],
       EPush (party_push 9 2) 0 4 [7, 0, 0, 0], EPush (party_push 11 1) 0 3 [3, 0, 0, 0],
       EPull ((party_push 9 3)\<lparr>km_push := False\<rparr>) 3] global_server = Inr st' \<and>
     round_of st' 3 = \<lparr>rd_value = Some \<lparr>nd_dtype = 0, nd_bytes = [6, 0, 0, 0]\<rparr>, rd_sum = [], rd_waiting = []\<rparr> \<and>
     rd_value (round_of st' 4) = Some \<lparr>nd_dtype = 0, nd_bytes = [7, 0, 0, 0]\<rparr> \<and> length (van_outbox (pr_van (ks_proc st'))) = 5"
proof -
  define es where "es = [EPush (party_push 101 0) 0 3 [1, 0, 0, 0], EPush (party_push 9 1) 0 3 [2, 0, 0, 0],
       EPush (party_push 9 2) 0 4 [7, 0, 0, 0], EPush (party_push 11 1) 0 3 [3, 0, 0, 0], EPull ((party_push 9 3)\<lparr>km_push := False\<rparr>) 3]"
  note calc = es_def global_server_agg agg_push_def updated_def party_push_def empty_KVMeta_def real_type_def elem_size_def mshadow_sizeof_def
    from_central_def kOffset_def GetCommandType_def cmod_def cdiv_def int32_def byte_add_def
  have "events_ok (params_of sample_dist_lib (new_Customer 0 0) 0 global_server) es (agg_of global_server)"
    by (simp add: calc)
  from global_server_refines[OF global_server_ready global_server_inv sample_lib_ok _ this] obtain st' where
    st': "run_events sample_dist_lib 0 es global_server = Inr st'"
      "agg_of st' = fold (agg_step (params_of sample_dist_lib (new_Customer 0 0) 0 global_server)) es (agg_of global_server)" by auto
  have "ag_rounds (agg_of st') 3 = \<lparr>rd_value = Some \<lparr>nd_dtype = 0, nd_bytes = [6, 0, 0, 0]\<rparr>, rd_sum = [], rd_waiting = []\<rparr>"
    "rd_value (ag_rounds (agg_of st') 4) = Some \<lparr>nd_dtype = 0, nd_bytes = [7, 0, 0, 0]\<rparr>" "length (ag_outbox (agg_of st')) = 5"
    unfolding st'(2) by (simp_all add: calc)
  then show ?thesis using st'(1) unfolding es_def[symmetric] by (intro exI[of _ st']) (simp add: agg_of_def)
qed

text \<open>The server after key 3 was opened with the value 1.\<close>

definition opened_server :: DistServer where
  "opened_server = (case run_events sample_dist_lib 0 [EPush (party_push 101 0) 0 3 [1, 0, 0, 0]] global_server of Inr st \<Rightarrow> st | Inl _ \<Rightarrow> global_server)"

lemma opened_server_facts:
  "global_ready sample_dist_lib (new_Customer 0 0) [mk_Range 0 1000] 0 opened_server" "heap_inv opened_server"
  "round_of opened_server 3 = \<lparr>rd_value = Some \<lparr>nd_dtype = 0, nd_bytes = [1, 0, 0, 0]\<rparr>, rd_sum = [], rd_waiting = []\<rparr>"
  "ds_optimizer opened_server = 0" "global_quota opened_server = 2" "length (van_outbox (pr_van (ks_proc opened_server))) = 1"
proof -
  define es where "es = [EPush (party_push 101 0) 0 3 [1, 0, 0, 0]]"
  note calc = es_def global_server_agg agg_push_def updated_def party_push_def empty_KVMeta_def real_type_def elem_size_def mshadow_sizeof_def
    from_central_def kOffset_def GetCommandType_def cmod_def cdiv_def int32_def byte_add_def
  have "events_ok (params_of sample_dist_lib (new_Customer 0 0) 0 global_server) es (agg_of global_server)"
    by (simp add: calc)
  from run_events_ok[OF global_server_ready global_server_inv sample_lib_ok _ this] obtain st' where
    st': "run_events sample_dist_lib 0 es global_server = Inr st'" "global_ready sample_dist_lib (new_Customer 0 0) [mk_Range 0 1000] 0 st'"
      "heap_inv st'" "pr_po (ks_proc st') = pr_po (ks_proc global_server)"
      "agg_of st' = fold (agg_step (params_of sample_dist_lib (new_Customer 0 0) 0 global_server)) es (agg_of global_server)" by auto
  have e: "opened_server = st'" using st'(1) by (simp add: opened_server_def es_def)
  have "ag_rounds (agg_of st') 3 = \<lparr>rd_value = Some \<lparr>nd_dtype = 0, nd_bytes = [1, 0, 0, 0]\<rparr>, rd_sum = [], rd_waiting = []\<rparr>"
    "ag_optimizer (agg_of st') = 0" "length (ag_outbox (agg_of st')) = 1" unfolding st'(5) by (simp_all add: calc)
  moreover have "global_quota st' = 2" using st'(4) by (simp add: global_quota_def sample_defs empty_Postoffice_def)
  ultimately show "global_ready sample_dist_lib (new_Customer 0 0) [mk_Range 0 1000] 0 opened_server" "heap_inv opened_server"
    "round_of opened_server 3 = \<lparr>rd_value = Some \<lparr>nd_dtype = 0, nd_bytes = [1, 0, 0, 0]\<rparr>, rd_sum = [], rd_waiting = []\<rparr>"
    "ds_optimizer opened_server = 0" "global_quota opened_server = 2" "length (van_outbox (pr_van (ks_proc opened_server))) = 1"
    using st'(2,3) by (simp_all add: e agg_of_def)
qed

theorem global_round_witness:
  "\<exists>st'. run_events sample_dist_lib 0 (pushes 0 3 [(party_push 9 1, [2, 0, 0, 0]), (party_push 11 1, [3, 0, 0, 0])]) opened_server = Inr st' \<and>
     rd_value (round_of st' 3) = Some \<lparr>nd_dtype = 0, nd_bytes = [6, 0, 0, 0]\<rparr> \<and> ds_optimizer st' = 1 \<and>
     length (van_outbox (pr_van (ks_proc st'))) = 3"
proof -
  note f = opened_server_facts
  have ok: "\<forall>p \<in> set [(party_push 9 1, [2, 0, 0, 0]), (party_push 11 1, [3, 0, 0, 0])].
    push_ok (params_of sample_dist_lib (new_Customer 0 0) 0 opened_server) (nd_dtype \<lparr>nd_dtype = 0, nd_bytes = [1, 0, 0, 0]\<rparr>)
      (length (nd_bytes \<lparr>nd_dtype = 0, nd_bytes = [1, 0, 0, 0]\<rparr>)) p"
    by (simp add: push_ok_def party_push_def empty_KVMeta_def GetCommandType_def cdiv_def cmod_def from_central_def kOffset_def)
  have u: "updated (dl_updater sample_dist_lib) 3 (sum_of (nl_add (dl_nd sample_dist_lib)) (nd_dtype \<lparr>nd_dtype = 0, nd_bytes = [1, 0, 0, 0]\<rparr>)
      (map snd [(party_push 9 1, [2, 0, 0, 0]), (party_push 11 1, [3, 0, 0, 0])])) \<lparr>nd_dtype = 0, nd_bytes = [1, 0, 0, 0]\<rparr> (ds_optimizer opened_server) =
    (\<lparr>nd_dtype = 0, nd_bytes = [6, 0, 0, 0]\<rparr>, 1)"
    using f(4) by (simp add: updated_def sample_dist_lib_def byte_add_def)
  have "length [(party_push 9 1, [2, 0, 0, 0 :: 8 word]), (party_push 11 1, [3, 0, 0, 0])] = global_quota opened_server" using f(5) by simp
  from global_round[OF f(1,2) sample_lib_ok _ _ f(3) this _ ok u] f(6) show ?thesis by (auto simp: int32_def)
qed

end
