(* ===== verification/LocalRounds.thy ===== *)
theory LocalRounds
  imports Rounds
begin

text \<open>
  The server of a party: the cutting of an array for the global servers, the answers to the waiting
  workers when the pulled model arrives, and the differences of hierarchical frequency aggregation
  (HFA).
\<close>

subsection \<open>The milestone\<close>

lemma CopyFromTo_same:
  assumes "src \<noteq> dst" "nd_dtype (cell st src) = nd_dtype (cell st dst)" "length (nd_bytes (cell st src)) = length (nd_bytes (cell st dst))"
  shows "heap_run (CopyFromTo N src dst) st = Inr (heap_write dst (nd_bytes (cell st src)) st)"
  using assms by (simp add: heap_run_def CopyFromTo_def cell_def heap_write_def nd_size_def chk_def Let_def)

text \<open>The sum of a party's round written over the stored array, then the difference to the milestone.\<close>

definition hfa_round :: "DistLib \<Rightarrow> DataHandleType \<Rightarrow> int \<Rightarrow> DistServer \<Rightarrow> DistServer res" where
  "hfa_round L type key st = rbind (ApplyUpdates L type key True False empty_KVMeta empty_KVPairs st) (hfa_difference L False key)"

lemma hfa_difference_value:
  assumes "ds_store st key = Some a" "ds_milestone st key = Some m" "nd_dtype (cell st m) = nd_dtype (cell st a)"
    and "length (nd_bytes (cell st m)) = length (nd_bytes (cell st a))"
  shows "\<exists>st' q. hfa_difference L False key st = Inr st' \<and> ds_store st' key = Some q \<and>
    nd_bytes (cell st' q) = nl_div (dl_nd L) (nd_dtype (cell st a)) (nl_sub (dl_nd L) (nd_dtype (cell st a)) (nd_bytes (cell st a))
      (nd_bytes (cell st m))) (po_num_global_workers (pr_po (ks_proc st)))"
proof -
  define d where "d = \<lparr>nd_dtype = nd_dtype (cell st a), nd_bytes = nl_sub (dl_nd L) (nd_dtype (cell st a)) (nd_bytes (cell st a)) (nd_bytes (cell st m))\<rparr>"
  have "nd_size (cell st a) = nd_size (cell st m)" using assms(3,4) by (simp add: nd_size_def)
  then have "heap_get (nd_binop (nl_sub (dl_nd L)) a m) st = Inr (hp_next (ds_heap st), st\<lparr>ds_heap := snd (nd_alloc d (ds_heap st))\<rparr>)"
    using assms(3) by (simp add: heap_get_def nd_binop_def nd_alloc_def chk_def cell_def d_def Let_def)
  moreover have "hp_cell (snd (nd_alloc d (ds_heap st))) (hp_next (ds_heap st)) = d" by (simp add: nd_alloc_def)
  ultimately show ?thesis using assms(1,2)
    by (simp add: hfa_difference_def stored_ref_def handle_def nd_scale_def set_stored_def set_store_def cell_def nd_alloc_def[of "\<lparr>nd_dtype = x, nd_bytes = y\<rparr>" for x y] Let_def)
      (simp add: d_def cell_def)
qed

lemma hfa_round_value:
  assumes st: "\<not> is_global_server st" "\<not> ds_multi_precision st" "ds_store st key = Some a" "ds_milestone st key = Some m"
    and u: "ub_merged (ds_update_buf st key) = Some g" "g \<noteq> a"
    and t: "nd_dtype (cell st g) = nd_dtype (cell st a)" "length (nd_bytes (cell st g)) = length (nd_bytes (cell st a))"
    and m: "nd_dtype (cell st m) = nd_dtype (cell st a)" "length (nd_bytes (cell st m)) = length (nd_bytes (cell st a))"
  shows "\<exists>st' q. hfa_round L type key st = Inr st' \<and> ds_store st' key = Some q \<and>
    nd_bytes (cell st' q) = nl_div (dl_nd L) (nd_dtype (cell st a)) (nl_sub (dl_nd L) (nd_dtype (cell st a)) (nd_bytes (cell st g))
      (if m = a then nd_bytes (cell st g) else nd_bytes (cell st m))) (po_num_global_workers (pr_po (ks_proc st)))"
proof -
  define st1 where "st1 = heap_write a (nd_bytes (cell st g)) st"
  have "ApplyUpdates L type key True False empty_KVMeta empty_KVPairs st = Inr st1"
    using st u CopyFromTo_same[OF u(2) t]
    by (cases "dl_updater L") (simp_all add: ApplyUpdates_def has_multi_precision_copy_def stored_ref_def handle_def chk_def st1_def Let_def)
  moreover have c: "cell st1 a = (cell st a)\<lparr>nd_bytes := nd_bytes (cell st g)\<rparr>"
    "nd_bytes (cell st1 m) = (if m = a then nd_bytes (cell st g) else nd_bytes (cell st m))" "nd_dtype (cell st1 m) = nd_dtype (cell st a)"
    using m by (auto simp: st1_def)
  moreover have "ds_store st1 key = Some a" "ds_milestone st1 key = Some m" "ks_proc st1 = ks_proc st" using st by (simp_all add: st1_def heap_write_def)
  ultimately show ?thesis using hfa_difference_value[of st1 key a m L] m(2) t(2) by (simp add: hfa_round_def)
qed

text \<open>
  C12: HFA loses its milestone after the first global round. Storing a pulled difference makes the
  stored array and the milestone the same array. The next local round copies its sum over the
  stored array and so over the milestone, and pushes the sum minus itself, whatever the workers
  computed. As long as the two are different arrays, as before the first pull, what is pushed is the
  difference to the milestone.
\<close>

theorem hfa_milestone_lost:
  assumes st: "ds_use_hfa st" "\<not> is_global_server st" "\<not> ds_multi_precision st" "ds_milestone st key = Some m" "m < hp_next (ds_heap st)"
    and r: "r < hp_next (ds_heap st)" "nd_dtype (cell st r) = nd_dtype (cell st m)" "length (nd_bytes (cell st r)) = length (nd_bytes (cell st m))"
    and g: "ub_merged (ds_update_buf st key) = Some g" "g < hp_next (ds_heap st)" "nd_dtype (cell st g) = nd_dtype (cell st m)"
      "length (nd_bytes (cell st g)) = length (nd_bytes (cell st m))"
    and add: "\<forall>x y. length x = length y \<longrightarrow> length (nl_add (dl_nd L) (nd_dtype (cell st m)) x y) = length x"
  shows "(\<exists>st1 a. HandleHFAAccumulate L type False key r st = Inr st1 \<and> ds_store st1 key = Some a \<and> ds_milestone st1 key = Some a \<and>
      (\<forall>x. length x = length (nd_bytes (cell st m)) \<longrightarrow> (\<exists>st2 q. hfa_round L type key (heap_write g x st1) = Inr st2 \<and> ds_store st2 key = Some q \<and>
        nd_bytes (cell st2 q) = nl_div (dl_nd L) (nd_dtype (cell st m)) (nl_sub (dl_nd L) (nd_dtype (cell st m)) x x)
          (po_num_global_workers (pr_po (ks_proc st)))))) \<and>
    (\<forall>a. ds_store st key = Some a \<and> a \<noteq> m \<and> a \<noteq> g \<and> nd_dtype (cell st a) = nd_dtype (cell st m) \<and>
        length (nd_bytes (cell st a)) = length (nd_bytes (cell st m)) \<longrightarrow>
      (\<exists>st2 q. hfa_round L type key st = Inr st2 \<and> ds_store st2 key = Some q \<and>
        nd_bytes (cell st2 q) = nl_div (dl_nd L) (nd_dtype (cell st m)) (nl_sub (dl_nd L) (nd_dtype (cell st m)) (nd_bytes (cell st g)) (nd_bytes (cell st m)))
          (po_num_global_workers (pr_po (ks_proc st)))))"
proof -
  define a where "a = hp_next (ds_heap st)"
  define s where "s = \<lparr>nd_dtype = nd_dtype (cell st m), nd_bytes = nl_add (dl_nd L) (nd_dtype (cell st m)) (nd_bytes (cell st m)) (nd_bytes (cell st r))\<rparr>"
  define h where "h = (ds_heap st)\<lparr>hp_cell := (hp_cell (ds_heap st))(a := s), hp_next := a + 1\<rparr>"
  define st1 where "st1 = st\<lparr>ds_heap := h, ds_store := (ds_store st)(key \<mapsto> a), ds_store_keys := List.insert key (ds_store_keys st),
    ds_milestone := (ds_milestone st)(key \<mapsto> a)\<rparr>"
  have run: "HandleHFAAccumulate L type False key r st = Inr st1"
    using st r by (simp add: HandleHFAAccumulate_def heap_get_def nd_binop_def nd_alloc_def cell_def nd_size_def chk_def set_stored_def set_store_def
        st1_def h_def s_def a_def Let_def)
  have c: "cell st1 a = s" "cell st1 g = cell st g" "g \<noteq> a" using g(2) by (simp_all add: st1_def h_def cell_def a_def)
  have len: "length (nd_bytes s) = length (nd_bytes (cell st m))" using add r(3) by (simp add: s_def)
  have "\<exists>st2 q. hfa_round L type key (heap_write g x st1) = Inr st2 \<and> ds_store st2 key = Some q \<and>
        nd_bytes (cell st2 q) = nl_div (dl_nd L) (nd_dtype (cell st m)) (nl_sub (dl_nd L) (nd_dtype (cell st m)) x x)
          (po_num_global_workers (pr_po (ks_proc st)))" if x: "length x = length (nd_bytes (cell st m))" for x
  proof -
    define st' where "st' = heap_write g x st1"
    have f: "\<not> is_global_server st'" "\<not> ds_multi_precision st'" "ds_store st' key = Some a" "ds_milestone st' key = Some a"
      "ub_merged (ds_update_buf st' key) = Some g" "ks_proc st' = ks_proc st"
      using st g(1) by (simp_all add: st'_def st1_def heap_write_def is_global_server_def)
    have "cell st' a = s" "cell st' g = (cell st g)\<lparr>nd_bytes := x\<rparr>" using c by (simp_all add: st'_def)
    then show ?thesis unfolding st'_def[symmetric]
      using hfa_round_value[OF f(1-5) c(3), of L type] g(3) len x f(6) by (simp add: s_def)
  qed
  moreover have "\<exists>st2 q. hfa_round L type key st = Inr st2 \<and> ds_store st2 key = Some q \<and>
        nd_bytes (cell st2 q) = nl_div (dl_nd L) (nd_dtype (cell st m)) (nl_sub (dl_nd L) (nd_dtype (cell st m)) (nd_bytes (cell st g)) (nd_bytes (cell st m)))
          (po_num_global_workers (pr_po (ks_proc st)))"
    if "ds_store st key = Some b \<and> b \<noteq> m \<and> b \<noteq> g \<and> nd_dtype (cell st b) = nd_dtype (cell st m) \<and>
        length (nd_bytes (cell st b)) = length (nd_bytes (cell st m))" for b
  proof -
    from that have b: "ds_store st key = Some b" "m \<noteq> b" "g \<noteq> b" "nd_dtype (cell st m) = nd_dtype (cell st b)"
      "length (nd_bytes (cell st m)) = length (nd_bytes (cell st b))" by auto
    have "nd_dtype (cell st g) = nd_dtype (cell st b)" "length (nd_bytes (cell st g)) = length (nd_bytes (cell st b))" using b g by simp_all
    from hfa_round_value[OF st(2,3) b(1) st(4) g(1) b(3) this b(4,5), of L type] b(2,4) show ?thesis by simp
  qed
  moreover have "ds_store st1 key = Some a" "ds_milestone st1 key = Some a" by (simp_all add: st1_def)
  ultimately show ?thesis using run by blast
qed

definition hfa_server :: DistServer where
  "hfa_server = (initial_state (new_KVServer (two_layer_proc\<lparr>pr_po := empty_Postoffice\<lparr>po_num_global_workers := 1\<rparr>\<rparr>) 7) 1000 1000 True 1 1 [])\<lparr>
     ds_heap := \<lparr>hp_cell = (\<lambda>i. \<lparr>nd_dtype = 0, nd_bytes = [of_nat i + 1, 0, 0, 0]\<rparr>), hp_next = 4\<rparr>,
     ds_milestone := [0 \<mapsto> 0], ds_store := [0 \<mapsto> 3], ds_update_buf := (\<lambda>_. empty_UpdateBuf\<lparr>ub_merged := Some 2\<rparr>)\<rparr>"

theorem hfa_milestone_lost_witness:
  "(\<exists>st1 st2 q. HandleHFAAccumulate sample_dist_lib \<lparr>dh_requestType = kDefaultPushPull, dh_dtype = 0\<rparr> False 0 1 hfa_server = Inr st1 \<and>
      hfa_round sample_dist_lib \<lparr>dh_requestType = kDefaultPushPull, dh_dtype = 0\<rparr> 0 (heap_write 2 [9, 0, 0, 0] st1) = Inr st2 \<and>
      ds_store st2 0 = Some q \<and> nd_bytes (cell st2 q) = [0, 0, 0, 0]) \<and>
   (\<exists>st2 q. hfa_round sample_dist_lib \<lparr>dh_requestType = kDefaultPushPull, dh_dtype = 0\<rparr> 0 hfa_server = Inr st2 \<and>
      ds_store st2 0 = Some q \<and> nd_bytes (cell st2 q) = [2, 0, 0, 0])"
proof -
  define t where "t = \<lparr>dh_requestType = kDefaultPushPull, dh_dtype = 0\<rparr>"
  note calc = hfa_server_def sample_defs is_global_server_def empty_UpdateBuf_def empty_Postoffice_def cell_def
  have f: "ds_use_hfa hfa_server" "\<not> is_global_server hfa_server" "\<not> ds_multi_precision hfa_server" "ds_milestone hfa_server 0 = Some 0"
    "ds_store hfa_server 0 = Some 3" "hp_next (ds_heap hfa_server) = 4" "ub_merged (ds_update_buf hfa_server 0) = Some 2"
    "cell hfa_server i = \<lparr>nd_dtype = 0, nd_bytes = [of_nat i + 1, 0, 0, 0]\<rparr>" "po_num_global_workers (pr_po (ks_proc hfa_server)) = 1" for i
    by (simp_all add: calc)
  have add: "\<forall>x y. length x = length y \<longrightarrow> length (nl_add (dl_nd sample_dist_lib) (nd_dtype (cell hfa_server 0)) x y) = length x"
    by (simp add: sample_dist_lib_def byte_add_def)
  have ops: "nl_div (dl_nd sample_dist_lib) 0 x 1 = x" "nl_sub (dl_nd sample_dist_lib) 0 x y = map2 (-) x y" for x y
    by (simp_all add: sample_dist_lib_def)
  have sizes: "0 < hp_next (ds_heap hfa_server)" "1 < hp_next (ds_heap hfa_server)" "2 < hp_next (ds_heap hfa_server)" by (simp_all add: f(6))
  have same: "nd_dtype (cell hfa_server i) = nd_dtype (cell hfa_server 0)" "length (nd_bytes (cell hfa_server i)) = length (nd_bytes (cell hfa_server 0))" for i
    by (simp_all add: f(8))
  note inst = hfa_milestone_lost[where type = t, OF f(1-4) sizes(1,2) same[of 1] f(7) sizes(3) same[of 2] add]
  from conjunct1[OF inst] obtain st1 where st1: "HandleHFAAccumulate sample_dist_lib t False 0 1 hfa_server = Inr st1"
    and later: "\<forall>x. length x = length (nd_bytes (cell hfa_server 0)) \<longrightarrow> (\<exists>st2 q. hfa_round sample_dist_lib t 0 (heap_write 2 x st1) = Inr st2 \<and>
      ds_store st2 0 = Some q \<and> nd_bytes (cell st2 q) = nl_div (dl_nd sample_dist_lib) (nd_dtype (cell hfa_server 0))
        (nl_sub (dl_nd sample_dist_lib) (nd_dtype (cell hfa_server 0)) x x) (po_num_global_workers (pr_po (ks_proc hfa_server))))" by blast
  from later[rule_format, of "[9, 0, 0, 0]"] obtain st2 q where
    "hfa_round sample_dist_lib t 0 (heap_write 2 [9, 0, 0, 0] st1) = Inr st2" "ds_store st2 0 = Some q" "nd_bytes (cell st2 q) = [0, 0, 0, 0]"
    by (auto simp: ops f(8,9))
  moreover from conjunct2[OF inst, rule_format, of 3] obtain st3 q' where
    "hfa_round sample_dist_lib t 0 hfa_server = Inr st3" "ds_store st3 0 = Some q'" "nd_bytes (cell st3 q') = [2, 0, 0, 0]"
    using f(5) by (auto simp: ops f(8,9))
  ultimately show ?thesis unfolding t_def[symmetric] using st1 by blast
qed

subsection \<open>Keys of the global servers\<close>

lemma wrap32_id: "int32 x \<Longrightarrow> wrap32 x = x"
  by (simp add: wrap32_def sint_word_of_int)

lemma int32_nat: "m < 2 ^ 31 \<Longrightarrow> int32 (int m)"
  by (simp add: int32_def)

text \<open>The parts from server \<open>i\<close> on, when the bounds ascend and the whole fits an \<open>int\<close>.\<close>

lemma encode_parts_ok:
  assumes "\<forall>r \<in> set rs. range_begin r + word_of_int key < range_end r" "\<forall>j. bound j \<le> bound (Suc j)"
    and "pk_size pk = int (bound i * nb)" "bound (i + length rs) * nb < 2 ^ 31"
  shows "encode_parts bound key nb i rs pk = Inr \<lparr>pk_keys = pk_keys pk @ map (\<lambda>r. range_begin r + word_of_int key) rs,
    pk_lens = pk_lens pk @ map (\<lambda>j. int ((bound (Suc j) - bound j) * nb)) [i..<i + length rs], pk_size = int (bound (i + length rs) * nb)\<rparr>"
  using assms(1,3,4)
proof (induction rs arbitrary: i pk)
  case (Cons r rs)
  have mono: "bound j \<le> bound (j + k)" for j k by (induction k) (auto intro: order_trans assms(2)[rule_format])
  have le: "bound (Suc i) * nb < 2 ^ 31" using mono[of "Suc i" "length rs"] Cons.prems(3) by (simp add: le_less_trans[OF mult_le_mono1])
  have d: "(int (bound (Suc i)) - int (bound i)) * int nb = int ((bound (Suc i) - bound i) * nb)"
    using assms(2) by (simp add: of_nat_diff)
  have "(bound (Suc i) - bound i) * nb \<le> bound (Suc i) * nb" by simp
  then have w: "wrap32 (int ((bound (Suc i) - bound i) * nb)) = int ((bound (Suc i) - bound i) * nb)"
    using le by (intro wrap32_id int32_nat) (rule le_less_trans)
  have sum: "int (bound i * nb) + int ((bound (Suc i) - bound i) * nb) = int (bound (Suc i) * nb)"
    using assms(2) by (simp add: of_nat_diff left_diff_distrib flip: of_nat_add)
  have fit: "int32 (int (bound (Suc i) * nb))" using le by (rule int32_nat)
  have up: "[i..<Suc (i + length rs)] = i # [Suc i..<Suc (i + length rs)]" by (rule upt_conv_Cons) simp
  show ?case using Cons.prems Cons.IH[of "\<lparr>pk_keys = pk_keys pk @ [range_begin r + word_of_int key],
      pk_lens = pk_lens pk @ [int ((bound (Suc i) - bound i) * nb)], pk_size = int (bound (Suc i) * nb)\<rparr>" "Suc i"]
    by (simp add: d w sum fit chk_def defined_def up Let_def del: of_nat_mult upt_Suc)
qed simp

text \<open>What rounding to part boundaries gives: it starts at 0, ends at the size and ascends.\<close>

definition part_ok :: "DistLib \<Rightarrow> bool" where
  "part_ok L \<longleftrightarrow> (\<forall>n k. dl_part L n k 0 = 0 \<and> (0 < k \<longrightarrow> dl_part L n k k = n) \<and> (\<forall>i. dl_part L n k i \<le> dl_part L n k (Suc i)))"

lemma sum_parts:
  assumes "\<forall>j. f j \<le> f (Suc j :: nat)" "f 0 = (0 :: nat)"
  shows "(\<Sum>j\<leftarrow>[0..<k]. int ((f (Suc j) - f j) * nb)) = int (f k * nb)"
proof (induction k)
  case (Suc k)
  have "f k * nb + (f (Suc k) - f k) * nb = f (Suc k) * nb" using assms(1) by (simp flip: add_mult_distrib)
  then show ?case using Suc by (simp flip: of_nat_add of_nat_mult)
qed (simp add: assms(2))

text \<open>A global server of rank \<open>j\<close> over the ranges.\<close>

definition serves :: "Range list \<Rightarrow> nat \<Rightarrow> DistServer \<Rightarrow> bool" where
  "serves krs j st \<longleftrightarrow> po_server_key_ranges_global (pr_po (ks_proc st)) = krs \<and> van_ready_global (pr_van (ks_proc st)) \<and>
     nat (IDtoRank (n_id (van_my_node_global (pr_van (ks_proc st))))) = j \<and> j < length krs"

lemma DecodeKey_serves:
  assumes "serves krs j st" "int32 key"
  shows "DecodeKey (range_begin (krs ! j) + word_of_int key) True st = Inr (key, st)"
proof -
  have "krs \<noteq> []" using assms(1) by (auto simp: serves_def)
  then show ?thesis using assms int_of_key_fits[OF assms(2)]
    by (auto simp: serves_def DecodeKey_def GetServerKeyRanges_def my_node_def Let_def chk_def defined_def)
qed

lemma pick_server_ok: "0 \<le> key \<Longrightarrow> int32 (key * 9973) \<Longrightarrow> 0 < n \<Longrightarrow> \<exists>g < n. pick_server key n = Inr g"
  by (simp add: pick_server_def cmod_nonneg defined_def Let_def nat_less_iff)


definition cut_server :: DistServer where
  "cut_server = initial_state (new_KVServer (two_layer_proc\<lparr>pr_po := empty_Postoffice\<lparr>
     po_server_key_ranges_global := [mk_Range 0 1000, mk_Range 1000 2000]\<rparr>\<rparr>) 7) 4 1000 False 1 1 []"


end
