(* ===== verification/WellTyped.thy ===== *)
theory WellTyped
  imports LocalRounds
begin

text \<open>
  Typing of the server's arrays. A state is well-typed when every handle it holds is allocated and
  every array has a whole number of elements of its type. Each handler keeps that, and no array ever
  changes its type or its size, whatever the request, the mode and the compression.
\<close>

subsection \<open>Well-typed states\<close>

definition nx :: "DistServer \<Rightarrow> nat" where
  "nx st = hp_next (ds_heap st)"

definition cell_ok :: "NDArray \<Rightarrow> bool" where
  "cell_ok a \<longleftrightarrow> length (nd_bytes a) mod elem_size (nd_dtype a) = 0"

definition below :: "nat \<Rightarrow> (int \<Rightarrow> nat option) \<Rightarrow> bool" where
  "below n f \<longleftrightarrow> (\<forall>k a. f k = Some a \<longrightarrow> a < n)"

definition bufs_below :: "nat \<Rightarrow> (int \<Rightarrow> UpdateBuf) \<Rightarrow> bool" where
  "bufs_below n u \<longleftrightarrow> below n (ub_merged \<circ> u) \<and> below n (ub_temp \<circ> u)"

definition wt :: "DistServer \<Rightarrow> bool" where
  "wt st \<longleftrightarrow> (\<forall>a < nx st. cell_ok (cell st a)) \<and>
     below (nx st) (ds_store st) \<and> below (nx st) (ds_milestone st) \<and> below (nx st) (ds_realt st) \<and> below (nx st) (ds_comm_buf st) \<and>
     below (nx st) (ds_compr_buf st) \<and> below (nx st) (ds_velocity st) \<and> below (nx st) (ds_accumulated st) \<and> below (nx st) (ds_residual st) \<and>
     bufs_below (nx st) (ds_update_buf st) \<and> bufs_below (nx st) (ds_update_tmp st) \<and> bufs_below (nx st) (ds_update_global st)"

text \<open>Arrays keep their type and their size.\<close>

definition hext :: "DistServer \<Rightarrow> DistServer \<Rightarrow> bool" where
  "hext st st' \<longleftrightarrow> nx st \<le> nx st' \<and> (\<forall>a < nx st. nd_dtype (cell st' a) = nd_dtype (cell st a) \<and>
     length (nd_bytes (cell st' a)) = length (nd_bytes (cell st a)))"

definition ext :: "DistServer \<Rightarrow> DistServer \<Rightarrow> bool" where
  "ext base st \<longleftrightarrow> wt st \<and> hext base st"

text \<open>A computation whose result, if there is one, satisfies a condition.\<close>

definition safe :: "'a res \<Rightarrow> ('a \<Rightarrow> bool) \<Rightarrow> bool" where
  "safe r Q \<longleftrightarrow> (\<forall>x. r = Inr x \<longrightarrow> Q x)"

named_theorems safe_intros \<open>rules for computations that keep states well-typed\<close>

lemma safe_rbind [safe_intros]: "safe r (\<lambda>x. safe (f x) Q) \<Longrightarrow> safe (rbind r f) Q"
  by (auto simp: safe_def res_simps)

lemma safe_basic [safe_intros]:
  "safe (Inl e) Q" "Q x \<Longrightarrow> safe (Inr x) Q" "(b \<Longrightarrow> safe r Q) \<Longrightarrow> safe (chk b s r) Q" "(b \<Longrightarrow> safe r Q) \<Longrightarrow> safe (defined b s r) Q"
  by (auto simp: safe_def chk_def defined_def split: if_splits)

lemma safe_mono: "safe r P \<Longrightarrow> (\<And>x. P x \<Longrightarrow> Q x) \<Longrightarrow> safe r Q"
  by (auto simp: safe_def)

lemma safe_any: "(\<And>x. Q x) \<Longrightarrow> safe r Q"
  by (auto simp: safe_def)

subsection \<open>The heap\<close>

lemma wt_cell: "wt st \<Longrightarrow> a < nx st \<Longrightarrow> length (nd_bytes (cell st a)) = nd_size (cell st a) * elem_size (nd_dtype (cell st a))"
  by (auto simp: wt_def cell_ok_def nd_size_def)

lemma hext_trans: "hext a b \<Longrightarrow> hext b c \<Longrightarrow> hext a c"
  by (auto simp: hext_def intro: order_trans)

lemma hext_refl [simp]: "hext st st"
  by (simp add: hext_def)

lemma handles_mono: "below n f \<Longrightarrow> n \<le> m \<Longrightarrow> below m f"
  by (auto simp: below_def intro: less_le_trans)

lemma buf_handles_mono: "bufs_below n f \<Longrightarrow> n \<le> m \<Longrightarrow> bufs_below m f"
  by (auto simp: bufs_below_def intro: handles_mono)

text \<open>Everything but the heap stays, the heap keeps what it has and what is new is well-formed.\<close>

lemma ext_heap:
  assumes "ext base st" "nx st \<le> hp_next h" "\<And>a. a < nx st \<Longrightarrow> nd_dtype (hp_cell h a) = nd_dtype (cell st a) \<and>
      length (nd_bytes (hp_cell h a)) = length (nd_bytes (cell st a))"
    and "\<And>a. nx st \<le> a \<Longrightarrow> a < hp_next h \<Longrightarrow> cell_ok (hp_cell h a)"
  shows "ext base (st\<lparr>ds_heap := h\<rparr>)" "nx (st\<lparr>ds_heap := h\<rparr>) = hp_next h"
proof -
  have w: "wt st" "hext base st" using assms(1) by (auto simp: ext_def)
  have "cell_ok (hp_cell h a)" if "a < hp_next h" for a
    using that assms(3)[of a] assms(4)[of a] w(1) by (cases "a < nx st") (auto simp: wt_def cell_ok_def)
  then have "wt (st\<lparr>ds_heap := h\<rparr>)"
    using w(1) assms(2) by (auto simp: wt_def nx_def cell_def elim: handles_mono buf_handles_mono)
  moreover have "hext st (st\<lparr>ds_heap := h\<rparr>)" using assms(2,3) by (simp add: hext_def nx_def cell_def)
  ultimately show "ext base (st\<lparr>ds_heap := h\<rparr>)" using hext_trans[OF w(2)] by (simp add: ext_def)
qed (simp add: nx_def)

lemma new_rule [safe_intros]:
  assumes "ext base st" "\<And>a st'. ext base st' \<Longrightarrow> nx st \<le> nx st' \<Longrightarrow> a < nx st' \<Longrightarrow> nd_dtype (cell st' a) = t \<Longrightarrow> safe (f a st') Q"
  shows "safe (case heap_new N n t st of (a, st') \<Rightarrow> f a st') Q"
proof -
  obtain a st' where new: "heap_new N n t st = (a, st')" by fastforce
  define h where "h = snd (nd_new N n t (ds_heap st))"
  have st': "st' = st\<lparr>ds_heap := h\<rparr>" using new by (auto simp: heap_new_def h_def split: prod.splits)
  have "ext base st'" "nx st' = hp_next h" unfolding st'
    by (rule ext_heap[OF assms(1)]; auto simp: h_def nd_new_def nd_alloc_def nx_def cell_def cell_ok_def less_Suc_eq)+
  then show ?thesis using assms(2)[of st' a] heap_new_grown[OF new] by (auto simp: new nx_def)
qed

lemma write_ext:
  assumes "ext base st" "a < nx st" "length bs = length (nd_bytes (cell st a))"
  shows "ext base (heap_write a bs st)" "nx (heap_write a bs st) = nx st"
  unfolding heap_write_def
  by (rule ext_heap[OF assms(1)]; use assms(2,3) in \<open>auto simp: nd_set_def nx_def cell_def\<close>)+ (simp add: nx_def nd_set_def)

lemma wrap_rule [safe_intros]:
  assumes "ext base st" "\<And>a st'. ext base st' \<Longrightarrow> nx st \<le> nx st' \<Longrightarrow> a < nx st' \<Longrightarrow> safe (f a st') Q"
  shows "safe (heap_get (nd_wrap t n vals) st) (\<lambda>x. safe (case x of (a, st') \<Rightarrow> f a st') Q)"
proof -
  define h where "h = snd (nd_alloc \<lparr>nd_dtype = t, nd_bytes = take (n * elem_size t) vals\<rparr> (ds_heap st))"
  have "ext base (st\<lparr>ds_heap := h\<rparr>)" "nx (st\<lparr>ds_heap := h\<rparr>) = hp_next h" if "n * elem_size t \<le> length vals"
    by (rule ext_heap[OF assms(1)]; use that in \<open>auto simp: h_def nd_alloc_def nx_def cell_def cell_ok_def less_Suc_eq\<close>)+
  then show ?thesis using assms(2)[of "st\<lparr>ds_heap := h\<rparr>"]
    by (auto simp: safe_def heap_get_def nd_wrap_def res_simps defined_def h_def nd_alloc_def nx_def split: if_splits)
qed

subsection \<open>Array operations\<close>

text \<open>
  What is required of the parameters: element arithmetic and conversion give arrays of the right
  size, the optimiser writes into the memory of the value, and the code of the application that is
  called back keeps states well-typed.
\<close>

definition keeps :: "(DistServer \<Rightarrow> DistServer res) \<Rightarrow> bool" where
  "keeps f \<longleftrightarrow> (\<forall>st. wt st \<longrightarrow> safe (f st) (\<lambda>st'. wt st' \<and> hext st st'))"

definition lib_wt :: "DistLib \<Rightarrow> bool" where
  "lib_wt L \<longleftrightarrow>
     (\<forall>t x y. length x = length y \<longrightarrow> length (nl_add (dl_nd L) t x y) = length x \<and> length (nl_sub (dl_nd L) t x y) = length x) \<and>
     (\<forall>t x k. length (nl_div (dl_nd L) t x k) = length x) \<and>
     (\<forall>t u x. length (nl_cast (dl_nd L) t u x) = length x div elem_size t * elem_size u) \<and>
     (\<forall>f k x v opt. dl_updater L = Some f \<longrightarrow> length (fst (f k x v opt)) = length (nd_bytes v)) \<and>
     (\<forall>c. keeps (sl_user (dl_kvs L) c)) \<and> (\<forall>t m d. keeps (dl_row_sparse L t m d)) \<and> (\<forall>p. keeps (dl_profiler L p)) \<and>
     (\<forall>f h b. dl_controller L = Some f \<longrightarrow> keeps (f h b)) \<and> (\<forall>d. keeps (sl_simple_response (dl_kvs L) d))"

lemma keeps_rule:
  assumes "keeps f" "ext base st" "\<And>st'. ext base st' \<Longrightarrow> nx st \<le> nx st' \<Longrightarrow> Q st'"
  shows "safe (f st) Q"
  using assms unfolding keeps_def ext_def safe_def by (metis hext_def hext_trans)

lemma copy_rule [safe_intros]:
  assumes "lib_wt L" "ext base st" "a < nx st" "b < nx st" "\<And>st'. ext base st' \<Longrightarrow> nx st \<le> nx st' \<Longrightarrow> Q st'"
  shows "safe (heap_run (CopyFromTo (dl_nd L) a b) st) Q"
proof -
  have w: "length (nd_bytes (cell st x)) = nd_size (cell st x) * elem_size (nd_dtype (cell st x))" if "x < nx st" for x
    using wt_cell that assms(2) by (auto simp: ext_def)
  define bs where "bs = (if nd_dtype (cell st a) = nd_dtype (cell st b) then nd_bytes (cell st a)
    else nl_cast (dl_nd L) (nd_dtype (cell st a)) (nd_dtype (cell st b)) (nd_bytes (cell st a)))"
  have "length bs = length (nd_bytes (cell st b))" if "nd_size (cell st a) = nd_size (cell st b)"
    using w[OF assms(3)] w[OF assms(4)] that assms(1) by (auto simp: bs_def lib_wt_def nd_size_def)
  then have "nd_size (cell st a) = nd_size (cell st b) \<Longrightarrow> Q (heap_write b bs st)"
    using write_ext[OF assms(2,4), of bs] assms(5) by simp
  moreover have "Q st" using assms(2,5) by simp
  ultimately show ?thesis
    by (auto simp: safe_def heap_run_def CopyFromTo_def res_simps heap_write_def cell_def bs_def Let_def split: if_splits)
qed

lemma same_size: "ext base st \<Longrightarrow> a < nx st \<Longrightarrow> b < nx st \<Longrightarrow> nd_size (cell st a) = nd_size (cell st b) \<Longrightarrow>
    nd_dtype (cell st a) = nd_dtype (cell st b) \<Longrightarrow> length (nd_bytes (cell st a)) = length (nd_bytes (cell st b))"
  by (simp add: wt_cell ext_def)

lemma iadd_rule [safe_intros]:
  assumes "lib_wt L" "ext base st" "a < nx st" "b < nx st" "\<And>st'. ext base st' \<Longrightarrow> nx st \<le> nx st' \<Longrightarrow> Q st'"
  shows "safe (heap_run (nd_iadd (dl_nd L) a b) st) Q"
proof -
  define bs where "bs = nl_add (dl_nd L) (nd_dtype (cell st a)) (nd_bytes (cell st a)) (nd_bytes (cell st b))"
  have "length bs = length (nd_bytes (cell st a))" if "nd_size (cell st a) = nd_size (cell st b)" "nd_dtype (cell st a) = nd_dtype (cell st b)"
    using same_size[OF assms(2-4) that] assms(1) by (simp add: bs_def lib_wt_def)
  then have "nd_size (cell st a) = nd_size (cell st b) \<Longrightarrow> nd_dtype (cell st a) = nd_dtype (cell st b) \<Longrightarrow> Q (heap_write a bs st)"
    using write_ext[OF assms(2,3), of bs] assms(5) by simp
  then show ?thesis by (auto simp: safe_def heap_run_def nd_iadd_def res_simps heap_write_def cell_def bs_def Let_def)
qed

lemma alloc_ext:
  assumes "ext base st" "cell_ok x" "h = snd (nd_alloc x (ds_heap st))"
  shows "ext base (st\<lparr>ds_heap := h\<rparr>)" "nx (st\<lparr>ds_heap := h\<rparr>) = Suc (nx st)" "cell (st\<lparr>ds_heap := h\<rparr>) (nx st) = x"
  using ext_heap(1)[OF assms(1), of h] assms(2) by (auto simp: assms(3) nd_alloc_def nx_def cell_def less_Suc_eq)

lemma binop_rule [safe_intros]:
  assumes "\<And>t x y. length x = length y \<Longrightarrow> length (g t x y) = length x" "ext base st" "a < nx st" "b < nx st"
    and "\<And>c st'. ext base st' \<Longrightarrow> nx st \<le> nx st' \<Longrightarrow> c < nx st' \<Longrightarrow> safe (f c st') Q"
  shows "safe (heap_get (nd_binop g a b) st) (\<lambda>x. safe (case x of (c, st') \<Rightarrow> f c st') Q)"
proof -
  define x where "x = \<lparr>nd_dtype = nd_dtype (cell st a), nd_bytes = g (nd_dtype (cell st a)) (nd_bytes (cell st a)) (nd_bytes (cell st b))\<rparr>"
  have "cell_ok x" if "nd_size (cell st a) = nd_size (cell st b)" "nd_dtype (cell st a) = nd_dtype (cell st b)"
    using same_size[OF assms(2-4) that] assms(1,2,3) wt_cell[of st a] by (simp add: x_def cell_ok_def ext_def)
  then have "nd_size (cell st a) = nd_size (cell st b) \<Longrightarrow> nd_dtype (cell st a) = nd_dtype (cell st b) \<Longrightarrow>
    safe (f (nx st) (st\<lparr>ds_heap := snd (nd_alloc x (ds_heap st))\<rparr>)) Q"
    using alloc_ext[OF assms(2) _ refl, of x] assms(5) by simp
  then show ?thesis
    by (auto simp: safe_def heap_get_def nd_binop_def res_simps x_def cell_def nd_alloc_def nx_def Let_def)
qed

lemma scale_rule [safe_intros]:
  assumes "lib_wt L" "ext base st" "a < nx st"
    and "\<And>c h. ext base (st\<lparr>ds_heap := h\<rparr>) \<Longrightarrow> nx st \<le> nx (st\<lparr>ds_heap := h\<rparr>) \<Longrightarrow> c < nx (st\<lparr>ds_heap := h\<rparr>) \<Longrightarrow> safe (f c h) Q"
  shows "safe (case nd_scale (dl_nd L) a k (ds_heap st) of (c, h) \<Rightarrow> f c h) Q"
proof -
  define x where "x = \<lparr>nd_dtype = nd_dtype (cell st a), nd_bytes = nl_div (dl_nd L) (nd_dtype (cell st a)) (nd_bytes (cell st a)) k\<rparr>"
  have "cell_ok x" using assms(1-3) wt_cell[of st a] by (simp add: x_def cell_ok_def ext_def lib_wt_def)
  from alloc_ext[OF assms(2) this refl] assms(4) show ?thesis
    by (simp add: nd_scale_def x_def cell_def nd_alloc_def nx_def Let_def)
qed

lemma write_floats_rule [safe_intros]:
  assumes "ext base st" "a < nx st" "\<And>st'. ext base st' \<Longrightarrow> nx st \<le> nx st' \<Longrightarrow> Q st'"
  shows "safe (write_floats a xs st) Q"
proof -
  define bs where "bs = bytes_of_floats xs @ drop (length (bytes_of_floats xs)) (nd_bytes (cell st a))"
  have "length (bytes_of_floats xs) \<le> length (nd_bytes (cell st a)) \<Longrightarrow> Q (heap_write a bs st)"
    using write_ext[OF assms(1,2), of bs] assms(3) by (simp add: bs_def)
  then show ?thesis by (auto simp: safe_def write_floats_def res_simps bs_def Let_def)
qed

lemma zeros_ext: "ext base st \<Longrightarrow> a < nx st \<Longrightarrow> ext base (zeros a st) \<and> nx (zeros a st) = nx st"
  using write_ext by (simp add: zeros_def)

lemma floats_at_rule [safe_intros]: "(\<And>xs. nd_dtype (cell st a) = kFloat32 \<Longrightarrow> Q xs) \<Longrightarrow> safe (floats_at a st) Q"
  by (auto simp: safe_def floats_at_def res_simps)

lemma dequantize_rule [safe_intros]:
  assumes "ext base st" "b < nx st" "\<And>st'. ext base st' \<Longrightarrow> nx st \<le> nx st' \<Longrightarrow> Q st'"
  shows "safe (dequantize_into L a b st) Q" "safe (decompress_into L a b st) Q"
  unfolding dequantize_into_def decompress_into_def
  by (rule safe_rbind, rule safe_any, rule write_floats_rule[OF assms(1,2)], rule assms(3), assumption+,
      (rule safe_rbind, rule safe_any)+, rule write_floats_rule[OF assms(1,2)], rule assms(3), assumption+)

lemma handle_rule [safe_intros]: "(\<And>a. r = Some a \<Longrightarrow> Q a) \<Longrightarrow> safe (handle r) Q"
  by (auto simp: safe_def handle_def split: option.splits)

lemma memory_rule [safe_intros]: "(\<And>x. Q x) \<Longrightarrow> safe (memory a n st) Q" "(\<And>x. Q' x) \<Longrightarrow> safe (mshadow_sizeof t) Q'"
  by (auto intro: safe_any)

subsection \<open>State updates\<close>

lemma ext_plain [simp]:
  "ext base (st\<lparr>ks_proc := x0\<rparr>) = ext base st" "ext base (st\<lparr>ds_store_keys := x1\<rparr>) = ext base st"
  "ext base (st\<lparr>ds_initialized := x2\<rparr>) = ext base st" "ext base (st\<lparr>ds_recv_kvs := x3\<rparr>) = ext base st"
  "ext base (st\<lparr>ds_key_map := x4\<rparr>) = ext base st" "ext base (st\<lparr>ds_ts_key_map := x5\<rparr>) = ext base st"
  "ext base (st\<lparr>ds_ps_kv := x6\<rparr>) = ext base st" "ext base (st\<lparr>ds_compr_push := x7\<rparr>) = ext base st"
  "ext base (st\<lparr>ds_compr_pull := x8\<rparr>) = ext base st" "ext base (st\<lparr>ds_local_iters := x9\<rparr>) = ext base st"
  "ext base (st\<lparr>ds_gc := x10\<rparr>) = ext base st" "ext base (st\<lparr>ds_send_q := x11\<rparr>) = ext base st"
  "ext base (st\<lparr>ds_req_meta_buf := x12\<rparr>) = ext base st"
  "ext base (st\<lparr>ds_req_data_buf := x13\<rparr>) = ext base st"
  "ext base (st\<lparr>ds_num_stop_executor := x14\<rparr>) = ext base st"
  "ext base (st\<lparr>ds_stopped := x15\<rparr>) = ext base st" "ext base (st\<lparr>ds_optimizer := x16\<rparr>) = ext base st"
  "ext base (st\<lparr>ds_moves := x17\<rparr>) = ext base st" "ext base (st\<lparr>ds_sync_mode := x18\<rparr>) = ext base st"
  "ext base (st\<lparr>ds_sync_global_mode := x19\<rparr>) = ext base st"
  "ext base (st\<lparr>ds_multi_precision := x20\<rparr>) = ext base st"
  by (simp_all add: ext_def wt_def hext_def nx_def cell_def)

lemma nx_upd [simp]:
  "nx (st\<lparr>ks_proc := x0\<rparr>) = nx st" "nx (st\<lparr>ds_store_keys := x1\<rparr>) = nx st"
  "nx (st\<lparr>ds_initialized := x2\<rparr>) = nx st" "nx (st\<lparr>ds_recv_kvs := x3\<rparr>) = nx st"
  "nx (st\<lparr>ds_key_map := x4\<rparr>) = nx st" "nx (st\<lparr>ds_ts_key_map := x5\<rparr>) = nx st"
  "nx (st\<lparr>ds_ps_kv := x6\<rparr>) = nx st" "nx (st\<lparr>ds_compr_push := x7\<rparr>) = nx st"
  "nx (st\<lparr>ds_compr_pull := x8\<rparr>) = nx st" "nx (st\<lparr>ds_local_iters := x9\<rparr>) = nx st"
  "nx (st\<lparr>ds_gc := x10\<rparr>) = nx st" "nx (st\<lparr>ds_send_q := x11\<rparr>) = nx st"
  "nx (st\<lparr>ds_req_meta_buf := x12\<rparr>) = nx st" "nx (st\<lparr>ds_req_data_buf := x13\<rparr>) = nx st"
  "nx (st\<lparr>ds_num_stop_executor := x14\<rparr>) = nx st" "nx (st\<lparr>ds_stopped := x15\<rparr>) = nx st"
  "nx (st\<lparr>ds_optimizer := x16\<rparr>) = nx st" "nx (st\<lparr>ds_moves := x17\<rparr>) = nx st"
  "nx (st\<lparr>ds_sync_mode := x18\<rparr>) = nx st" "nx (st\<lparr>ds_sync_global_mode := x19\<rparr>) = nx st"
  "nx (st\<lparr>ds_multi_precision := x20\<rparr>) = nx st" "nx (st\<lparr>ds_store := x21\<rparr>) = nx st"
  "nx (st\<lparr>ds_milestone := x22\<rparr>) = nx st" "nx (st\<lparr>ds_realt := x23\<rparr>) = nx st"
  "nx (st\<lparr>ds_comm_buf := x24\<rparr>) = nx st" "nx (st\<lparr>ds_compr_buf := x25\<rparr>) = nx st"
  "nx (st\<lparr>ds_velocity := x26\<rparr>) = nx st" "nx (st\<lparr>ds_accumulated := x27\<rparr>) = nx st"
  "nx (st\<lparr>ds_residual := x28\<rparr>) = nx st" "nx (st\<lparr>ds_update_buf := x29\<rparr>) = nx st"
  "nx (st\<lparr>ds_update_tmp := x30\<rparr>) = nx st" "nx (st\<lparr>ds_update_global := x31\<rparr>) = nx st"
  by (simp_all add: nx_def)

lemma ext_handles [intro!]:
  "ext base st \<Longrightarrow> below (nx st) x0 \<Longrightarrow> ext base (st\<lparr>ds_store := x0\<rparr>)"
  "ext base st \<Longrightarrow> below (nx st) x1 \<Longrightarrow> ext base (st\<lparr>ds_milestone := x1\<rparr>)"
  "ext base st \<Longrightarrow> below (nx st) x2 \<Longrightarrow> ext base (st\<lparr>ds_realt := x2\<rparr>)"
  "ext base st \<Longrightarrow> below (nx st) x3 \<Longrightarrow> ext base (st\<lparr>ds_comm_buf := x3\<rparr>)"
  "ext base st \<Longrightarrow> below (nx st) x4 \<Longrightarrow> ext base (st\<lparr>ds_compr_buf := x4\<rparr>)"
  "ext base st \<Longrightarrow> below (nx st) x5 \<Longrightarrow> ext base (st\<lparr>ds_velocity := x5\<rparr>)"
  "ext base st \<Longrightarrow> below (nx st) x6 \<Longrightarrow> ext base (st\<lparr>ds_accumulated := x6\<rparr>)"
  "ext base st \<Longrightarrow> below (nx st) x7 \<Longrightarrow> ext base (st\<lparr>ds_residual := x7\<rparr>)"
  "ext base st \<Longrightarrow> bufs_below (nx st) y0 \<Longrightarrow> ext base (st\<lparr>ds_update_buf := y0\<rparr>)"
  "ext base st \<Longrightarrow> bufs_below (nx st) y1 \<Longrightarrow> ext base (st\<lparr>ds_update_tmp := y1\<rparr>)"
  "ext base st \<Longrightarrow> bufs_below (nx st) y2 \<Longrightarrow> ext base (st\<lparr>ds_update_global := y2\<rparr>)"
  by (simp_all add: ext_def wt_def hext_def nx_def cell_def)

lemma ext_below:
  assumes "ext base st"
  shows
    "below (nx st) (ds_store st)" "below (nx st) (ds_milestone st)" "below (nx st) (ds_realt st)" "below (nx st) (ds_comm_buf st)"
    "below (nx st) (ds_compr_buf st)" "below (nx st) (ds_velocity st)" "below (nx st) (ds_accumulated st)"
    "below (nx st) (ds_residual st)" "bufs_below (nx st) (ds_update_buf st)" "bufs_below (nx st) (ds_update_tmp st)"
    "bufs_below (nx st) (ds_update_global st)"
  using assms by (simp_all add: ext_def wt_def)

lemma below_upd [intro!]: "below n f \<Longrightarrow> a < n \<Longrightarrow> below n (f(k \<mapsto> a))"
  by (auto simp: below_def)

lemma belowD: "below n f \<Longrightarrow> f k = Some a \<Longrightarrow> a < n"
  by (auto simp: below_def)

lemma bufs_belowD: "bufs_below n u \<Longrightarrow> ub_merged (u k) = Some a \<Longrightarrow> a < n" "bufs_below n u \<Longrightarrow> ub_temp (u k) = Some a \<Longrightarrow> a < n"
  by (auto simp: bufs_below_def below_def)

lemma bufs_upd:
  assumes "bufs_below n u"
  shows "bufs_below n (u(k := (u j)\<lparr>ub_request := r\<rparr>))" "a < n \<Longrightarrow> bufs_below n (u(k := (u j)\<lparr>ub_merged := Some a\<rparr>))"
    "a < n \<Longrightarrow> bufs_below n (u(k := (u j)\<lparr>ub_temp := Some a\<rparr>))"
  using assms by (auto simp: bufs_below_def below_def)

lemma ext_lookup:
  assumes "ext base st"
  shows "ds_store st k = Some a \<Longrightarrow> a < nx st" "ds_milestone st k = Some a \<Longrightarrow> a < nx st" "ds_realt st k = Some a \<Longrightarrow> a < nx st"
    "ds_comm_buf st k = Some a \<Longrightarrow> a < nx st" "ds_compr_buf st k = Some a \<Longrightarrow> a < nx st" "ds_velocity st k = Some a \<Longrightarrow> a < nx st"
    "ds_accumulated st k = Some a \<Longrightarrow> a < nx st" "ds_residual st k = Some a \<Longrightarrow> a < nx st"
    "ub_merged (ds_update_buf st k) = Some a \<Longrightarrow> a < nx st" "ub_temp (ds_update_buf st k) = Some a \<Longrightarrow> a < nx st"
    "ub_merged (ds_update_global st k) = Some a \<Longrightarrow> a < nx st" "stored_ref mp k st = Some a \<Longrightarrow> a < nx st"
  using ext_below[OF assms] belowD bufs_belowD by (auto simp: stored_ref_def split: if_splits)

lemma set_stored_ext: "ext base st \<Longrightarrow> a < nx st \<Longrightarrow> ext base (set_stored mp key a st) \<and> ext base (set_store key a st)"
  using ext_below(1,3) by (auto simp: set_stored_def set_store_def)

lemma nx_set_stored [simp]: "nx (set_stored mp key a st) = nx st" "nx (set_store key a st) = nx st"
  by (simp_all add: set_stored_def set_store_def nx_def)

text \<open>The requests of a buffer are no handles.\<close>

lemma requests_ext [simp]:
  "ext base (add_requests key reqs st) \<longleftrightarrow> ext base st" "ext base (clear_requests key st) \<longleftrightarrow> ext base st"
  "nx (add_requests key reqs st) = nx st" "nx (clear_requests key st) = nx st"
proof -
  have "bufs_below n ((ds_update_buf st)(key := (ds_update_buf st key)\<lparr>ub_request := r\<rparr>)) \<longleftrightarrow> bufs_below n (ds_update_buf st)" for n r
    by (auto simp: bufs_below_def below_def)
  then show "ext base (add_requests key reqs st) \<longleftrightarrow> ext base st" "ext base (clear_requests key st) \<longleftrightarrow> ext base st"
    by (simp_all add: add_requests_def clear_requests_def set_updates_def ext_def wt_def hext_def nx_def cell_def Let_def)
qed (simp_all add: add_requests_def clear_requests_def set_updates_def nx_def Let_def)

lemma buffers_ext:
  assumes "ext base st" "st' = ensure_merged L n d key st \<or> st' = ensure_temp L n d key st"
  shows "ext base st' \<and> nx st \<le> nx st'"
proof -
  have "ext base (set_updates key ((ds_update_buf s key)\<lparr>ub_merged := Some a\<rparr>) s) \<and> ext base (set_updates key ((ds_update_buf s key)\<lparr>ub_temp := Some a\<rparr>) s) \<and>
    nx st \<le> nx s" if new: "heap_new (dl_nd L) n d st = (a, s)" for a s
  proof -
    have "safe (case heap_new (dl_nd L) n d st of (a, s) \<Rightarrow> Inr (a, s)) (\<lambda>(a, s). ext base s \<and> nx st \<le> nx s \<and> a < nx s)"
      by (rule new_rule[OF assms(1)]) (simp add: safe_def)
    then have e: "ext base s" "nx st \<le> nx s" "a < nx s" by (auto simp: new safe_def)
    from bufs_upd(2,3)[OF ext_below(9)[OF e(1)] e(3)] e show ?thesis by (auto simp: set_updates_def)
  qed
  then show ?thesis using assms(1,2) by (auto simp: ensure_merged_def ensure_temp_def set_updates_def split: option.splits prod.splits)
qed

lemma prepare_ext:
  assumes "ext base st"
  shows "ext base (prepare_updates L type mp key n st) \<and> nx st \<le> nx (prepare_updates L type mp key n st)"
proof -
  note m = buffers_ext[OF assms disjI1[OF refl], of L n "new_dtype mp type" key]
  note t = buffers_ext[OF conjunct1[OF m] disjI2[OF refl], of L n kFloat32 key]
  show ?thesis using m t by (cases mp) (auto simp: prepare_updates_def Let_def)
qed

subsection \<open>Messages\<close>

text \<open>Sending changes only the part of the state the key-value server has.\<close>

lemma more_ext:
  assumes "KVServer.more st' = KVServer.more st"
  shows "ext base st' = ext base st" "nx st' = nx st"
proof -
  have "st' = st\<lparr>ks_proc := ks_proc st', ks_this := ks_this st', ks_callbacks := ks_callbacks st', ks_send_push := ks_send_push st',
    ks_iter := ks_iter st', ks_global_iter := ks_global_iter st', ks_enable_intra_ts := ks_enable_intra_ts st', ks_enable_inter_ts := ks_enable_inter_ts st',
    ks_enable_p3 := ks_enable_p3 st', ks_enable_dgt := ks_enable_dgt st', ks_dmlc_k := ks_dmlc_k st', ks_contribution_alpha := ks_contribution_alpha st',
    ks_dgt_info := ks_dgt_info st', ks_block_size := ks_block_size st', ks_dmlc_k_init := ks_dmlc_k_init st', ks_dmlc_k_min := ks_dmlc_k_min st',
    ks_adaptive_k_flag := ks_adaptive_k_flag st', ks_udp_channel_num := ks_udp_channel_num st', ks_contribution := ks_contribution st'\<rparr>"
    (is "st' = ?s") by (rule KVServer.equality) (simp_all add: assms)
  moreover have "ext base ?s = ext base st" "nx ?s = nx st" by (simp_all add: ext_def wt_def hext_def nx_def cell_def)
  ultimately show "ext base st' = ext base st" "nx st' = nx st" by metis+
qed

lemma more_rule:
  assumes "safe r (\<lambda>st'. KVServer.more st' = KVServer.more st)" "ext base st" "\<And>st'. ext base st' \<Longrightarrow> nx st \<le> nx st' \<Longrightarrow> Q st'"
  shows "safe r Q"
  using assms more_ext unfolding safe_def by (metis order_refl)

lemma srv_more:
  "safe (srv_proc f s) (\<lambda>(s', x). KVServer.more s' = KVServer.more s)" "safe (srv_run g s) (\<lambda>s'. KVServer.more s' = KVServer.more s)"
  by (auto simp: safe_def srv_proc_def srv_run_def res_simps)

lemma Response_more: "safe (KVServer_Response L req res g s) (\<lambda>s'. KVServer.more s' = KVServer.more s)"
  by (auto simp: safe_def KVServer_Response_def srv_proc_def res_simps Let_def)

lemma AutoPull_more: "safe (KVServer_AutoPullUpdate L ms v req kvs g i k c s) (\<lambda>(s', ms). KVServer.more s' = KVServer.more s)"
  by (auto simp: safe_def KVServer_AutoPullUpdate_def next_iter_def srv_proc_def res_simps Let_def split: if_splits)

lemma dgt_send_more: "safe (dgt_send L ts cmd i d kvs s) (\<lambda>s'. KVServer.more s' = KVServer.more s)"
  by (auto simp: safe_def dgt_send_def srv_run_def res_simps Let_def)

lemma send_slices_more:
  "safe (server_send_slices L ts push cmd kvs forward mk i ss s) (\<lambda>s'. KVServer.more s' = KVServer.more s)"
proof (induction ss arbitrary: i s)
  case (Cons x ss)
  obtain sent sl where x: "x = (sent, sl)" by fastforce
  show ?case
  proof (cases sent)
    case True
    have step: "safe (if q then dgt_send L ts cmd i d kvs s
        else rbind (obj (ks_this s) (ks_proc s)) (\<lambda>c. rbind (mk i sl c s) (\<lambda>m. rbind (srv_proc (Send (sl_world L) m True) s) (\<lambda>(s1, _).
          Inr (if forward then s1\<lparr>ks_send_push := 0\<rparr> else s1))))) (\<lambda>s1. KVServer.more s1 = KVServer.more s)" for q d
      using dgt_send_more[of L ts cmd i d kvs s] by (auto simp: safe_def srv_proc_def res_simps)
    show ?thesis unfolding x server_send_slices.simps if_not_P[OF not_not[THEN iffD2, OF True]]
      by (rule safe_rbind, rule safe_any, rule safe_rbind, rule safe_mono[OF step], rule safe_mono[OF Cons.IH], simp)
  next
    case False
    then show ?thesis using Cons.IH by (simp add: x)
  qed
qed (simp add: safe_def)

subsection \<open>Rules for the parts of the handlers\<close>

lemma safe_branch [safe_intros]:
  "(c \<Longrightarrow> safe x Q) \<Longrightarrow> (\<not> c \<Longrightarrow> safe y Q) \<Longrightarrow> safe (if c then x else y) Q"
  by simp

lemma safe_option [safe_intros]:
  "(r = None \<Longrightarrow> safe x Q) \<Longrightarrow> (\<And>a. r = Some a \<Longrightarrow> safe (f a) Q) \<Longrightarrow> safe (case r of None \<Rightarrow> x | Some a \<Rightarrow> f a) Q"
  by (auto split: option.split)

lemma respond_rule [safe_intros]:
  assumes "ext base st" "\<And>st'. ext base st' \<Longrightarrow> nx st \<le> nx st' \<Longrightarrow> Q st'"
  shows "safe (respond L req g st) Q" "safe (KVServer_Response (dl_kvs L) req res g st) Q"
  unfolding respond_def by (rule more_rule[OF Response_more assms(1)], rule assms(2), assumption+)+

lemma respond_each_rule [safe_intros]:
  assumes "ext base st" "\<And>st'. ext base st' \<Longrightarrow> nx st \<le> nx st' \<Longrightarrow> Q st'"
  shows "safe (respond_each L g reqs st) Q" "safe (respond_central L reqs st) Q" "safe (respond_stored_each L key r reqs st) Q"
proof -
  show "safe (respond_each L g reqs st) Q" using assms
    by (induction reqs arbitrary: st) (auto intro!: safe_rbind respond_rule safe_basic intro: order_trans)
  show "safe (respond_central L reqs st) Q" using assms
    by (induction reqs arbitrary: st) (auto intro!: safe_rbind respond_rule safe_basic intro: order_trans)
  show "safe (respond_stored_each L key r reqs st) Q" using assms
    by (induction reqs arbitrary: st) (auto simp: respond_stored_def Let_def intro!: safe_rbind respond_rule handle_rule safe_basic intro: order_trans)
qed

lemma respond_stored_rule [safe_intros]:
  "ext base st \<Longrightarrow> (\<And>st'. ext base st' \<Longrightarrow> nx st \<le> nx st' \<Longrightarrow> Q st') \<Longrightarrow> safe (respond_stored L key r req st) Q"
  by (auto simp: respond_stored_def Let_def intro!: safe_rbind respond_rule handle_rule)

lemma DecodeKey_ext: "DecodeKey k g s = Inr (x, s') \<Longrightarrow> ext base s \<Longrightarrow> ext base s' \<and> nx s' = nx s"
  by (auto simp: DecodeKey_def res_simps Let_def split: prod.splits)

lemma key_rule [safe_intros]:
  assumes "ext base st" "\<And>k st'. ext base st' \<Longrightarrow> nx st \<le> nx st' \<Longrightarrow> safe (f k st') Q"
  shows "safe (DecodeKey k g st) (\<lambda>x. safe (case x of (k, st') \<Rightarrow> f k st') Q)"
    "safe (request_key data st) (\<lambda>x. safe (case x of (k, st') \<Rightarrow> f k st') Q)"
proof -
  show "safe (DecodeKey k g st) (\<lambda>x. safe (case x of (k, st') \<Rightarrow> f k st') Q)" for k g
    using DecodeKey_ext[OF _ assms(1), of k g] assms(2) unfolding safe_def[of "DecodeKey k g st"] by fastforce
  then show "safe (request_key data st) (\<lambda>x. safe (case x of (k, st') \<Rightarrow> f k st') Q)"
    using assms by (simp add: request_key_def safe_def)
qed

lemma compressed_keys_rule [safe_intros]:
  assumes "ext base st" "\<And>n k st'. ext base st' \<Longrightarrow> nx st \<le> nx st' \<Longrightarrow> safe (f n k st') Q"
  shows "safe (compressed_keys data st) (\<lambda>x. safe (case x of (n, k, st') \<Rightarrow> f n k st') Q)"
proof -
  have "ext base s' \<and> nx s' = nx st" if "compressed_keys data st = Inr (n, k, s')" for n k s'
    using that DecodeKey_ext[OF _ assms(1)] DecodeKey_ext by (fastforce simp: compressed_keys_def res_simps)
  then show ?thesis using assms(2) unfolding safe_def[of "compressed_keys data st"] by fastforce
qed

lemma encode_ext:
  assumes "ext base st"
  shows "safe (EncodeDefaultKey L key n nb st) (\<lambda>x. ext base (snd x) \<and> nx (snd x) = nx st)"
    "safe (EncodeCompressedKey L key n p nb st) (\<lambda>x. ext base (snd x) \<and> nx (snd x) = nx st)"
  unfolding EncodeDefaultKey_def EncodeCompressedKey_def Let_def case_prod_beta
   apply (rule safe_branch, rule safe_basic(3), rule safe_basic(2), simp add: assms)
   apply (rule safe_basic(3), rule safe_rbind, rule safe_any, rule safe_basic(3), rule safe_basic(2), simp add: assms)
  apply (rule safe_basic(3), rule safe_rbind, rule safe_any, rule safe_branch, rule safe_basic(3), rule safe_basic(2), simp add: assms)
  apply (rule safe_rbind, rule safe_any, rule safe_basic(2), simp add: assms)
  done

lemma encode_rule [safe_intros]:
  assumes "ext base st" "\<And>k st'. ext base st' \<Longrightarrow> nx st \<le> nx st' \<Longrightarrow> safe (f k st') Q"
  shows "safe (EncodeDefaultKey L key n nb st) (\<lambda>x. safe (case x of (k, st') \<Rightarrow> f k st') Q)"
    "safe (EncodeCompressedKey L key n p nb st) (\<lambda>x. safe (case x of (k, st') \<Rightarrow> f k st') Q)"
  by (rule safe_mono[OF encode_ext(1)[OF assms(1)]], auto intro: assms(2))
    (rule safe_mono[OF encode_ext(2)[OF assms(1)]], auto intro: assms(2))

text \<open>The requests of the server itself; a push may merge first.\<close>

definition merge_wt :: "DistLib \<Rightarrow> bool" where
  "merge_wt L \<longleftrightarrow> (\<forall>m d. keeps (sl_request_global (dl_kvs L) m d))"

lemma Send_rule [safe_intros]:
  assumes "lib_wt L" "ext base st" "\<And>st'. ext base st' \<Longrightarrow> nx st \<le> nx st' \<Longrightarrow> Q st'"
  shows "safe (KVServer_Send (dl_kvs L) ts push cmd kvs uk kv app cu nm st) Q"
proof -
  have cb: "safe (KVServer_RunCallback (dl_kvs L) ts s) (\<lambda>s'. ext base s' \<and> nx st \<le> nx s')" if "ext base s" "nx st \<le> nx s" for s
  proof (cases "ks_callbacks s ts")
    case None
    then show ?thesis using that by (simp add: KVServer_RunCallback_def safe_def)
  next
    case (Some c)
    have k: "keeps (sl_user (dl_kvs L) c)" using assms(1) by (simp add: lib_wt_def)
    have m: "ext base (s'\<lparr>ks_callbacks := x\<rparr>) = ext base s'" "nx (s'\<lparr>ks_callbacks := x\<rparr>) = nx s'" for s' x by (rule more_ext; simp)+
    show ?thesis using that unfolding KVServer_RunCallback_def Some option.case
      by (intro safe_rbind keeps_rule[OF k that(1)] safe_basic) (auto simp: m)
  qed
  show ?thesis unfolding KVServer_Send_def Let_def case_prod_beta
    apply (rule safe_rbind, rule safe_any, rule safe_rbind, rule more_rule[where base = base, OF srv_more(2)], simp add: assms(2))
    apply (rule safe_rbind, rule safe_mono[where P = "\<lambda>s'. ext base s' \<and> nx st \<le> nx s'"])
     apply (rule safe_branch, rule cb, assumption, simp, rule safe_basic, simp)
    apply (rule more_rule[where base = base, OF send_slices_more], simp, rule assms(3), assumption, simp)
    done
qed

lemma srv_proc_rule:
  assumes "ext base st" "\<And>s x. ext base s \<Longrightarrow> nx st \<le> nx s \<Longrightarrow> safe (f s x) Q"
  shows "safe (srv_proc g st) (\<lambda>y. safe (case y of (s, x) \<Rightarrow> f s x) Q)"
  unfolding srv_proc_def by (rule safe_rbind, rule safe_any) (auto intro!: safe_basic(2) assms(2) simp: assms(1) split: prod.split)

lemma requests_rule [safe_intros]:
  assumes "lib_wt L" "ext base st" "\<And>s ts. ext base s \<Longrightarrow> nx st \<le> nx s \<Longrightarrow> safe (f s ts) Q"
  shows "merge_wt L \<Longrightarrow> safe (KVServer_Push (dl_kvs L) kvs cmd None uk st) (\<lambda>y. safe (case y of (s, ts) \<Rightarrow> f s ts) Q)"
    "safe (KVServer_Pull (dl_kvs L) keys cmd uk st) (\<lambda>y. safe (case y of (s, ts) \<Rightarrow> f s ts) Q)"
proof -
  have m: "keeps (sl_request_global (dl_kvs L) m d)" if "merge_wt L" for m d using that by (simp add: merge_wt_def)
  show "safe (KVServer_Push (dl_kvs L) kvs cmd None uk st) (\<lambda>y. safe (case y of (s, ts) \<Rightarrow> f s ts) Q)" if w: "merge_wt L"
    unfolding KVServer_Push_def KVServer_AddCallback_def Let_def option.case
    by (intro safe_rbind srv_proc_rule[OF assms(2)] safe_branch safe_any[where r = "obj x y" for x y] Send_rule[OF assms(1)]
        keeps_rule[OF m[OF w]] more_rule[where base = base, OF srv_more(2)] safe_basic; (assumption | simp, rule assms(3), assumption, simp))
  show "safe (KVServer_Pull (dl_kvs L) keys cmd uk st) (\<lambda>y. safe (case y of (s, ts) \<Rightarrow> f s ts) Q)"
    unfolding KVServer_Pull_def
    by (intro safe_rbind srv_proc_rule[OF assms(2)] Send_rule[OF assms(1)] safe_basic; (assumption | simp, rule assms(3), assumption, simp))
qed

subsection \<open>The handlers\<close>

lemmas handler_intros = safe_intros set_stored_ext[THEN conjunct1] set_stored_ext[THEN conjunct2]

lemma push_pskv_rule [safe_intros]:
  assumes "lib_wt L" "merge_wt L" "ext base st" "\<And>s ts. ext base s \<Longrightarrow> nx st \<le> nx s \<Longrightarrow> Q (s, ts)"
  shows "safe (push_pskv L pskv vals cmd uk st) Q"
proof -
  have "safe (KVServer_Push (dl_kvs L) \<lparr>kv_keys = pk_keys pskv, kv_vals = vals, kv_lens = pk_lens pskv, kv_priority = 0\<rparr> cmd None uk st)
    (\<lambda>y. safe (case y of (s, ts) \<Rightarrow> Inr (s, ts)) Q)"
    by (rule requests_rule(1)[OF assms(1,3) _ assms(2)]) (auto intro!: safe_basic assms(4))
  then show ?thesis unfolding push_pskv_def by (auto simp: safe_def)
qed

lemma quantize_length:
  "Quantize fp gc nb grad res = Inr (res', out) \<Longrightarrow> length out = 4 * nb"
proof -
  have st: "length (snd (fold (quantize_step fp ng ps grad start) xs (r, blk))) = length blk" for ng ps start xs r blk
    by (induction xs arbitrary: r blk) (auto simp: quantize_step_eq)
  have "length (snd (quantize_blocks fp ng ps grad bs r)) = 4 * length bs" for ng ps bs r
  proof (induction bs arbitrary: r)
    case (Cons b bs)
    have "length (snd (quantize_2bit fp ng ps grad b r)) = 4" using st by (simp add: quantize_2bit_def Let_def)
    then show ?case using Cons by (auto simp: Let_def split: prod.splits) (metis snd_conv)+
  qed simp
  then show "Quantize fp gc nb grad res = Inr (res', out) \<Longrightarrow> length out = 4 * nb"
    by (auto simp: Quantize_def res_simps split: if_splits) (metis length_upt minus_nat.diff_0 snd_conv)
qed

lemma push_uncompressed_rule [safe_intros]:
  assumes "lib_wt L" "merge_wt L" "ext base st" "\<And>s ts. ext base s \<Longrightarrow> nx st \<le> nx s \<Longrightarrow> Q (s, ts)"
  shows "safe (push_uncompressed L type key a st) Q"
  unfolding push_uncompressed_def Let_def
  by (intro safe_rbind memory_rule encode_rule[OF assms(3)] push_pskv_rule[OF assms(1,2)] assms(4); (assumption | simp))

lemma push_plain_rule [safe_intros]:
  assumes "lib_wt L" "merge_wt L" "ext base st" "\<And>s ts. ext base s \<Longrightarrow> nx st \<le> nx s \<Longrightarrow> Q (s, ts)"
  shows "safe (DataPushToGlobalServersDefault L type key st) Q"
  unfolding DataPushToGlobalServersDefault_def
  by (intro safe_rbind safe_basic handle_rule push_uncompressed_rule[OF assms(1-3)] assms(4))

lemma new_ext:
  assumes "ext base st" "heap_new N n t st = (a, st')"
  shows "ext base st' \<and> nx st \<le> nx st' \<and> a < nx st'"
proof -
  have "safe (case heap_new N n t st of (a, s) \<Rightarrow> Inr (a, s)) (\<lambda>(a, s). ext base s \<and> nx st \<le> nx s \<and> a < nx s)"
    by (rule new_rule[OF assms(1)]) (simp add: safe_def)
  then show ?thesis by (simp add: assms(2) safe_def)
qed

lemma compression_buffers_ext:
  assumes "ext base st"
  shows "ext base (two_bit_buffers L key sz n d st) \<and> nx st \<le> nx (two_bit_buffers L key sz n d st)"
    "ext base (bi_sparse_buffers L key sz n st) \<and> nx st \<le> nx (bi_sparse_buffers L key sz n st)"
    "ext base (snd (receive_buffer L key n d st)) \<and> nx st \<le> nx (snd (receive_buffer L key n d st)) \<and>
      fst (receive_buffer L key n d st) < nx (snd (receive_buffer L key n d st))"
proof -
  note mono = handles_mono[OF ext_below(5)[OF assms]] handles_mono[OF ext_below(6)[OF assms]] handles_mono[OF ext_below(7)[OF assms]]
    handles_mono[OF ext_below(8)[OF assms]]
  show "ext base (two_bit_buffers L key sz n d st) \<and> nx st \<le> nx (two_bit_buffers L key sz n d st)"
  proof (cases "ds_compr_buf st key")
    case None
    obtain b st1 where 1: "heap_new (dl_nd L) sz d st = (b, st1)" by fastforce
    obtain r st2 where 2: "heap_new (dl_nd L) n d st1 = (r, st2)" by fastforce
    note e1 = new_ext[OF assms 1] and e2 = new_ext[OF conjunct1[OF new_ext[OF assms 1]] 2]
    note z = zeros_ext[OF conjunct1[OF e2], of r]
    show ?thesis using None e1 e2 z mono by (auto simp: two_bit_buffers_def 1 2 intro!: ext_handles below_upd)
  qed (simp add: two_bit_buffers_def assms)
  show "ext base (bi_sparse_buffers L key sz n st) \<and> nx st \<le> nx (bi_sparse_buffers L key sz n st)"
  proof (cases "ds_compr_buf st key")
    case None
    obtain b st1 where 1: "heap_new (dl_nd L) sz kFloat32 st = (b, st1)" by fastforce
    obtain u st2 where 2: "heap_new (dl_nd L) n kFloat32 st1 = (u, st2)" by fastforce
    obtain v st3 where 3: "heap_new (dl_nd L) n kFloat32 st2 = (v, st3)" by fastforce
    note e1 = new_ext[OF assms 1]
    note e2 = new_ext[OF conjunct1[OF e1] 2]
    note e3 = new_ext[OF conjunct1[OF e2] 3]
    have z: "ext base (zeros v (zeros u st3))" "nx (zeros v (zeros u st3)) = nx st3"
      using zeros_ext[of base st3 u] zeros_ext[of base "zeros u st3" v] e2 e3 by auto
    show ?thesis using None e1 e2 e3 z mono by (auto simp: bi_sparse_buffers_def 1 2 3 intro!: ext_handles below_upd)
  qed (simp add: bi_sparse_buffers_def assms)
  show "ext base (snd (receive_buffer L key n d st)) \<and> nx st \<le> nx (snd (receive_buffer L key n d st)) \<and>
      fst (receive_buffer L key n d st) < nx (snd (receive_buffer L key n d st))"
  proof (cases "ds_comm_buf st key")
    case None
    obtain b st1 where 1: "heap_new (dl_nd L) n d st = (b, st1)" by fastforce
    note e1 = new_ext[OF assms 1]
    show ?thesis using None e1 ext_below(4)[OF conjunct1[OF e1]] by (auto simp: receive_buffer_def 1 intro!: ext_handles below_upd)
  qed (use assms ext_lookup(4)[OF assms] in \<open>simp add: receive_buffer_def\<close>)
qed

lemma push_two_bit_rule [safe_intros]:
  assumes L: "lib_wt L" "merge_wt L" and e: "ext base st" and Q: "\<And>s ts. ext base s \<Longrightarrow> nx st \<le> nx s \<Longrightarrow> Q (s, ts)"
  shows "safe (DataPushToGlobalServersCompressed L type key st) Q"
  unfolding DataPushToGlobalServersCompressed_def Let_def
proof (intro safe_rbind safe_basic handle_rule memory_rule encode_rule[OF e] floats_at_rule, goal_cases)
  case (1 a x pskv st1 b r grad _ residual)
  define st2 where "st2 = two_bit_buffers L key (nat (pk_size pskv)) (nd_size (cell st a)) (nd_dtype (cell st a)) st1"
  have e2: "ext base st2" "nx st \<le> nx st2" using compression_buffers_ext(1)[OF 1(5)] 1(6) by (auto simp: st2_def intro: order_trans)
  have br: "b < nx st2" "r < nx st2" using 1 ext_lookup(5,8)[OF e2(1)] by (auto simp: st2_def)
  have e22: "ext st2 st2" using e2 by (simp add: ext_def)
  have f32: "nd_dtype (cell st2 b) = kFloat32" using 1 by (simp add: st2_def)
  show ?case unfolding st2_def[symmetric]
  proof (rule safe_mono[where P = "\<lambda>(res, out). length out = 4 * nd_size (cell st2 b)"], goal_cases)
    case 1
    show ?case using quantize_length by (fastforce simp: safe_def)
  next
    case (2 x)
    have "safe (rbind (write_floats r (fst x) st2) (\<lambda>st3. push_pskv L pskv (snd x) cmd kEmpty (heap_write b (snd x) st3))) Q" for cmd
    proof (intro safe_rbind write_floats_rule[OF e22 br(2)])
      fix st3 assume st3: "ext st2 st3" "nx st2 \<le> nx st3"
      have "length (nd_bytes (cell st2 b)) = 4 * nd_size (cell st2 b)"
        using wt_cell[of st2 b] e2(1) br(1) f32 by (simp add: ext_def kFloat32_def elem_size_def mshadow_sizeof_def)
      then have len: "length (snd x) = length (nd_bytes (cell st3 b))" using st3(1) br(1) 2 by (auto simp: ext_def hext_def)
      have "ext base st3" using e2(1) st3(1) hext_trans by (auto simp: ext_def)
      from write_ext[OF this _ len] br(1) st3(2) e2(2)
      show "safe (push_pskv L pskv (snd x) cmd kEmpty (heap_write b (snd x) st3)) Q"
        by (intro push_pskv_rule[OF L] Q) auto
    qed
    then show ?case by (simp add: case_prod_beta)
  qed
qed

lemma push_bi_sparse_rule [safe_intros]:
  assumes L: "lib_wt L" "merge_wt L" and e: "ext base st" and Q: "\<And>s ts. ext base s \<Longrightarrow> nx st \<le> nx s \<Longrightarrow> Q (s, ts)"
  shows "safe (DataPushToGlobalServersBSCompressed L type key st) Q"
  unfolding DataPushToGlobalServersBSCompressed_def Let_def
proof (intro safe_rbind safe_basic safe_branch handle_rule encode_rule[OF e] floats_at_rule push_uncompressed_rule[OF L e] Q, goal_cases)
  case (3 a pskv st1 b u v grad us vs)
  define st2 where "st2 = bi_sparse_buffers L key (nat (f_scale (dl_fpu L) (int (nd_size (cell st a))) (gc_threshold (ds_gc st)) 2)) (nd_size (cell st a)) st1"
  have e2: "ext base st2" "nx st \<le> nx st2" using compression_buffers_ext(2)[OF 3(5)] 3(6) by (auto simp: st2_def intro: order_trans)
  have h: "b < nx st2" "u < nx st2" "v < nx st2" using 3 ext_lookup(5-7)[OF e2(1)] by (auto simp: st2_def)
  have "safe (rbind (write_floats b out st2) (\<lambda>st3. rbind (write_floats u us1 st3) (\<lambda>st4. rbind (write_floats v vs1 st4) (\<lambda>st5.
      push_pskv L pskv (nd_bytes (cell st5 b)) cmd key st5)))) Q" for out us1 vs1 cmd
    by (intro safe_rbind write_floats_rule[where base = base] push_pskv_rule[OF L, where base = base] Q) (use e2 h in auto)
  then show ?case unfolding st2_def[symmetric] by (intro safe_any[where r = "BSCompress fp gc x y z" for fp gc x y z]) (simp split: prod.split)
qed auto

lemma pull_global_rule [safe_intros]:
  assumes L: "lib_wt L" and e: "ext base st" and Q: "\<And>s. ext base s \<Longrightarrow> nx st \<le> nx s \<Longrightarrow> Q s"
  shows "safe (DataPullFromGlobalServersDefault L type key st) Q"
proof -
  have k: "safe (if ks_enable_inter_ts s = 0 \<or> \<not> ds_initialized s key
       then rbind (KVServer_Pull (dl_kvs L) (pk_keys pskv) cmd key s) (\<lambda>(st3, _). Inr st3) else Inr s) Q"
    if "ext base s" "nx st \<le> nx s" for s pskv cmd
    by (intro safe_branch safe_rbind requests_rule(2)[OF L that(1)] safe_basic Q) (use that in auto)
  show ?thesis unfolding DataPullFromGlobalServersDefault_def Let_def
    by (intro safe_rbind safe_basic memory_rule safe_branch encode_rule[OF e] k) simp_all
qed

lemma push_response_rule [safe_intros]:
  assumes L: "lib_wt L" and e: "ext base st" and Q: "\<And>s. ext base s \<Longrightarrow> nx st \<le> nx s \<Longrightarrow> Q s"
  shows "safe (DataHandlePushResponseDefault L type req st) Q"
  unfolding DataHandlePushResponseDefault_def Let_def
  by (intro safe_basic safe_rbind, rule safe_any, intro safe_branch safe_basic pull_global_rule[OF L, where base = base] Q) (use e in auto)

lemma autopull_rule [safe_intros]:
  assumes e: "ext base st" and Q: "\<And>s. ext base s \<Longrightarrow> nx st \<le> nx s \<Longrightarrow> Q s"
  shows "safe (DefaultAutoPull L type key v req data g st) Q"
proof -
  have "safe (rbind (KVServer_AutoPullUpdate (dl_kvs L) ms v req kvs g (-1) (-1) (-1) st) (\<lambda>(st1, ms). Inr (st1\<lparr>ds_moves := ms\<rparr>))) Q" for ms kvs
  proof (rule safe_rbind, rule safe_mono[OF AutoPull_more])
    fix x :: "DistServer \<times> moves" assume "case x of (s', ms) \<Rightarrow> KVServer.more s' = KVServer.more st"
    then obtain s' ms' where x: "x = (s', ms')" "KVServer.more s' = KVServer.more st" by (cases x) auto
    show "safe (case x of (st1, ms) \<Rightarrow> Inr (st1\<lparr>ds_moves := ms\<rparr>)) Q"
      using Q[of "s'\<lparr>ds_moves := ms'\<rparr>"] e more_ext[OF x(2)] by (simp add: x(1) safe_basic(2))
  qed
  then show ?thesis unfolding DefaultAutoPull_def Let_def by (intro safe_basic safe_rbind[of "handle r" for r] handle_rule)
qed

lemma hfa_rule [safe_intros]:
  assumes L: "lib_wt L" and e: "ext base st" and r: "r < nx st" and Q: "\<And>s. ext base s \<Longrightarrow> nx st \<le> nx s \<Longrightarrow> Q s"
  shows "safe (HandleHFAAccumulate L type mp key r st) Q"
proof -
  have add: "\<And>t x y. length x = length y \<Longrightarrow> length (nl_add (dl_nd L) t x y) = length x" using L by (simp add: lib_wt_def)
  show ?thesis unfolding HandleHFAAccumulate_def Let_def
  proof (intro safe_basic safe_option safe_rbind handle_rule new_rule[OF e] binop_rule[OF add e _ r], goal_cases)
    case (1 a m st')
    then have a: "a < nx st'" using ext_lookup(12)[OF e] by (meson less_le_trans)
    show ?case by (rule copy_rule[OF L, where base = base]) (use 1 a ext_below(2)[OF 1(4)] in \<open>auto intro!: ext_handles below_upd Q\<close>)
  next
    case (4 m c st')
    have "ext base (set_stored mp key c st')" using set_stored_ext[OF 4(3,5)] by simp
    from ext_handles(2)[OF this] ext_below(2)[OF 4(3)] 4 show ?case by (intro Q) (auto simp: below_def)
  qed (use ext_lookup(2)[OF e] in auto)
qed

lemmas ext_solve = zeros_ext[THEN conjunct1] set_stored_ext[THEN conjunct1] set_stored_ext[THEN conjunct2]

lemma nx_zeros [simp]: "nx (zeros a st) = nx st"
  by (simp add: zeros_def nx_def)

lemma nx_write [simp]: "nx (heap_write a bs st) = nx st"
  by (simp add: heap_write_def nx_def nd_set_def)

lemma store_pulled_rule [safe_intros]:
  assumes L: "lib_wt L" and e: "ext base st" and r: "r < nx st" and Q: "\<And>s. ext base s \<Longrightarrow> nx st \<le> nx s \<Longrightarrow> Q s"
  shows "safe (store_pulled L type mp key r st) Q"
  unfolding store_pulled_def Let_def
  by (intro safe_intros L; (rule e | use e r in \<open>auto intro!: ext_solve Q dest: ext_lookup\<close>))

lemma dtype_copy_rule [safe_intros]:
  assumes L: "lib_wt L" and e: "ext base st" and Q: "\<And>s. ext base s \<Longrightarrow> nx st \<le> nx s \<Longrightarrow> Q s"
  shows "safe (dtype_copy L type key n st) Q"
  unfolding dtype_copy_def Let_def
  by (intro safe_intros L; (rule e | use e in \<open>auto intro!: ext_solve Q dest: ext_lookup\<close>))

lemma pull_small_rule [safe_intros]:
  assumes L: "lib_wt L" and e: "ext base st" and Q: "\<And>s. ext base s \<Longrightarrow> nx st \<le> nx s \<Longrightarrow> Q s"
  shows "safe (pull_small L type mp key nb data st) Q"
  unfolding pull_small_def Let_def
  by (intro safe_intros L; (rule e | use e in \<open>auto intro!: ext_solve Q dest: ext_lookup\<close>))

lemma pull_finish_rule [safe_intros]:
  assumes e: "ext base st" and Q: "\<And>s. ext base s \<Longrightarrow> nx st \<le> nx s \<Longrightarrow> Q s"
  shows "safe (pull_finish L type mp key req data st) Q"
  unfolding pull_finish_def Let_def
  by (intro safe_intros; (rule e | use e in \<open>auto intro!: ext_solve Q bufs_upd ext_below dest: ext_lookup\<close>))

lemma storage_response_rule [safe_intros]:
  assumes L: "lib_wt L" and e: "ext base st" and Q: "\<And>s. ext base s \<Longrightarrow> nx st \<le> nx s \<Longrightarrow> Q s"
  shows "safe (DefaultStorageResponse L type key req data st) Q"
  unfolding DefaultStorageResponse_def Let_def
  by (intro safe_intros L safe_any[where r = "BSCPullCompress F g xs n" for F g xs n]; (rule e | use e in \<open>auto intro!: ext_solve Q dest: ext_lookup\<close>))

lemma answer_pull_rule [safe_intros]:
  assumes L: "lib_wt L" and e: "ext base st" and Q: "\<And>s. ext base s \<Longrightarrow> nx st \<le> nx s \<Longrightarrow> Q s"
  shows "safe (DecodeKey k g st) (\<lambda>x. safe (answer_pull L type req data x) Q)"
    "safe (request_key data st) (\<lambda>x. safe (answer_pull L type req data x) Q)"
  unfolding answer_pull_def
  by (intro safe_intros L; (rule e | auto intro: Q))+

lemma fill_length: "fill_loop ss pv pl vals lens = Inr (vals', lens') \<Longrightarrow> length vals' = length vals"
  by (induction ss pv pl vals lens rule: fill_loop.induct) (auto simp: res_simps blit_def split: option.splits)

lemma receive_rule [safe_intros]:
  assumes e: "ext base st" and Q: "\<And>b s. ext base s \<Longrightarrow> nx st \<le> nx s \<Longrightarrow> b < nx s \<Longrightarrow> safe (f b s) Q"
  shows "safe (case receive_buffer L key n d st of (b, s) \<Rightarrow> f b s) Q"
  using compression_buffers_ext(3)[OF e] Q by (simp add: case_prod_beta)

lemma fill_rule [safe_intros]:
  "(\<And>v l. length v = length vals \<Longrightarrow> safe (f v l) Q) \<Longrightarrow> safe (fill_loop ss pv pl vals lens) (\<lambda>x. safe (case x of (v, l) \<Rightarrow> f v l) Q)"
  using fill_length unfolding safe_def[of "fill_loop ss pv pl vals lens"] by fastforce

lemma totals_rule [safe_intros]:
  "(\<And>a b. safe (f a b) Q) \<Longrightarrow> safe (pull_totals x y z) (\<lambda>x. safe (case x of (a, b) \<Rightarrow> f a b) Q)"
  by (rule safe_any) (simp add: case_prod_beta)

lemma pure_rule [safe_intros]:
  "(\<And>y. Q y) \<Longrightarrow> safe (mshadow_sizeof x) Q"
  "(\<And>y. Q' y) \<Longrightarrow> safe (sized a b c) Q'"
  "(\<And>y. Q'' y) \<Longrightarrow> safe (DepairDataHandleType i) Q''"
  "(\<And>y. R y) \<Longrightarrow> safe (my_node g v) R"
  by (rule safe_any; assumption)+

lemma pull_large_rule [safe_intros]:
  assumes L: "lib_wt L" and e: "ext base st" and Q: "\<And>s. ext base s \<Longrightarrow> nx st \<le> nx s \<Longrightarrow> Q s"
  shows "safe (pull_large L type mp key nb kvs st) Q"
  unfolding pull_large_def Let_def
  by (intro safe_intros L; (rule e | auto intro!: Q write_ext simp: cell_def split: if_splits))

lemma pull_response_rule [safe_intros]:
  assumes L: "lib_wt L" and e: "ext base st" and Q: "\<And>s. ext base s \<Longrightarrow> nx st \<le> nx s \<Longrightarrow> Q s"
  shows "safe (DataHandlePullResponseDefault L type req data st) Q"
  unfolding DataHandlePullResponseDefault_def Let_def
  by (intro safe_intros L; (rule e | use e in \<open>auto intro!: ext_solve Q dest: ext_lookup\<close>))

lemma pull_rule [safe_intros]:
  assumes L: "lib_wt L" and e: "ext base st" and Q: "\<And>s. ext base s \<Longrightarrow> nx st \<le> nx s \<Longrightarrow> Q s"
  shows "safe (DataHandlePullDefault L type req data st) Q"
  unfolding DataHandlePullDefault_def Let_def
  by (intro safe_intros L; (rule e | use e in \<open>auto intro!: ext_solve Q dest: ext_lookup\<close>))

lemma updater_rule [safe_intros]:
  assumes "lib_wt L" "dl_updater L = Some f" and e: "ext base st" "a < nx st" and Q: "\<And>s. ext base s \<Longrightarrow> nx st \<le> nx s \<Longrightarrow> Q s"
  shows "safe (run_updater f key u a st) Q"
proof -
  have "length (fst (f key (cell st u) (cell st a) (ds_optimizer st))) = length (nd_bytes (cell st a))" using assms(1,2) by (simp add: lib_wt_def)
  from write_ext[OF e this] Q show ?thesis by (auto simp: run_updater_def Exec_def safe_def split: prod.splits)
qed

lemma apply_rule [safe_intros]:
  assumes L: "lib_wt L" and e: "ext base st" and Q: "\<And>s. ext base s \<Longrightarrow> nx st \<le> nx s \<Longrightarrow> Q s"
  shows "safe (ApplyUpdates L type key sync ts req data st) Q"
proof -
  have upd: "safe (case (dl_updater L, g) of (Some f, True) \<Rightarrow> rbind r (\<lambda>u. run_updater f key u a st) | _ \<Rightarrow> x) R"
    if "a < nx st" "\<And>s. ext base s \<Longrightarrow> nx st \<le> nx s \<Longrightarrow> R s" "safe x R" for g r a x R
    using that by (auto intro!: safe_rbind updater_rule[OF L _ e] intro: safe_any split: option.split bool.split)
  show ?thesis unfolding ApplyUpdates_def Let_def
    by (intro upd safe_intros L; (rule e | use e in \<open>auto intro!: ext_solve Q dest: ext_lookup\<close>))
qed

lemma init_stored_rule [safe_intros]:
  assumes L: "lib_wt L" and e: "ext base st" and r: "r < nx st" and Q: "\<And>s. ext base s \<Longrightarrow> nx st \<le> nx s \<Longrightarrow> Q s"
  shows "safe (init_stored L type mp key n r st) Q"
  unfolding init_stored_def Let_def
  by (intro safe_intros L; (rule e | use r in \<open>auto intro!: ext_solve Q dest: ext_lookup\<close>))

lemma accumulate_rule [safe_intros]:
  assumes L: "lib_wt L" and e: "ext base st" and r: "r < nx st" and Q: "\<And>s. ext base s \<Longrightarrow> nx st \<le> nx s \<Longrightarrow> Q s"
  shows "safe (accumulate L mp key r st) Q" "safe (accumulate_dequantized L key x r st) Q"
  unfolding accumulate_def accumulate_dequantized_def Let_def
  by (intro safe_intros L; (rule e | use e r in \<open>auto intro!: ext_solve Q dest: ext_lookup\<close>))+

lemma finish_global_rule [safe_intros]:
  assumes L: "lib_wt L" and e: "ext base st" and Q: "\<And>s. ext base s \<Longrightarrow> nx st \<le> nx s \<Longrightarrow> Q s"
  shows "safe (finish_global L type key ts req data st) Q" "safe (finish_central L type key st) Q"
  unfolding finish_global_def finish_central_def
  by (intro safe_intros L; (rule e | use e in \<open>auto intro!: ext_solve Q dest: ext_lookup\<close>))+

lemma hfa_difference_rule [safe_intros]:
  assumes L: "lib_wt L" and e: "ext base st" and Q: "\<And>s. ext base s \<Longrightarrow> nx st \<le> nx s \<Longrightarrow> Q s"
  shows "safe (hfa_difference L mp key st) Q"
  unfolding hfa_difference_def Let_def
  by (intro safe_intros L; (rule e | use L e in \<open>auto intro!: ext_solve Q dest: ext_lookup simp: lib_wt_def\<close>))

lemma push_to_global_rule [safe_intros]:
  assumes L: "lib_wt L" "merge_wt L" and e: "ext base st" and Q: "\<And>s ts. ext base s \<Longrightarrow> nx st \<le> nx s \<Longrightarrow> safe (f s ts) Q"
  shows "safe (push_to_global L type key st) (\<lambda>y. safe (case y of (s, ts) \<Rightarrow> f s ts) Q)"
  unfolding push_to_global_def
  by (cases "gc_type (ds_gc st)"; simp; intro safe_intros L e) (auto intro!: Q e)

lemma tmp_requests_ext [simp]:
  "ext base (st\<lparr>ds_update_tmp := (ds_update_tmp st)(key := (ds_update_tmp st key)\<lparr>ub_request := reqs\<rparr>)\<rparr>) \<longleftrightarrow> ext base st"
proof -
  have "bufs_below n ((ds_update_tmp st)(key := (ds_update_tmp st key)\<lparr>ub_request := r\<rparr>)) \<longleftrightarrow> bufs_below n (ds_update_tmp st)" for n r
    by (auto simp: bufs_below_def below_def)
  then show ?thesis by (simp add: ext_def wt_def hext_def nx_def cell_def)
qed

lemma forward_rule [safe_intros]:
  assumes L: "lib_wt L" "merge_wt L" and e: "ext base st" and Q: "\<And>s. ext base s \<Longrightarrow> nx st \<le> nx s \<Longrightarrow> Q s"
  shows "safe (forward_round L type mp key st) Q"
  unfolding forward_round_def Let_def
  by (intro safe_intros L; (rule e | use e in \<open>auto intro!: ext_solve Q dest: ext_lookup\<close>))

lemma finish_local_rule [safe_intros]:
  assumes L: "lib_wt L" "merge_wt L" and e: "ext base st" and Q: "\<And>s. ext base s \<Longrightarrow> nx st \<le> nx s \<Longrightarrow> Q s"
  shows "safe (finish_local L type mp key st) Q"
  unfolding finish_local_def Let_def
  by (intro safe_intros L; (rule e | use e in \<open>auto intro!: ext_solve Q dest: ext_lookup split: if_splits\<close>))

lemma init_dequantized_rule [safe_intros]:
  assumes e: "ext base st" and Q: "\<And>s. ext base s \<Longrightarrow> nx st \<le> nx s \<Longrightarrow> Q s"
  shows "safe (init_dequantized L key n r req st) Q"
  unfolding init_dequantized_def Let_def
  by (intro safe_intros; (rule e | use e in \<open>auto intro!: ext_solve Q dest: ext_lookup\<close>))

lemma buffers_grow:
  "nx st \<le> nx (ensure_merged L n d key st)" "nx st \<le> nx (ensure_temp L n d key st)" "nx st \<le> nx (prepare_updates L type mp key n st)"
proof -
  have new: "nx s = Suc (nx st)" if "heap_new (dl_nd L) n d st = (a, s)" for a s n d st
    using heap_new_grown[OF that] by (simp add: nx_def)
  show m: "nx st \<le> nx (ensure_merged L n d key st)" "nx st \<le> nx (ensure_temp L n d key st)" for n d st
    using new by (auto simp: ensure_merged_def ensure_temp_def set_updates_def split: option.split prod.split)
  show "nx st \<le> nx (prepare_updates L type mp key n st)"
    using m(1)[of st n "new_dtype mp type"] m(2)[of "ensure_merged L n (new_dtype mp type) key st" n kFloat32]
    by (auto simp: prepare_updates_def Let_def intro: order_trans)
qed

lemmas ready_ext = prepare_ext[THEN conjunct1] buffers_ext[OF _ disjI1[OF refl], THEN conjunct1] buffers_ext[OF _ disjI2[OF refl], THEN conjunct1]
  less_le_trans[OF _ buffers_grow(1)] less_le_trans[OF _ buffers_grow(2)] less_le_trans[OF _ buffers_grow(3)]
  order_trans[OF _ buffers_grow(1)] order_trans[OF _ buffers_grow(2)] order_trans[OF _ buffers_grow(3)]

lemma below_grown [dest]: 
  "nx (ensure_merged L n d key st) \<le> m \<Longrightarrow> nx st \<le> m" "nx (ensure_temp L n d key st) \<le> m \<Longrightarrow> nx st \<le> m"
  "nx (prepare_updates L type mp key n st) \<le> m \<Longrightarrow> nx st \<le> m"
  using buffers_grow order_trans by blast+

lemma updates_ext:
  assumes "ext base s" "a < nx s"
  shows "ext base (set_updates key ((ds_update_buf s key)\<lparr>ub_merged := Some a\<rparr>) s)" "ext base (set_updates key ((ds_update_buf s key)\<lparr>ub_temp := Some a\<rparr>) s)"
  using bufs_upd(2,3)[OF ext_below(9)[OF assms(1)] assms(2)] assms(1) by (auto simp: set_updates_def)

lemma nx_set_updates [simp]: "nx (set_updates key u s) = nx s"
  by (simp add: set_updates_def nx_def)

lemma ready_let:
  assumes "ext base st" "\<And>s. ext base s \<Longrightarrow> nx st \<le> nx s \<Longrightarrow> safe (f s) Q"
  shows "safe (Let (prepare_updates L type mp key n st) f) Q" "safe (Let (ensure_temp L n' d key (ensure_merged L n d' key st)) f) Q"
    "safe (Let (ensure_merged L n d key st) f) Q"
  unfolding Let_def by (rule assms(2); intro ready_ext assms(1) order_refl)+

lemma safe_let: "(\<And>x. x = t \<Longrightarrow> safe (f x) Q) \<Longrightarrow> safe (Let t f) Q"
  by simp

lemma let_pair: "safe (case t of (a, b) \<Rightarrow> f a b) Q \<Longrightarrow> safe (let (a, b) = t in f a b) Q"
  by simp

lemma sync_rule [safe_intros]:
  assumes L: "lib_wt L" "merge_wt L" and e: "ext base st" and Q: "\<And>s. ext base s \<Longrightarrow> nx st \<le> nx s \<Longrightarrow> Q s"
  shows "safe (DataHandleSyncDefault L type req data st) Q"
  unfolding DataHandleSyncDefault_def Let_def
  by (intro safe_intros L; (rule e | use e in \<open>auto intro!: ext_solve ready_ext Q dest: ext_lookup\<close>))

lemma sync_compressed_rule [safe_intros]:
  assumes L: "lib_wt L" and e: "ext base st" and Q: "\<And>s. ext base s \<Longrightarrow> nx st \<le> nx s \<Longrightarrow> Q s"
  shows "safe (DataHandleSyncCompressed L type req data st) Q"
  unfolding DataHandleSyncCompressed_def Let_def
  by (intro safe_intros L; (rule e | auto intro!: ready_ext Q))

lemma sync_bi_sparse_rule [safe_intros]:
  assumes L: "lib_wt L" and e: "ext base st" and Q: "\<And>s. ext base s \<Longrightarrow> nx st \<le> nx s \<Longrightarrow> Q s"
  shows "safe (DataHandleSyncBSCompressed L type req data st) Q"
  unfolding DataHandleSyncBSCompressed_def
  by (intro let_pair ready_let safe_let safe_intros L; (rule e | auto intro!: Q dest: ext_lookup))

lemma async_rule [safe_intros]:
  assumes L: "lib_wt L" and e: "ext base st" and Q: "\<And>s. ext base s \<Longrightarrow> nx st \<le> nx s \<Longrightarrow> Q s"
  shows "safe (DataHandleAsyncDefault L type req data st) Q"
  unfolding DataHandleAsyncDefault_def
  by (intro let_pair ready_let safe_let safe_intros L; (rule e | use e in \<open>auto intro!: ext_solve updates_ext Q dest: ext_lookup\<close>))

lemma async_compressed_rule [safe_intros]:
  assumes L: "lib_wt L" and e: "ext base st" and Q: "\<And>s. ext base s \<Longrightarrow> nx st \<le> nx s \<Longrightarrow> Q s"
  shows "safe (DataHandleAsyncCompressed L type req data st) Q" "safe (DataHandleAsyncBSCompressed L type req data st) Q"
  unfolding DataHandleAsyncCompressed_def DataHandleAsyncBSCompressed_def
  by (intro let_pair ready_let safe_let safe_intros L; (rule e | use e in \<open>auto intro!: ext_solve updates_ext Q dest: ext_lookup\<close>))+

lemma handle_ex_rule [safe_intros]:
  assumes L: "lib_wt L" "merge_wt L" and e: "ext base st" and Q: "\<And>s. ext base s \<Longrightarrow> nx st \<le> nx s \<Longrightarrow> Q s"
  shows "safe (DataHandleEx L req data st) Q"
proof -
  have r: "safe (case t of kRowSparsePushPull \<Rightarrow> a | kCompressedPushPull \<Rightarrow> b | kDefaultPushPull \<Rightarrow> c | kBSCompressedPushPull \<Rightarrow> d | OtherRequest i \<Rightarrow> Inl x) Q"
    if "safe a Q" "safe b Q" "safe c Q" "safe d Q" for t a b c d x
    using that by (auto intro: safe_basic split: RequestType.split)
  have k: "keeps (dl_row_sparse L t m d)" for t m d using L by (simp add: lib_wt_def)
  show ?thesis unfolding DataHandleEx_def Let_def
    by (intro r keeps_rule[OF k] safe_intros L; (rule e | auto intro!: Q))
qed

lemma forward_merged_rule [safe_intros]:
  assumes L: "lib_wt L" and e: "ext base st" and Q: "\<And>s. ext base s \<Longrightarrow> nx st \<le> nx s \<Longrightarrow> Q s"
  shows "safe (forward_merged L st) Q"
  unfolding forward_merged_def Let_def
  by (intro safe_intros L; (rule e | use e in \<open>auto intro!: Q\<close>))

lemma global_merged_ext:
  "ext base s \<Longrightarrow> a < nx s \<Longrightarrow> ext base (s\<lparr>ds_update_global := (ds_update_global s)(key := (ds_update_global s key)\<lparr>ub_merged := Some a\<rparr>)\<rparr>)"
  using bufs_upd(2)[OF ext_below(11)] by auto

lemma merge_rule:
  assumes L: "lib_wt L" and e: "ext base st" and Q: "\<And>s. ext base s \<Longrightarrow> nx st \<le> nx s \<Longrightarrow> Q s"
  shows "safe (WorkersMerge L req data st) Q"
proof -
  have m: "safe (case (case ub_merged (ds_update_global s key) of None \<Rightarrow> heap_new (dl_nd L) n d s | Some a \<Rightarrow> (a, s)) of (a, s') \<Rightarrow> f a s') R"
    if s: "ext base s" and f: "\<And>a s'. ext base s' \<Longrightarrow> nx s \<le> nx s' \<Longrightarrow> a < nx s' \<Longrightarrow> safe (f a s') R" for s key n d f R
    using f[OF s order_refl] new_rule[OF s f] ext_lookup(11)[OF s] by (cases "ub_merged (ds_update_global s key)") auto
  show ?thesis unfolding WorkersMerge_def Let_def
  by (intro m safe_intros L; (rule e | use e in \<open>auto intro!: global_merged_ext Q simp: enqueue_own_def\<close>))
qed

subsection \<open>Commands\<close>

lemma copies_rule [safe_intros]:
  assumes L: "lib_wt L" and e: "ext base st" and Q: "\<And>s. ext base s \<Longrightarrow> nx st \<le> nx s \<Longrightarrow> Q s"
  shows "safe (CreateMultiPrecisionCopies L keys st) Q"
proof -
  have m: "ext base s' \<and> nx s \<le> nx s'" if s: "ext base s" and u: "u = ds_update_buf s key"
    and s': "s' = (case ub_merged u of None \<Rightarrow> s
      | Some m \<Rightarrow> (let (m', t) = heap_new (dl_nd L) (n m) kFloat32 s in set_updates key (u\<lparr>ub_merged := Some m'\<rparr>) t))" for s s' u n key
  proof (cases "ub_merged u")
    case (Some m)
    obtain m' t where t: "heap_new (dl_nd L) (n m) kFloat32 s = (m', t)" by fastforce
    have "ds_update_buf t = ds_update_buf s" using t by (auto simp: heap_new_def split: prod.splits)
    moreover have "s' = set_updates key (u\<lparr>ub_merged := Some m'\<rparr>) t" using s' by (simp add: Some t)
    ultimately show ?thesis using updates_ext(1)[of base t m' key] new_ext[OF s t] u by simp
  qed (use s s' in simp)
  have c: "safe (multi_precision_copy L key s) R" if s: "ext base s" "\<And>s'. ext base s' \<Longrightarrow> nx s \<le> nx s' \<Longrightarrow> R s'" for key s R
    unfolding multi_precision_copy_def
  proof (intro safe_rbind handle_rule safe_branch safe_basic let_pair new_rule[OF s(1)] safe_let, goal_cases)
    case (2 a r st1 st2 u st3)
    have 1: "ext base st2" "nx st2 = nx st1" using 2(3,5,7) ext_below(3)[OF 2(3)] by auto
    have 3: "ext base st3" "nx st1 \<le> nx st3" using m[OF 1(1) 2(8,9)] 1(2) by auto
    have "a < nx st3" "r < nx st3" "nx s \<le> nx st3" using 3(2) 2(4,5) ext_lookup(1)[OF s(1) 2(1)] by linarith+
    then show ?case by (intro copy_rule[OF L 3(1)] s(2)) auto
  qed (use s in auto)
  show ?thesis using e Q
    by (induction keys arbitrary: st) (auto intro!: safe_rbind safe_basic c intro: order_trans)
qed

lemma exec_rule: "safe (f st) Q \<Longrightarrow> safe (Exec f st) Q"
  by (simp add: Exec_def safe_def)

lemma request_rule [safe_intros]:
  "ext base st \<Longrightarrow> (\<And>s. ext base s \<Longrightarrow> nx st \<le> nx s \<Longrightarrow> Q s) \<Longrightarrow> safe (server_request L c b i g st) Q"
  unfolding server_request_def by (intro safe_rbind srv_proc_rule safe_basic)

lemma stop_rule [safe_intros]:
  "ext base st \<Longrightarrow> (\<And>s. ext base s \<Longrightarrow> nx st \<le> nx s \<Longrightarrow> Q s) \<Longrightarrow> safe (stop_executor st) Q"
  unfolding stop_executor_def by (intro exec_rule safe_basic) simp

lemma command_rule [safe_intros]:
  assumes L: "lib_wt L" and e: "ext base st" and Q: "\<And>s. ext base s \<Longrightarrow> nx st \<le> nx s \<Longrightarrow> Q s"
  shows "safe (CommandHandle L recved st) Q"
proof -
  have p: "keeps (dl_profiler L p)" and c: "dl_controller L = Some f \<Longrightarrow> keeps (f h b)" for p f h b using L by (auto simp: lib_wt_def)
  have resp: "safe (srv_run g s) Q" if "ext base s" "nx st \<le> nx s" for g s
    using that by (intro more_rule[OF srv_more(2)] Q) auto
  have "safe (ProcessServerProfilerCommands L kind body st) (\<lambda>s. ext base s \<and> nx st \<le> nx s)" for kind body
    unfolding ProcessServerProfilerCommands_def SetProfilerConfig_def Let_def
    by (intro safe_branch safe_rbind safe_any[where r = "profiler_params x y z" for x y z] safe_basic keeps_rule[OF p e]) (auto intro: e)
  then have k: "safe (ProcessServerProfilerCommands L kind body st) R" if "\<And>s. ext base s \<Longrightarrow> nx st \<le> nx s \<Longrightarrow> R s" for kind body R
    using that by (blast intro: safe_mono)
  have ctl: "safe (case dl_controller L of None \<Rightarrow> Inl x | Some f \<Rightarrow> f h b st) R" if "\<And>s. ext base s \<Longrightarrow> nx st \<le> nx s \<Longrightarrow> R s" for x h b R
    using keeps_rule[OF c e, of _ R] that by (auto split: option.split intro: safe_basic)
  show ?thesis unfolding CommandHandle_def run_command_def Let_def
    by (cases "CommandType_of_int (sd_head recved)"; simp only: CommandType.case;
      intro ctl k resp exec_rule safe_any[where r = "DecodeParams a b c d" for a b c d] safe_intros L; (rule e | use e in auto))
qed

subsection \<open>Messages received\<close>

lemma keepsI: "(\<And>st. ext st st \<Longrightarrow> safe (f st) (ext st)) \<Longrightarrow> keeps f"
  by (fastforce simp: keeps_def ext_def intro: safe_mono)

lemma install_wt:
  assumes "lib_wt L"
  shows "lib_wt (install L)" "merge_wt (install L)"
proof -
  show "lib_wt (install L)" using assms unfolding lib_wt_def by (simp add: install_def Let_def)
  have "keeps (WorkersMerge L m d)" for m d by (intro keepsI merge_rule assms)
  then show "merge_wt (install L)" by (simp add: merge_wt_def install_def Let_def)
qed

lemma handlers_keep:
  assumes "lib_wt L"
  shows "keeps (sl_request (dl_kvs (install L)) m d)" "keeps (sl_simple_request (dl_kvs (install L)) r)"
    "keeps (sl_request_global (dl_kvs (install L)) m d)" "keeps (sl_simple_response (dl_kvs (install L)) r)"
proof -
  define M where "M = L\<lparr>dl_kvs := (dl_kvs L)\<lparr>sl_request_global := WorkersMerge L\<rparr>\<rparr>"
  have "keeps (WorkersMerge L m d)" for m d by (intro keepsI merge_rule assms)
  then have M: "lib_wt M" "merge_wt M" using assms unfolding lib_wt_def by (simp_all add: M_def merge_wt_def)
  have "sl_request (dl_kvs (install L)) = DataHandleEx M" "sl_simple_request (dl_kvs (install L)) = CommandHandle M"
    by (simp_all add: install_def Let_def M_def)
  then show "keeps (sl_request (dl_kvs (install L)) m d)" "keeps (sl_simple_request (dl_kvs (install L)) r)"
    by (auto intro!: keepsI handle_ex_rule[OF M] command_rule[OF M(1)])
  show "keeps (sl_request_global (dl_kvs (install L)) m d)" using install_wt(2)[OF assms] by (simp add: merge_wt_def)
  show "keeps (sl_simple_response (dl_kvs (install L)) r)" using install_wt(1)[OF assms] by (simp add: lib_wt_def)
qed


lemma send_push_ext [simp]: "ext base (s\<lparr>ks_send_push := x\<rparr>) = ext base s" "nx (s\<lparr>ks_send_push := x\<rparr>) = nx s"
  by (rule more_ext; simp)+

lemma reply_rule:
  "ext base st \<Longrightarrow> (\<And>s. ext base s \<Longrightarrow> nx st \<le> nx s \<Longrightarrow> Q s) \<Longrightarrow> safe (KVServer_AutoPullReply K i st) Q"
  unfolding KVServer_AutoPullReply_def by (intro safe_rbind srv_proc_rule safe_basic)

lemma update_rule:
  assumes e: "ext base st" and Q: "\<And>s ms. ext base s \<Longrightarrow> nx st \<le> nx s \<Longrightarrow> safe (f s ms) Q"
  shows "safe (KVServer_AutoPullUpdate K ms v req kvs g i k c st) (\<lambda>x. safe (case x of (s, ms) \<Rightarrow> f s ms) Q)"
proof (rule safe_mono[OF AutoPull_more])
  fix x :: "DistServer \<times> moves" assume "case x of (s, ms) \<Rightarrow> KVServer.more s = KVServer.more st"
  then obtain s ms where x: "x = (s, ms)" "KVServer.more s = KVServer.more st" by (cases x) auto
  show "safe (case x of (s, ms) \<Rightarrow> f s ms) Q" using Q[of s ms] e more_ext[OF x(2)] by (simp add: x(1))
qed

lemma safe_pair: "safe (f a b) Q \<Longrightarrow> safe (case (a, b) of (x, y) \<Rightarrow> f x y) Q"
  by simp

lemma process_ts_rule:
  assumes e: "ext base st" and Q: "\<And>s ms. ext base s \<Longrightarrow> nx st \<le> nx s \<Longrightarrow> safe (f s ms) Q"
  shows "safe (process_ts K ms m data st) (\<lambda>x. safe (case x of (s, ms) \<Rightarrow> f s ms) Q)"
  unfolding process_ts_def Let_def
  by (intro safe_rbind safe_branch safe_basic safe_pair reply_rule update_rule Q more_rule[OF srv_more(2)]; (rule e | simp add: e))


text \<open>A first push from another party.\<close>

definition typed_lib :: DistLib where
  "typed_lib = sample_dist_lib\<lparr>dl_nd := (dl_nd sample_dist_lib)\<lparr>nl_cast := (\<lambda>t u x. replicate (length x div elem_size t * elem_size u) 0)\<rparr>,
     dl_updater := Some (\<lambda>_ x v n. (map (\<lambda>b. b + 1) (nd_bytes v), n + 1))\<rparr>"

definition push_message :: Message where
  "push_message = \<lparr>msg_contribution = 0, msg_meta = empty_Meta\<lparr>m_head := 0, m_push := True, m_request := True, m_sender := 9, m_timestamp := 1\<rparr>,
     msg_data = [bytes_of_keys [3], [1, 0, 0, 0], bytes_of_ints [4]]\<rparr>"

lemma typed_lib_wt: "lib_wt typed_lib"
  by (auto simp: lib_wt_def keeps_def safe_def typed_lib_def sample_dist_lib_def byte_add_def)

lemma global_server_wt: "wt global_server"
  by (simp add: wt_def nx_def below_def bufs_below_def sample_defs empty_UpdateBuf_def)


end
