(* ===== verification/Contexts.thy ===== *)
theory Contexts
  imports Membership "HOL-Library.Product_Lexorder"
begin

unbundle bit_operations_syntax

text \<open>
  The execution contexts of \<^verbatim>\<open>src/include/mxnet/base.h\<close>: a kind of device and its number, with
  the order that makes them keys of a map and the conversions from and to strings. The device the
  CUDA runtime reports is a parameter: \<open>None\<close> for a build without CUDA, \<open>Some None\<close> when
  the call fails.
\<close>

subsection \<open>Kinds of devices\<close>

datatype DeviceType = kCPU | kGPU | kCPUPinned | kCPUShared

primrec dev_type_value :: "DeviceType \<Rightarrow> int" where
  "dev_type_value kCPU = 1"
| "dev_type_value kGPU = 2"
| "dev_type_value kCPUPinned = 3"
| "dev_type_value kCPUShared = 5"

instantiation DeviceType :: linorder
begin

definition less_eq_DeviceType :: "DeviceType \<Rightarrow> DeviceType \<Rightarrow> bool" where
  "less_eq_DeviceType a b \<longleftrightarrow> dev_type_value a \<le> dev_type_value b"

definition less_DeviceType :: "DeviceType \<Rightarrow> DeviceType \<Rightarrow> bool" where
  "less_DeviceType a b \<longleftrightarrow> dev_type_value a < dev_type_value b"

instance
proof
  fix a b :: DeviceType
  show "a \<le> b \<Longrightarrow> b \<le> a \<Longrightarrow> a = b" by (cases a; cases b) (simp_all add: less_eq_DeviceType_def)
qed (auto simp: less_eq_DeviceType_def less_DeviceType_def)

end

subsection \<open>Contexts\<close>

record Context =
  cx_dev_type :: DeviceType
  cx_dev_id :: int

type_synonym current_device = "int option option"

definition cx_dev_mask :: "Context \<Rightarrow> DeviceType" where
  "cx_dev_mask ctx = (if cx_dev_type ctx = kCPUPinned \<or> cx_dev_type ctx = kCPUShared then kCPU else cx_dev_type ctx)"

definition real_dev_id :: "Context \<Rightarrow> int" where
  "real_dev_id ctx = (if cx_dev_type ctx = kCPUPinned \<or> cx_dev_type ctx = kGPU then cx_dev_id ctx else 0)"

definition Context_less :: "Context \<Rightarrow> Context \<Rightarrow> bool" where
  "Context_less a b = (if cx_dev_type a = cx_dev_type b then cx_dev_id a < cx_dev_id b else cx_dev_type a < cx_dev_type b)"

definition Create :: "current_device \<Rightarrow> DeviceType \<Rightarrow> int \<Rightarrow> Context res" where
  "Create gpu dev_type dev_id =
     (if dev_id < 0
      then (if dev_type_value dev_type AND dev_type_value kGPU \<noteq> 0
            then (case gpu of
                None \<Rightarrow> Inl (Fatal ''Please compile with CUDA enabled for cuda features'')
              | Some None \<Rightarrow> Inl (Check ''cudaGetDevice'')
              | Some (Some d) \<Rightarrow> Inr \<lparr>cx_dev_type = dev_type, cx_dev_id = d\<rparr>)
            else Inr \<lparr>cx_dev_type = dev_type, cx_dev_id = 0\<rparr>)
      else Inr \<lparr>cx_dev_type = dev_type, cx_dev_id = dev_id\<rparr>)"

subsection \<open>Strings\<close>

fun find_char :: "char \<Rightarrow> string \<Rightarrow> nat option" where
  "find_char c [] = None"
| "find_char c (x # xs) = (if x = c then Some 0 else map_option Suc (find_char c xs))"

text \<open>\<open>std::stoi\<close>; it throws when there is no number, and when it is outside the range of \<^verbatim>\<open>int\<close>.\<close>

definition stoi_digits :: "bool \<Rightarrow> string \<Rightarrow> int option" where
  "stoi_digits neg ds =
     (if takeWhile is_digit ds = [] then None
      else (let v = (if neg then - digits_value ds else digits_value ds) in
        if - (2 ^ 31) \<le> v \<and> v < 2 ^ 31 then Some v else None))"

definition stoi :: "string \<Rightarrow> int option" where
  "stoi s =
     (case dropWhile is_blank s of
        [] \<Rightarrow> None
      | c # cs \<Rightarrow> if c = CHR ''-'' then stoi_digits True cs else if c = CHR ''+'' then stoi_digits False cs else stoi_digits False (c # cs))"

definition context_type :: "string \<Rightarrow> DeviceType option" where
  "context_type t =
     (if t = ''cpu'' then Some kCPU else if t = ''gpu'' then Some kGPU
      else if t = ''cpu_pinned'' then Some kCPUPinned else if t = ''cpu_shared'' then Some kCPUShared else None)"

text \<open>Every failure, also of \<open>Create\<close>, is caught and reported in the same way.\<close>

definition FromString :: "current_device \<Rightarrow> string \<Rightarrow> Context res" where
  "FromString gpu str =
     (let invalid = Inl (Fatal (''Invalid context string '' @ str)) in
      case (find_char (CHR ''('') str, find_char (CHR '')'') str) of
        (Some l, Some r) \<Rightarrow>
          if r \<noteq> length str - 1 then invalid
          else (case (stoi (take (r - l - 1) (drop (l + 1) str)), context_type (take l str)) of
              (Some i, Some ty) \<Rightarrow> (case Create gpu ty i of Inl _ \<Rightarrow> invalid | Inr ctx \<Rightarrow> Inr ctx)
            | _ \<Rightarrow> invalid)
      | _ \<Rightarrow> invalid)"

definition context_string :: "Context \<Rightarrow> string" where
  "context_string ctx =
     (case cx_dev_type ctx of kCPU \<Rightarrow> ''cpu('' | kGPU \<Rightarrow> ''gpu('' | kCPUPinned \<Rightarrow> ''cpu_pinned('' | kCPUShared \<Rightarrow> ''cpu_shared('')
     @ to_string (cx_dev_id ctx) @ '')''"

subsection \<open>Printed numbers are read back\<close>

lemma string_of_nat_digits: "\<forall>c \<in> set (string_of_nat n). is_digit c"
proof (induction n rule: string_of_nat.induct)
  case (1 n)
  have "is_digit (char_of (48 + n mod 10))" by (simp add: is_digit_def)
  then show ?case using 1 by (subst string_of_nat.simps) (simp add: is_digit_def)
qed

lemma string_of_nat_nonempty [simp]: "string_of_nat n \<noteq> []"
  by (subst string_of_nat.simps) simp

lemma int_of_char: "(of_char (char_of n) :: int) = int (n mod 256)"
  by (metis of_nat_of_char of_char_of)

lemma string_of_nat_value: "foldl (\<lambda>a c. 10 * a + (of_char c - 48)) 0 (string_of_nat n) = (int n)"
proof (induction n rule: string_of_nat.induct)
  case (1 n)
  show ?case
  proof (cases "n < 10")
    case True
    then show ?thesis by (subst string_of_nat.simps) (simp add: int_of_char)
  next
    case False
    then have "foldl (\<lambda>a c. 10 * a + (of_char c - 48)) 0 (string_of_nat n) = 10 * int (n div 10) + int (n mod 10)"
      using 1 by (subst string_of_nat.simps) (simp add: int_of_char)
    then show ?thesis by presburger
  qed
qed

lemma takeWhile_digits [simp]: "takeWhile is_digit (string_of_nat n) = string_of_nat n"
  using string_of_nat_digits by (simp add: takeWhile_eq_all_conv)

lemma digits_value_string: "digits_value (string_of_nat n) = int n"
  by (simp add: digits_value_def string_of_nat_value)

lemma stoi_to_string:
  assumes "- (2 ^ 31) \<le> i" "i < 2 ^ 31"
  shows "stoi (to_string i) = Some i"
proof (cases "i < 0")
  case True
  then show ?thesis using assms
    by (simp add: stoi_def to_string_def is_blank_def stoi_digits_def digits_value_string)
next
  case False
  obtain c cs where c: "string_of_nat (nat i) = c # cs" by (cases "string_of_nat (nat i)") simp_all
  have "is_digit c" using string_of_nat_digits[of "nat i"] c by simp
  then have "\<not> is_blank c" "c \<noteq> CHR ''-''" "c \<noteq> CHR ''+''" by (auto simp: is_digit_def is_blank_def)
  then show ?thesis using False assms c takeWhile_digits[of "nat i"] digits_value_string[of "nat i"]
    by (simp add: stoi_def to_string_def stoi_digits_def)
qed

lemma find_char_append: "find_char c (xs @ ys) = (if c \<in> set xs then find_char c xs else map_option (\<lambda>i. length xs + i) (find_char c ys))"
  by (induction xs) (auto simp: option.map_comp comp_def map_option_case split: option.splits)

lemma to_string_no_paren: "CHR ''('' \<notin> set (to_string i)" "CHR '')'' \<notin> set (to_string i)"
  using string_of_nat_digits[of "nat i"] string_of_nat_digits[of "nat (- i)"] by (auto simp: to_string_def is_digit_def)

text \<open>
  C27: a context with a number in the range of a device id survives printing and parsing: \<open>FromString\<close>
  of the printed string is the context itself, for every kind of device and with any CUDA runtime. A
  negative number is read back as the current device of a GPU or pinned context, and as device 0
  otherwise; in a build without CUDA the former is refused.
\<close>

theorem context_roundtrip:
  assumes "- (2 ^ 31) \<le> cx_dev_id ctx" "cx_dev_id ctx < 2 ^ 31"
  shows "FromString gpu (context_string ctx) =
    (if 0 \<le> cx_dev_id ctx then Inr ctx
     else if cx_dev_type ctx = kCPU \<or> cx_dev_type ctx = kCPUShared then Inr (ctx\<lparr>cx_dev_id := 0\<rparr>)
     else (case gpu of Some (Some d) \<Rightarrow> Inr (ctx\<lparr>cx_dev_id := d\<rparr>) | _ \<Rightarrow> Inl (Fatal (''Invalid context string '' @ context_string ctx))))"
proof -
  define t where "t = (case cx_dev_type ctx of kCPU \<Rightarrow> ''cpu'' | kGPU \<Rightarrow> ''gpu'' | kCPUPinned \<Rightarrow> ''cpu_pinned'' | kCPUShared \<Rightarrow> ''cpu_shared'')"
  define n where "n = to_string (cx_dev_id ctx)"
  have str: "context_string ctx = t @ CHR ''('' # n @ '')''"
    by (cases "cx_dev_type ctx") (simp_all add: context_string_def t_def n_def)
  have t: "CHR ''('' \<notin> set t" "CHR '')'' \<notin> set t" "context_type t = Some (cx_dev_type ctx)"
    by (cases "cx_dev_type ctx"; simp add: t_def context_type_def)+
  have n: "CHR '')'' \<notin> set n" "stoi n = Some (cx_dev_id ctx)" using assms to_string_no_paren stoi_to_string by (simp_all add: n_def)
  have f: "find_char (CHR ''('') (context_string ctx) = Some (length t)" "find_char (CHR '')'') (context_string ctx) = Some (length t + length n + 1)"
    using t n by (simp_all add: str find_char_append)
  have "FromString gpu (context_string ctx) =
      (case Create gpu (cx_dev_type ctx) (cx_dev_id ctx) of Inl _ \<Rightarrow> Inl (Fatal (''Invalid context string '' @ context_string ctx)) | Inr ctx \<Rightarrow> Inr ctx)"
    unfolding FromString_def f using t(3) n(2) by (simp add: str Let_def split: sum.splits)
  then show ?thesis
    by (cases ctx; cases "cx_dev_type ctx") (simp_all add: Create_def split: option.splits)
qed

theorem context_roundtrip_witness:
  "FromString None ''gpu(3)'' = Inr \<lparr>cx_dev_type = kGPU, cx_dev_id = 3\<rparr>"
proof -
  have "context_string \<lparr>cx_dev_type = kGPU, cx_dev_id = 3\<rparr> = ''gpu(3)''" by code_simp
  then show ?thesis using context_roundtrip[of "\<lparr>cx_dev_type = kGPU, cx_dev_id = 3\<rparr>" None] by simp
qed

end
