(* ===== verification/Engines.thy ===== *)
theory Engines
  imports Contexts
begin

text \<open>
  The dependency engine of \<^verbatim>\<open>src/src/engine\<close>. Operations are pushed with the variables
  they read and the variables they mutate. Each variable has a queue of operations; an operation is
  handed to a worker when all its variables have granted it access. The definitions follow
  \<^verbatim>\<open>threaded_engine.h\<close>, \<^verbatim>\<open>threaded_engine.cc\<close>, the two scheduling policies
  (\<^verbatim>\<open>threaded_engine_perdevice.cc\<close>, \<^verbatim>\<open>threaded_engine_pooled.cc\<close>) and
  \<^verbatim>\<open>naive_engine.cc\<close>.

  Pointers to variables, operators, operator blocks and exceptions are addresses into maps of the
  engine's state; a freed object is \<open>None\<close>. The memory the pushed functions work on is the
  field \<open>eg_data\<close>, what a function does to it is a parameter. Profiling and the messages of
  \<open>engine_info_\<close> are not modelled.
\<close>

subsection \<open>Data\<close>

datatype FnProperty = kNormal | kCopyFromGPU | kCopyToGPU | kCPUPrioritized | kAsync | kDeleteVar | kGPUPrioritized

text \<open>
  The functions the engine runs: those of the client, and the closures the engine builds itself: a
  synchronous function, or a bulk of them, followed by \<open>on_complete\<close>; the deletion of an
  operator and of a variable; the notification of \<open>WaitForVar\<close>.
\<close>

datatype 'f Fn =
    AsyncFn 'f
  | SyncFns "'f list"
  | DeleteOprFn nat
  | DeleteVarFn 'f nat
  | WaitFn nat

record OprBlock =
  ob_wait :: int
  ob_opr :: nat
  ob_ctx :: Context
  ob_priority :: int

record VersionedVarBlock =
  vb_trigger :: nat
  vb_write :: bool

text \<open>
  The linked list of a variable from \<open>pending_write_\<close> up to the empty block \<open>head_\<close>;
  \<open>pending_write_\<close> is null when the list is empty. The exception is a shared pointer.
\<close>

record ThreadedVar =
  tv_num_pending_reads :: int
  tv_queue :: "VersionedVarBlock list"
  tv_to_delete :: bool
  tv_version :: nat
  tv_exception :: "nat option"

record 'f ThreadedOpr =
  to_fn :: "'f Fn"
  to_const_vars :: "nat list"
  to_mutable_vars :: "nat list"
  to_prop :: FnProperty
  to_temporary :: bool
  to_wait :: bool
  to_exception :: "nat option"

text \<open>The task queues of both policies.\<close>

datatype task_queue = CpuPriority | CpuNormal int | GpuCopy int | GpuPriority int | GpuNormal int | Tasks | IoTasks

record 'f BulkStatus =
  bs_bulk_size :: int
  bs_count :: int
  bs_ctx :: Context
  bs_fns :: "'f list"
  bs_const_vars :: "nat list"
  bs_mutable_vars :: "nat list"

record ('f, 'd) Engine =
  eg_vars :: "nat \<rightharpoonup> ThreadedVar"
  eg_oprs :: "nat \<rightharpoonup> 'f ThreadedOpr"
  eg_blocks :: "nat \<rightharpoonup> OprBlock"
  eg_exceptions :: "nat \<Rightarrow> string option"
  eg_next :: nat
  eg_pending :: int
  eg_kill :: bool
  eg_shutdown_phase :: bool
  eg_queues :: "task_queue \<Rightarrow> (nat \<times> int) list"
  eg_bulk :: "'f BulkStatus"
  eg_done :: "nat set"
  eg_data :: 'd

datatype policy = PerDevice | Pooled

text \<open>
  What the client's functions do. An asynchronous function calls its callback before it returns, with
  an error or without, or later, or throws; \<open>ep_late\<close> is what it does to the memory until the
  late call, and the error of that call. A synchronous function returns or throws. The last fields
  say whether the engine is built with CUDA, and how many devices it finds.
\<close>

datatype fn_result = Called "string option" | Later | Throws string | Crashes string

record ('f, 'd) EngLib =
  ep_async :: "Context \<Rightarrow> 'f \<Rightarrow> 'd \<Rightarrow> 'd \<times> fn_result"
  ep_late :: "Context \<Rightarrow> 'f \<Rightarrow> 'd \<Rightarrow> 'd \<times> string option"
  ep_sync :: "Context \<Rightarrow> 'f \<Rightarrow> 'd \<Rightarrow> 'd \<times> string option"
  ep_cuda :: bool
  ep_device_count :: int

subsection \<open>Variables and operators\<close>

definition NewVariable :: "('f, 'd) Engine \<Rightarrow> nat \<times> ('f, 'd) Engine" where
  "NewVariable eg = (eg_next eg,
     eg\<lparr>eg_vars := (eg_vars eg)(eg_next eg \<mapsto> \<lparr>tv_num_pending_reads = 0, tv_queue = [], tv_to_delete = False, tv_version = 0, tv_exception = None\<rparr>),
        eg_next := eg_next eg + 1\<rparr>)"

definition NewOperator ::
  "'f Fn \<Rightarrow> nat list \<Rightarrow> nat list \<Rightarrow> FnProperty \<Rightarrow> bool \<Rightarrow> ('f, 'd) Engine \<Rightarrow> nat \<times> ('f, 'd) Engine" where
  "NewOperator fn const_vars mutable_vars prop wait eg = (eg_next eg,
     eg\<lparr>eg_oprs := (eg_oprs eg)(eg_next eg \<mapsto> \<lparr>to_fn = fn, to_const_vars = const_vars, to_mutable_vars = mutable_vars, to_prop = prop,
          to_temporary = False, to_wait = wait, to_exception = None\<rparr>),
        eg_next := eg_next eg + 1\<rparr>)"

text \<open>Following a pointer that may have been freed.\<close>

definition deref :: "(nat \<rightharpoonup> 'a) \<Rightarrow> nat \<Rightarrow> 'a res" where
  "deref m a = (case m a of None \<Rightarrow> Inl (Undefined ''dangling pointer'') | Some x \<Rightarrow> Inr x)"

definition put_var :: "nat \<Rightarrow> ThreadedVar \<Rightarrow> ('f, 'd) Engine \<Rightarrow> ('f, 'd) Engine" where
  "put_var v tv eg = eg\<lparr>eg_vars := (eg_vars eg)(v \<mapsto> tv)\<rparr>"

definition put_opr :: "nat \<Rightarrow> 'f ThreadedOpr \<Rightarrow> ('f, 'd) Engine \<Rightarrow> ('f, 'd) Engine" where
  "put_opr i opr eg = eg\<lparr>eg_oprs := (eg_oprs eg)(i \<mapsto> opr)\<rparr>"

definition decr_wait :: "nat \<Rightarrow> ('f, 'd) Engine \<Rightarrow> (int \<times> ('f, 'd) Engine) res" where
  "decr_wait b eg =
     rbind (deref (eg_blocks eg) b) (\<lambda>blk.
     let ret = ob_wait blk - 1 in
     chk (0 \<le> ret) ''CHECK_GE(ret, 0)'' (Inr (ret, eg\<lparr>eg_blocks := (eg_blocks eg)(b \<mapsto> blk\<lparr>ob_wait := ret\<rparr>)\<rparr>)))"

definition is_ready_to_read :: "ThreadedVar \<Rightarrow> bool" where
  "is_ready_to_read tv \<longleftrightarrow> tv_queue tv = []"

definition kWriteTriggered :: int where
  "kWriteTriggered = -1"

text \<open>
  The operations of a variable under its lock. An append says whether the block may go ahead as far
  as this variable is concerned, so that its counter is decreased; a completion gives the blocks to
  trigger after the lock, and for a write whether the variable has to be deleted.
\<close>

definition append_read :: "nat \<Rightarrow> ThreadedVar \<Rightarrow> (bool \<times> ThreadedVar) res" where
  "append_read b tv =
     (if tv_queue tv = []
      then chk (0 \<le> tv_num_pending_reads tv) ''CHECK_GE(num_pending_reads_, 0)''
        (Inr (True, tv\<lparr>tv_num_pending_reads := tv_num_pending_reads tv + 1\<rparr>))
      else Inr (False, tv\<lparr>tv_queue := tv_queue tv @ [\<lparr>vb_trigger = b, vb_write = False\<rparr>]\<rparr>))"

definition append_write :: "nat \<Rightarrow> ThreadedVar \<Rightarrow> (bool \<times> ThreadedVar) res" where
  "append_write b tv =
     (let tv1 = tv\<lparr>tv_queue := tv_queue tv @ [\<lparr>vb_trigger = b, vb_write = True\<rparr>]\<rparr> in
      if tv_queue tv = []
      then chk (0 \<le> tv_num_pending_reads tv) ''CHECK_GE(num_pending_reads_, 0)''
        (if tv_num_pending_reads tv = 0 then Inr (True, tv1\<lparr>tv_num_pending_reads := kWriteTriggered\<rparr>) else Inr (False, tv1))
      else chk (tv_num_pending_reads tv \<noteq> 0) ''CHECK_NE(num_pending_reads_, 0)'' (Inr (False, tv1)))"

definition complete_read :: "ThreadedVar \<Rightarrow> (nat list \<times> ThreadedVar) res" where
  "complete_read tv =
     chk (0 < tv_num_pending_reads tv) ''CHECK_GT(num_pending_reads_, 0)''
      (let n = tv_num_pending_reads tv - 1 in
       if n = 0 \<and> tv_queue tv \<noteq> []
       then Inr ([vb_trigger (hd (tv_queue tv))], tv\<lparr>tv_num_pending_reads := kWriteTriggered\<rparr>)
       else Inr ([], tv\<lparr>tv_num_pending_reads := n\<rparr>))"

definition complete_write :: "ThreadedVar \<Rightarrow> (bool \<times> nat list \<times> ThreadedVar) res" where
  "complete_write tv =
     defined (tv_queue tv \<noteq> []) ''pending_write_''
      (chk (tv_num_pending_reads tv = kWriteTriggered) ''CHECK_EQ(num_pending_reads_, kWriteTriggered)''
       (let tv1 = tv\<lparr>tv_version := tv_version tv + 1\<rparr> in
        if tv_to_delete tv then Inr (True, [], tv1)
        else (let reads = takeWhile (\<lambda>vb. \<not> vb_write vb) (tl (tv_queue tv)); rest = dropWhile (\<lambda>vb. \<not> vb_write vb) (tl (tv_queue tv));
                  n = int (length reads) in
          Inr (False, map vb_trigger reads @ (if rest \<noteq> [] \<and> n = 0 then [vb_trigger (hd rest)] else []),
            tv1\<lparr>tv_queue := rest, tv_num_pending_reads := (if rest \<noteq> [] \<and> n = 0 then kWriteTriggered else n)\<rparr>))))"

definition append_dependency :: "(nat \<Rightarrow> ThreadedVar \<Rightarrow> (bool \<times> ThreadedVar) res) \<Rightarrow> nat \<Rightarrow> nat \<Rightarrow> ('f, 'd) Engine \<Rightarrow> ('f, 'd) Engine res" where
  "append_dependency f v b eg =
     rbind (deref (eg_vars eg) v) (\<lambda>tv. rbind (f b tv) (\<lambda>(ready, tv1).
     if ready then rbind (decr_wait b (put_var v tv1 eg)) (\<lambda>(_, eg1). Inr eg1) else Inr (put_var v tv1 eg)))"

definition AppendReadDependency :: "nat \<Rightarrow> nat \<Rightarrow> ('f, 'd) Engine \<Rightarrow> ('f, 'd) Engine res" where
  "AppendReadDependency = append_dependency append_read"

definition AppendWriteDependency :: "nat \<Rightarrow> nat \<Rightarrow> ('f, 'd) Engine \<Rightarrow> ('f, 'd) Engine res" where
  "AppendWriteDependency = append_dependency append_write"

definition SetToDelete :: "nat \<Rightarrow> ('f, 'd) Engine \<Rightarrow> ('f, 'd) Engine res" where
  "SetToDelete v eg = rbind (deref (eg_vars eg) v) (\<lambda>tv. Inr (put_var v (tv\<lparr>tv_to_delete := True\<rparr>) eg))"

subsection \<open>Handing operations to workers\<close>

text \<open>Only the normal queues are first in first out; the others order by priority.\<close>

definition is_fifo :: "task_queue \<Rightarrow> bool" where
  "is_fifo q \<longleftrightarrow> (case q of CpuNormal _ \<Rightarrow> True | GpuNormal _ \<Rightarrow> True | Tasks \<Rightarrow> True | IoTasks \<Rightarrow> True | _ \<Rightarrow> False)"

definition task_push :: "task_queue \<Rightarrow> nat \<Rightarrow> int \<Rightarrow> ('f, 'd) Engine \<Rightarrow> ('f, 'd) Engine" where
  "task_push q b prio eg = eg\<lparr>eg_queues := (eg_queues eg)(q := eg_queues eg q @ [(b, prio)])\<rparr>"

definition task_push_front :: "task_queue \<Rightarrow> nat \<Rightarrow> int \<Rightarrow> ('f, 'd) Engine \<Rightarrow> ('f, 'd) Engine" where
  "task_push_front q b prio eg =
     (if is_fifo q then eg\<lparr>eg_queues := (eg_queues eg)(q := (b, prio) # eg_queues eg q)\<rparr> else task_push q b prio eg)"

text \<open>
  The entries \<open>Pop\<close> may give: the first, or one of the highest priority (a heap does not say
  which of several).
\<close>

definition poppable :: "task_queue \<Rightarrow> (nat \<times> int) list \<Rightarrow> nat \<times> int \<Rightarrow> bool" where
  "poppable q es e \<longleftrightarrow> es \<noteq> [] \<and> (if is_fifo q then e = hd es else e \<in> set es \<and> (\<forall>e' \<in> set es. snd e' \<le> snd e))"

text \<open>The queue of a block that is not run by the pushing thread itself.\<close>

definition queue_of :: "policy \<Rightarrow> FnProperty \<Rightarrow> Context \<Rightarrow> task_queue" where
  "queue_of pol prop ctx =
     (case pol of
        Pooled \<Rightarrow> if prop = kCopyFromGPU \<or> prop = kCopyToGPU then IoTasks else Tasks
      | PerDevice \<Rightarrow>
          if cx_dev_mask ctx = kCPU then (if prop = kCPUPrioritized then CpuPriority else CpuNormal (cx_dev_id ctx))
          else if prop = kCopyFromGPU \<or> prop = kCopyToGPU then GpuCopy (cx_dev_id ctx)
          else if prop = kGPUPrioritized then GpuPriority (cx_dev_id ctx)
          else GpuNormal (cx_dev_id ctx))"

definition Context_CPU :: Context where
  "Context_CPU = \<lparr>cx_dev_type = kCPU, cx_dev_id = 0\<rparr>"

text \<open>
  The context a function runs in: the workers of the priority queue have the default context, the
  other workers that of their device. The workers of a GPU end at once in a build without CUDA.
\<close>

definition run_ctx :: "policy \<Rightarrow> FnProperty \<Rightarrow> Context \<Rightarrow> Context" where
  "run_ctx pol prop ctx = (if queue_of pol prop ctx = CpuPriority then Context_CPU else ctx)"

definition has_worker :: "('f, 'd) EngLib \<Rightarrow> task_queue \<Rightarrow> bool" where
  "has_worker L q \<longleftrightarrow> (case q of GpuCopy _ \<Rightarrow> ep_cuda L | GpuPriority _ \<Rightarrow> ep_cuda L | GpuNormal _ \<Rightarrow> ep_cuda L | _ \<Rightarrow> True)"

definition enqueue_block :: "policy \<Rightarrow> nat \<Rightarrow> ('f, 'd) Engine \<Rightarrow> ('f, 'd) Engine res" where
  "enqueue_block pol b eg =
     rbind (deref (eg_blocks eg) b) (\<lambda>blk.
     rbind (deref (eg_oprs eg) (ob_opr blk)) (\<lambda>opr.
     let q = queue_of pol (to_prop opr) (ob_ctx blk) in
     chk (pol = Pooled \<or> q = CpuPriority \<or> 0 \<le> cx_dev_id (ob_ctx blk)) ''CHECK_GE(index, 0)''
      (Inr (if pol = PerDevice \<and> to_prop opr = kDeleteVar then task_push_front q b (ob_priority blk) eg
            else task_push q b (ob_priority blk) eg))))"

definition runs_inline :: "policy \<Rightarrow> FnProperty \<Rightarrow> bool" where
  "runs_inline pol prop \<longleftrightarrow> prop = kAsync \<or> pol = PerDevice \<and> prop = kDeleteVar"

text \<open>After the lock: the counter of each triggered block, which is dispatched when it reaches zero.\<close>

definition trigger :: "policy \<Rightarrow> nat \<Rightarrow> ('f, 'd) Engine \<Rightarrow> ('f, 'd) Engine res" where
  "trigger pol b eg = rbind (decr_wait b eg) (\<lambda>(n, eg1). if n = 0 then enqueue_block pol b eg1 else Inr eg1)"

fun trigger_all :: "policy \<Rightarrow> nat list \<Rightarrow> ('f, 'd) Engine \<Rightarrow> ('f, 'd) Engine res" where
  "trigger_all pol [] eg = Inr eg"
| "trigger_all pol (b # bs) eg = rbind (trigger pol b eg) (trigger_all pol bs)"

text \<open>A failed operation marks the variables it should have written.\<close>

definition raised :: "nat option \<Rightarrow> ('f, 'd) Engine \<Rightarrow> bool" where
  "raised p eg = (case p of None \<Rightarrow> False | Some a \<Rightarrow> eg_exceptions eg a \<noteq> None)"

definition mark_exception :: "nat option \<Rightarrow> ('f, 'd) Engine \<Rightarrow> ThreadedVar \<Rightarrow> ThreadedVar" where
  "mark_exception ex eg tv = (if raised ex eg then tv\<lparr>tv_exception := ex\<rparr> else tv)"

definition CompleteReadDependency :: "nat \<Rightarrow> ('f, 'd) Engine \<Rightarrow> (nat list \<times> ('f, 'd) Engine) res" where
  "CompleteReadDependency v eg =
     rbind (deref (eg_vars eg) v) (\<lambda>tv. rbind (complete_read tv) (\<lambda>(ts, tv1). Inr (ts, put_var v tv1 eg)))"

definition CompleteWriteDependency :: "nat option \<Rightarrow> nat \<Rightarrow> ('f, 'd) Engine \<Rightarrow> (nat list \<times> ('f, 'd) Engine) res" where
  "CompleteWriteDependency ex v eg =
     rbind (deref (eg_vars eg) v) (\<lambda>tv. rbind (complete_write (mark_exception ex eg tv)) (\<lambda>(del, ts, tv1).
       Inr (ts, if del then eg\<lparr>eg_vars := (eg_vars eg)(v := None)\<rparr> else put_var v tv1 eg)))"

subsection \<open>Execution\<close>

definition new_exception :: "string \<Rightarrow> nat \<Rightarrow> ('f, 'd) Engine \<Rightarrow> ('f, 'd) Engine res" where
  "new_exception what i eg =
     rbind (deref (eg_oprs eg) i) (\<lambda>opr.
     Inr (put_opr i (opr\<lparr>to_exception := Some (eg_next eg)\<rparr>)
       (eg\<lparr>eg_exceptions := (eg_exceptions eg)(eg_next eg := Some what), eg_next := eg_next eg + 1\<rparr>)))"

text \<open>The accesses of an operation, readers before writers.\<close>

definition accesses :: "'f ThreadedOpr \<Rightarrow> (nat \<times> bool) list" where
  "accesses opr = map (\<lambda>v. (v, False)) (to_const_vars opr) @ map (\<lambda>v. (v, True)) (to_mutable_vars opr)"

definition complete_access :: "nat option \<Rightarrow> nat \<times> bool \<Rightarrow> ('f, 'd) Engine \<Rightarrow> (nat list \<times> ('f, 'd) Engine) res" where
  "complete_access ex = (\<lambda>(v, write). if write then CompleteWriteDependency ex v else CompleteReadDependency v)"

fun complete_accesses :: "policy \<Rightarrow> nat option \<Rightarrow> (nat \<times> bool) list \<Rightarrow> ('f, 'd) Engine \<Rightarrow> ('f, 'd) Engine res" where
  "complete_accesses pol ex [] eg = Inr eg"
| "complete_accesses pol ex (a # as) eg =
     rbind (complete_access ex a eg) (\<lambda>(ts, eg1). rbind (trigger_all pol ts eg1) (complete_accesses pol ex as))"

definition finish_pending :: "nat \<Rightarrow> bool \<Rightarrow> ('f, 'd) Engine \<Rightarrow> ('f, 'd) Engine res" where
  "finish_pending i temporary eg =
     (let npending = eg_pending eg - 1 in
      chk (0 \<le> npending) ''CHECK_GE(npending, 0)''
       (Inr (eg\<lparr>eg_pending := npending, eg_oprs := (if temporary then (eg_oprs eg)(i := None) else eg_oprs eg)\<rparr>)))"

definition OnComplete :: "policy \<Rightarrow> nat \<Rightarrow> ('f, 'd) Engine \<Rightarrow> ('f, 'd) Engine res" where
  "OnComplete pol i eg =
     rbind (deref (eg_oprs eg) i) (\<lambda>opr.
     rbind (complete_accesses pol (to_exception opr) (accesses opr) eg) (finish_pending i (to_temporary opr)))"

definition register_error :: "nat \<Rightarrow> string option \<Rightarrow> ('f, 'd) Engine \<Rightarrow> ('f, 'd) Engine res" where
  "register_error i err eg = (case err of None \<Rightarrow> Inr eg | Some what \<Rightarrow> new_exception what i eg)"

definition OnCompleteStatic :: "policy \<Rightarrow> nat \<Rightarrow> string option \<Rightarrow> ('f, 'd) Engine \<Rightarrow> ('f, 'd) Engine res" where
  "OnCompleteStatic pol b err eg =
     rbind (deref (eg_blocks eg) b) (\<lambda>blk.
     rbind (register_error (ob_opr blk) err eg) (\<lambda>eg1.
     rbind (OnComplete pol (ob_opr blk) eg1) (\<lambda>eg2.
       Inr (eg2\<lparr>eg_blocks := (eg_blocks eg2)(b := None)\<rparr>))))"

text \<open>The first variable with an exception gives it to the operation, readers before writers.\<close>

fun first_exception :: "nat list \<Rightarrow> ('f, 'd) Engine \<Rightarrow> nat option res" where
  "first_exception [] eg = Inr None"
| "first_exception (v # vs) eg =
     rbind (deref (eg_vars eg) v) (\<lambda>tv. if raised (tv_exception tv) eg then Inr (tv_exception tv) else first_exception vs eg)"

definition OnStart :: "nat \<Rightarrow> ('f, 'd) Engine \<Rightarrow> ('f, 'd) Engine res" where
  "OnStart i eg =
     rbind (deref (eg_oprs eg) i) (\<lambda>opr.
     rbind (first_exception (to_const_vars opr) eg) (\<lambda>e1.
     let ex1 = (if e1 = None then to_exception opr else e1) in
     if raised ex1 eg then Inr (put_opr i (opr\<lparr>to_exception := ex1\<rparr>) eg)
     else rbind (first_exception (to_mutable_vars opr) eg) (\<lambda>e2.
       Inr (put_opr i (opr\<lparr>to_exception := (if e2 = None then ex1 else e2)\<rparr>) eg))))"

text \<open>The closures.\<close>

fun run_sync :: "('f, 'd) EngLib \<Rightarrow> Context \<Rightarrow> 'f list \<Rightarrow> 'd \<Rightarrow> 'd \<times> fn_result" where
  "run_sync L ctx [] d = (d, Called None)"
| "run_sync L ctx (f # fs) d = (case ep_sync L ctx f d of (d', None) \<Rightarrow> run_sync L ctx fs d' | (d', Some what) \<Rightarrow> (d', Throws what))"

definition on_data :: "('d \<Rightarrow> 'd \<times> 'r) \<Rightarrow> ('f, 'd) Engine \<Rightarrow> ('f, 'd) Engine \<times> 'r" where
  "on_data f eg = (let (d, r) = f (eg_data eg) in (eg\<lparr>eg_data := d\<rparr>, r))"

definition run_fn :: "('f, 'd) EngLib \<Rightarrow> Context \<Rightarrow> 'f Fn \<Rightarrow> ('f, 'd) Engine \<Rightarrow> (('f, 'd) Engine \<times> fn_result) res" where
  "run_fn L ctx fn eg =
     (case fn of
        AsyncFn f \<Rightarrow> Inr (on_data (ep_async L ctx f) eg)
      | SyncFns fs \<Rightarrow> Inr (on_data (run_sync L ctx fs) eg)
      | DeleteOprFn i \<Rightarrow> Inr (eg\<lparr>eg_oprs := (eg_oprs eg)(i := None)\<rparr>, Called None)
      | DeleteVarFn f v \<Rightarrow> rbind (SetToDelete v eg) (\<lambda>eg1. Inr (on_data (run_sync L ctx [f]) eg1))
      | WaitFn d \<Rightarrow> Inr (eg\<lparr>eg_done := insert d (eg_done eg)\<rparr>, Called None))"

text \<open>\<open>e.what()\<close> of any other exception decides whether the process ends.\<close>

fun is_prefix :: "string \<Rightarrow> string \<Rightarrow> bool" where
  "is_prefix [] ys = True"
| "is_prefix (x # xs) [] = False"
| "is_prefix (x # xs) (y # ys) = (x = y \<and> is_prefix xs ys)"

fun contains :: "string \<Rightarrow> string \<Rightarrow> bool" where
  "contains p [] = (p = [])"
| "contains p (x # xs) = (is_prefix p (x # xs) \<or> contains p xs)"

text \<open>
  \<open>ExecuteOprBlock\<close> up to the call of the callback: it is called now, with an error or without,
  or later by the function, or never, when another exception is ignored because the driver shuts
  down.
\<close>

datatype fn_callback = CallNow "string option" | CallLater | CallNever

definition execute_fn :: "('f, 'd) EngLib \<Rightarrow> policy \<Rightarrow> nat \<Rightarrow> ('f, 'd) Engine \<Rightarrow> (fn_callback \<times> ('f, 'd) Engine) res" where
  "execute_fn L pol b eg =
     rbind (deref (eg_blocks eg) b) (\<lambda>blk.
     if eg_shutdown_phase eg then Inr (CallNow None, eg)
     else rbind (OnStart (ob_opr blk) eg) (\<lambda>eg1.
       rbind (deref (eg_oprs eg1) (ob_opr blk)) (\<lambda>opr.
       if raised (to_exception opr) eg1 \<and> \<not> to_wait opr then Inr (CallNow None, eg1)
       else rbind (run_fn L (run_ctx pol (to_prop opr) (ob_ctx blk)) (to_fn opr) eg1) (\<lambda>(eg2, r).
         case r of
           Called err \<Rightarrow> Inr (CallNow err, eg2)
         | Later \<Rightarrow> Inr (CallLater, eg2)
         | Throws what \<Rightarrow> rbind (new_exception what (ob_opr blk) eg2) (\<lambda>eg3. Inr (CallNow None, eg3))
         | Crashes what \<Rightarrow> if contains ''driver shutting down'' what then Inr (CallNever, eg2) else Inl (Fatal what)))))"

text \<open>The pooled engine needs CUDA for a GPU context.\<close>

definition do_execute :: "('f, 'd) EngLib \<Rightarrow> policy \<Rightarrow> nat \<Rightarrow> ('f, 'd) Engine \<Rightarrow> (fn_callback \<times> ('f, 'd) Engine) res" where
  "do_execute L pol b eg =
     rbind (deref (eg_blocks eg) b) (\<lambda>blk.
     if pol = Pooled \<and> cx_dev_mask (ob_ctx blk) = kGPU \<and> \<not> ep_cuda L then Inl (Fatal ''Please compile with CUDA enabled'')
     else execute_fn L pol b eg)"

definition ExecuteOprBlock :: "('f, 'd) EngLib \<Rightarrow> policy \<Rightarrow> nat \<Rightarrow> ('f, 'd) Engine \<Rightarrow> ('f, 'd) Engine res" where
  "ExecuteOprBlock L pol b eg =
     rbind (do_execute L pol b eg) (\<lambda>(c, eg1). case c of CallNow err \<Rightarrow> OnCompleteStatic pol b err eg1 | _ \<Rightarrow> Inr eg1)"

text \<open>What an asynchronous function does until it calls its callback late.\<close>

definition late_fn :: "('f, 'd) EngLib \<Rightarrow> policy \<Rightarrow> nat \<Rightarrow> ('f, 'd) Engine \<Rightarrow> (string option \<times> ('f, 'd) Engine) res" where
  "late_fn L pol b eg =
     rbind (deref (eg_blocks eg) b) (\<lambda>blk.
     rbind (deref (eg_oprs eg) (ob_opr blk)) (\<lambda>opr.
     case to_fn opr of
       AsyncFn f \<Rightarrow> (let (eg1, err) = on_data (ep_late L (run_ctx pol (to_prop opr) (ob_ctx blk)) f) eg in Inr (err, eg1))
     | _ \<Rightarrow> Inl (Undefined ''callback'')))"

text \<open>\<open>PushToExecute(opr_block, true)\<close>; with \<open>false\<close> it is \<open>enqueue_block\<close>.\<close>

definition PushToExecute :: "('f, 'd) EngLib \<Rightarrow> policy \<Rightarrow> nat \<Rightarrow> ('f, 'd) Engine \<Rightarrow> ('f, 'd) Engine res" where
  "PushToExecute L pol b eg =
     rbind (deref (eg_blocks eg) b) (\<lambda>blk.
     rbind (deref (eg_oprs eg) (ob_opr blk)) (\<lambda>opr.
     if runs_inline pol (to_prop opr) then ExecuteOprBlock L pol b eg else enqueue_block pol b eg))"

subsection \<open>Pushing\<close>

definition new_opr_block :: "nat \<Rightarrow> Context \<Rightarrow> int \<Rightarrow> ('f, 'd) Engine \<Rightarrow> (nat \<times> ('f, 'd) Engine) res" where
  "new_opr_block i ctx prio eg =
     rbind (deref (eg_oprs eg) i) (\<lambda>opr.
     Inr (eg_next eg, eg\<lparr>eg_blocks := (eg_blocks eg)(eg_next eg \<mapsto>
         \<lparr>ob_wait = int (length (to_const_vars opr) + length (to_mutable_vars opr) + 1), ob_opr = i, ob_ctx = ctx, ob_priority = prio\<rparr>),
       eg_next := eg_next eg + 1, eg_pending := eg_pending eg + 1\<rparr>))"

definition append_access :: "nat \<Rightarrow> nat \<times> bool \<Rightarrow> ('f, 'd) Engine \<Rightarrow> ('f, 'd) Engine res" where
  "append_access b = (\<lambda>(v, write). if write then AppendWriteDependency v b else AppendReadDependency v b)"

fun append_dependencies :: "nat \<Rightarrow> (nat \<times> bool) list \<Rightarrow> ('f, 'd) Engine \<Rightarrow> ('f, 'd) Engine res" where
  "append_dependencies b [] eg = Inr eg"
| "append_dependencies b (a # as) eg = rbind (append_access b a eg) (append_dependencies b as)"

text \<open>\<open>Push\<close> after the bulk has been flushed.\<close>

definition push_flushed :: "('f, 'd) EngLib \<Rightarrow> policy \<Rightarrow> nat \<Rightarrow> Context \<Rightarrow> int \<Rightarrow> ('f, 'd) Engine \<Rightarrow> ('f, 'd) Engine res" where
  "push_flushed L pol i ctx prio eg =
     rbind (deref (eg_oprs eg) i) (\<lambda>opr.
     rbind (new_opr_block i ctx prio eg) (\<lambda>(b, eg1).
     rbind (append_dependencies b (accesses opr) eg1) (\<lambda>eg2.
     rbind (decr_wait b eg2) (\<lambda>(n, eg3). if n = 0 then PushToExecute L pol b eg3 else Inr eg3))))"

definition temporary_opr :: "'f Fn \<Rightarrow> nat list \<Rightarrow> nat list \<Rightarrow> FnProperty \<Rightarrow> bool \<Rightarrow> ('f, 'd) Engine \<Rightarrow> nat \<times> ('f, 'd) Engine" where
  "temporary_opr fn cvs mvs prop wait eg =
     (let (i, eg1) = NewOperator fn cvs mvs prop wait eg in
      (i, eg1\<lparr>eg_oprs := (eg_oprs eg1)(i := map_option (\<lambda>opr. opr\<lparr>to_temporary := True\<rparr>) (eg_oprs eg1 i))\<rparr>))"

definition check_device :: "('f, 'd) EngLib \<Rightarrow> Context \<Rightarrow> 'a res \<Rightarrow> 'a res" where
  "check_device L ctx r =
     (if ep_cuda L \<and> cx_dev_mask ctx = kGPU
      then chk (0 < ep_device_count L) ''GPU usage requires at least 1 GPU'' (chk (cx_dev_id ctx < ep_device_count L) ''Invalid GPU Id'' r)
      else r)"

definition push_async_flushed ::
  "('f, 'd) EngLib \<Rightarrow> policy \<Rightarrow> 'f Fn \<Rightarrow> Context \<Rightarrow> nat list \<Rightarrow> nat list \<Rightarrow> FnProperty \<Rightarrow> int \<Rightarrow> bool \<Rightarrow> ('f, 'd) Engine \<Rightarrow> ('f, 'd) Engine res" where
  "push_async_flushed L pol fn ctx cvs mvs prop prio wait eg =
     check_device L ctx (let (i, eg1) = temporary_opr fn cvs mvs prop wait eg in push_flushed L pol i ctx prio eg1)"

subsection \<open>Bulks\<close>

text \<open>\<open>std::sort\<close> followed by \<open>std::unique\<close>.\<close>

fun unique_adjacent :: "nat list \<Rightarrow> nat list" where
  "unique_adjacent (x # y # ys) = (if x = y then unique_adjacent (y # ys) else x # unique_adjacent (y # ys))"
| "unique_adjacent xs = xs"

text \<open>The merging pass that drops what is also written.\<close>

fun drop_written :: "nat list \<Rightarrow> nat list \<Rightarrow> nat list" where
  "drop_written [] ws = []"
| "drop_written (r # rs) ws =
     (let ws' = dropWhile (\<lambda>w. w < r) ws in
      if ws' = [] \<or> hd ws' \<noteq> r then r # drop_written rs ws' else drop_written rs ws')"

definition DeduplicateVarHandle :: "nat list \<Rightarrow> nat list \<Rightarrow> nat list \<times> nat list" where
  "DeduplicateVarHandle read_vars write_vars =
     (let ws = unique_adjacent (sort write_vars); rs = unique_adjacent (sort read_vars) in (drop_written rs ws, ws))"

text \<open>
  The bulk of the pushing thread. Inside \<open>BulkFlush\<close> the count is already zero when the nested
  \<open>Push\<close> flushes again, which does nothing.
\<close>

definition BulkFlush :: "('f, 'd) EngLib \<Rightarrow> policy \<Rightarrow> ('f, 'd) Engine \<Rightarrow> ('f, 'd) Engine res" where
  "BulkFlush L pol eg =
     (let bs = eg_bulk eg in
      if bs_count bs = 0 then Inr eg
      else (let (cvs, mvs) = DeduplicateVarHandle (bs_const_vars bs) (bs_mutable_vars bs) in
        rbind (push_async_flushed L pol (SyncFns (bs_fns bs)) (bs_ctx bs) cvs mvs kNormal 0 False
                 (eg\<lparr>eg_bulk := bs\<lparr>bs_count := 0, bs_fns := [], bs_const_vars := cvs, bs_mutable_vars := mvs\<rparr>\<rparr>)) (\<lambda>eg1.
          Inr (eg1\<lparr>eg_bulk := (eg_bulk eg1)\<lparr>bs_const_vars := [], bs_mutable_vars := []\<rparr>\<rparr>))))"

definition BulkAppend :: "('f, 'd) EngLib \<Rightarrow> policy \<Rightarrow> 'f \<Rightarrow> Context \<Rightarrow> nat list \<Rightarrow> nat list \<Rightarrow> ('f, 'd) Engine \<Rightarrow> ('f, 'd) Engine res" where
  "BulkAppend L pol f ctx cvs mvs eg =
     (let bs = eg_bulk eg;
          bs1 = (if bs_count bs = 0 then bs\<lparr>bs_ctx := ctx, bs_fns := [f]\<rparr> else bs\<lparr>bs_fns := bs_fns bs @ [f]\<rparr>);
          bs2 = bs1\<lparr>bs_count := bs_count bs1 + 1, bs_const_vars := bs_const_vars bs1 @ cvs, bs_mutable_vars := bs_mutable_vars bs1 @ mvs\<rparr>;
          eg1 = eg\<lparr>eg_bulk := bs2\<rparr> in
      if bs_bulk_size bs2 \<le> bs_count bs2 then BulkFlush L pol eg1 else Inr eg1)"

definition set_bulk_size :: "('f, 'd) EngLib \<Rightarrow> policy \<Rightarrow> int \<Rightarrow> ('f, 'd) Engine \<Rightarrow> (int \<times> ('f, 'd) Engine) res" where
  "set_bulk_size L pol n eg =
     (let old = bs_bulk_size (eg_bulk eg); eg1 = eg\<lparr>eg_bulk := (eg_bulk eg)\<lparr>bs_bulk_size := n\<rparr>\<rparr> in
      rbind (if n \<le> bs_count (eg_bulk eg1) then BulkFlush L pol eg1 else Inr eg1) (\<lambda>eg2. Inr (old, eg2)))"

definition Push :: "('f, 'd) EngLib \<Rightarrow> policy \<Rightarrow> nat \<Rightarrow> Context \<Rightarrow> int \<Rightarrow> ('f, 'd) Engine \<Rightarrow> ('f, 'd) Engine res" where
  "Push L pol i ctx prio eg = rbind (BulkFlush L pol eg) (push_flushed L pol i ctx prio)"

definition PushAsync ::
  "('f, 'd) EngLib \<Rightarrow> policy \<Rightarrow> 'f Fn \<Rightarrow> Context \<Rightarrow> nat list \<Rightarrow> nat list \<Rightarrow> FnProperty \<Rightarrow> int \<Rightarrow> bool \<Rightarrow> ('f, 'd) Engine \<Rightarrow> ('f, 'd) Engine res" where
  "PushAsync L pol fn ctx cvs mvs prop prio wait eg =
     check_device L ctx (let (i, eg1) = temporary_opr fn cvs mvs prop wait eg in Push L pol i ctx prio eg1)"

definition PushSync ::
  "('f, 'd) EngLib \<Rightarrow> policy \<Rightarrow> 'f \<Rightarrow> Context \<Rightarrow> nat list \<Rightarrow> nat list \<Rightarrow> FnProperty \<Rightarrow> int \<Rightarrow> ('f, 'd) Engine \<Rightarrow> ('f, 'd) Engine res" where
  "PushSync L pol f ctx cvs mvs prop prio eg =
     (if bs_bulk_size (eg_bulk eg) = 0 \<or> prop \<noteq> kNormal \<or> prio \<noteq> 0
      then PushAsync L pol (SyncFns [f]) ctx cvs mvs prop prio False eg
      else rbind (if bs_count (eg_bulk eg) \<noteq> 0 \<and> ctx \<noteq> bs_ctx (eg_bulk eg) then BulkFlush L pol eg else Inr eg)
             (BulkAppend L pol f ctx cvs mvs))"

subsection \<open>Deleting and waiting\<close>

definition DeleteOperator :: "('f, 'd) EngLib \<Rightarrow> policy \<Rightarrow> nat \<Rightarrow> ('f, 'd) Engine \<Rightarrow> ('f, 'd) Engine res" where
  "DeleteOperator L pol i eg =
     rbind (deref (eg_oprs eg) i) (\<lambda>opr.
       PushAsync L pol (DeleteOprFn i) Context_CPU [] (to_const_vars opr @ to_mutable_vars opr) kAsync 0 False eg)"

definition DeleteVariable :: "('f, 'd) EngLib \<Rightarrow> policy \<Rightarrow> 'f \<Rightarrow> Context \<Rightarrow> nat \<Rightarrow> ('f, 'd) Engine \<Rightarrow> ('f, 'd) Engine res" where
  "DeleteVariable L pol f ctx v eg = PushAsync L pol (DeleteVarFn f v) ctx [] [v] kDeleteVar 0 False eg"

text \<open>Rethrowing an exception clears it for every variable and operator that shares it.\<close>

definition ThrowException :: "nat \<Rightarrow> ('f, 'd) Engine \<Rightarrow> (string option \<times> ('f, 'd) Engine) res" where
  "ThrowException v eg =
     rbind (deref (eg_vars eg) v) (\<lambda>tv.
     Inr (case tv_exception tv of
            None \<Rightarrow> (None, eg)
          | Some a \<Rightarrow> (eg_exceptions eg a, eg\<lparr>eg_exceptions := (eg_exceptions eg)(a := None)\<rparr>)))"

text \<open>
  \<open>WaitForVar\<close> up to the wait on the condition variable: either the variable is ready, or an
  operation that reads it has been pushed, whose flag is waited for. The rest runs when the flag is
  set or the engine is killed.
\<close>

definition WaitForVar_begin :: "('f, 'd) EngLib \<Rightarrow> policy \<Rightarrow> nat \<Rightarrow> ('f, 'd) Engine \<Rightarrow> (nat option \<times> ('f, 'd) Engine) res" where
  "WaitForVar_begin L pol v eg =
     rbind (BulkFlush L pol eg) (\<lambda>eg1.
     rbind (deref (eg_vars eg1) v) (\<lambda>tv.
     if is_ready_to_read tv then Inr (None, eg1)
     else rbind (PushAsync L pol (WaitFn (eg_next eg1)) Context_CPU [v] [] kNormal 0 True (eg1\<lparr>eg_next := eg_next eg1 + 1\<rparr>)) (\<lambda>eg2.
       Inr (Some (eg_next eg1), eg2))))"

definition WaitForVar_wakes :: "nat option \<Rightarrow> ('f, 'd) Engine \<Rightarrow> bool" where
  "WaitForVar_wakes d eg \<longleftrightarrow> (case d of None \<Rightarrow> True | Some f \<Rightarrow> f \<in> eg_done eg \<or> eg_kill eg)"

definition WaitForAll_wakes :: "('f, 'd) Engine \<Rightarrow> bool" where
  "WaitForAll_wakes eg \<longleftrightarrow> eg_pending eg = 0 \<or> eg_kill eg"

text \<open>Checks of a debugging build: no variable twice among the read, among the written, or in both.\<close>

fun adjacent_duplicate :: "nat list \<Rightarrow> bool" where
  "adjacent_duplicate (x # y # ys) = (x = y \<or> adjacent_duplicate (y # ys))"
| "adjacent_duplicate xs = False"

fun common_item :: "nat list \<Rightarrow> nat list \<Rightarrow> bool" where
  "common_item [] ms = False"
| "common_item (u # us) ms =
     (let ms' = dropWhile (\<lambda>m. m < u) ms in if ms' = [] then False else hd ms' = u \<or> common_item us ms')"

definition CheckDuplicate :: "nat list \<Rightarrow> nat list \<Rightarrow> unit res" where
  "CheckDuplicate const_vars mutable_vars =
     (if adjacent_duplicate (sort const_vars) then Inl (Fatal ''duplicate items found in const_vars'')
      else if adjacent_duplicate (sort mutable_vars) then Inl (Fatal ''duplicate items found in mutable_vars'')
      else if common_item (sort const_vars) (sort mutable_vars) then Inl (Fatal ''duplicate items found between const_vars and mutable_vars'')
      else Inr ())"

subsection \<open>The naive engine\<close>

text \<open>It runs every operation at once, in the calling thread.\<close>

record 'd NaiveEngine =
  ne_versions :: "nat \<rightharpoonup> nat"
  ne_next :: nat
  ne_data :: 'd

definition naive_NewVariable :: "'d NaiveEngine \<Rightarrow> nat \<times> 'd NaiveEngine" where
  "naive_NewVariable ne = (ne_next ne, ne\<lparr>ne_versions := (ne_versions ne)(ne_next ne \<mapsto> 0), ne_next := ne_next ne + 1\<rparr>)"

definition naive_bump :: "nat list \<Rightarrow> 'd NaiveEngine \<Rightarrow> 'd NaiveEngine" where
  "naive_bump mvs ne = fold (\<lambda>v ne. ne\<lparr>ne_versions := (ne_versions ne)(v := map_option Suc (ne_versions ne v))\<rparr>) mvs ne"

text \<open>The callback has to have been called when the function returns.\<close>

definition naive_PushAsync :: "('f, 'd) EngLib \<Rightarrow> 'f \<Rightarrow> Context \<Rightarrow> nat list \<Rightarrow> nat list \<Rightarrow> 'd NaiveEngine \<Rightarrow> 'd NaiveEngine res" where
  "naive_PushAsync L f ctx cvs mvs ne =
     (let ne1 = naive_bump mvs ne in
      if cx_dev_mask ctx = kGPU \<and> \<not> ep_cuda L then Inl (Fatal ''GPU is not enabled'')
      else (case ep_async L ctx f (ne_data ne1) of
        (d, Called err) \<Rightarrow> Inr (ne1\<lparr>ne_data := d\<rparr>)
      | (d, Later) \<Rightarrow> Inl (Check ''NaiveEngine only support synchronize Push so far'')
      | (d, Throws what) \<Rightarrow> Inl (Check what)
      | (d, Crashes what) \<Rightarrow> Inl (Fatal what)))"

definition naive_PushSync :: "('f, 'd) EngLib \<Rightarrow> 'f \<Rightarrow> Context \<Rightarrow> nat list \<Rightarrow> nat list \<Rightarrow> 'd NaiveEngine \<Rightarrow> 'd NaiveEngine res" where
  "naive_PushSync L f ctx cvs mvs ne =
     (let ne1 = naive_bump mvs ne in
      if cx_dev_mask ctx = kGPU \<and> \<not> ep_cuda L then Inl (Fatal ''GPU is not enabled'')
      else (case ep_sync L ctx f (ne_data ne1) of
        (d, None) \<Rightarrow> Inr (ne1\<lparr>ne_data := d\<rparr>)
      | (d, Some what) \<Rightarrow> Inl (Check what)))"

definition naive_DeleteVariable :: "('f, 'd) EngLib \<Rightarrow> 'f \<Rightarrow> Context \<Rightarrow> nat \<Rightarrow> 'd NaiveEngine \<Rightarrow> 'd NaiveEngine res" where
  "naive_DeleteVariable L f ctx v ne =
     rbind (naive_PushSync L f ctx [] [v] ne) (\<lambda>ne1. Inr (ne1\<lparr>ne_versions := (ne_versions ne1)(v := None)\<rparr>))"

subsection \<open>Choosing an engine\<close>

datatype EngineKind = CreateNaiveEngine | CreateThreadedEngine policy

definition CreateEngine :: "string option \<Rightarrow> EngineKind res" where
  "CreateEngine env =
     (let type = (case env of None \<Rightarrow> ''ThreadedEnginePerDevice'' | Some t \<Rightarrow> t) in
      if type = ''NaiveEngine'' then Inr CreateNaiveEngine
      else if type = ''ThreadedEngine'' then Inr (CreateThreadedEngine Pooled)
      else if type = ''ThreadedEnginePerDevice'' then Inr (CreateThreadedEngine PerDevice)
      else Inl (Fatal ''Cannot find Engine''))"

end
