(* ===== verification/Spec2Isabelle.thy ===== *)
theory Spec2Isabelle
  imports WellTyped Engines
begin

text \<open>
  A verification library for the communication core of GeoMX: the parameter server \<^verbatim>\<open>ps-lite\<close>
  (\<^verbatim>\<open>src/3rdparty/ps-lite\<close>), which GeoMX extends to two layers of servers, and the parts of the
  key-value store (\<^verbatim>\<open>src/src/kvstore\<close>) that run on it.

  \<^bold>\<open>The program.\<close> Workers of a party push gradients to the servers of the party and pull parameters
  from them; the servers of all parties do the same with the global servers. A node has one
  \<open>Postoffice\<close> (ids, groups, key ranges, barriers), one \<open>Van\<close> (sending, receiving, membership,
  resending, DGT chunks, TSEngine scheduling) and \<open>Customer\<close>s (queues, threads and response counts
  of the applications). \<open>SimpleApp\<close>, \<open>KVWorker\<close> and \<open>KVServer\<close> are the applications; the
  key-value store encodes commands and compresses gradients.

  \<^bold>\<open>Conventions.\<close> A fallible operation returns \<open>err + 'a\<close>: \<open>Check\<close> for a failed \<^verbatim>\<open>CHECK\<close>,
  \<open>Fatal\<close> for \<^verbatim>\<open>LOG(FATAL)\<close>, \<open>Undefined\<close> for undefined behaviour of C++ and \<open>Blocked\<close> for a
  thread that still waits. Keys are 64-bit words and wrap; a C \<^verbatim>\<open>int\<close> is an \<open>int\<close>, cut to its width
  where the code narrows; bytes and floating point numbers are words, and floating point operations
  are parameters. Mutexes are elided: a handler is one step. Messages sent are appended to
  \<open>van_outbox\<close>. A call that waits is run against \<open>moves\<close>, what other threads do meanwhile. Code that
  is not in the repository (protobuf, zmq, \<open>std::sort\<close>, the clock, the application's callbacks) is a
  parameter, collected in \<open>World\<close>, \<open>Net\<close>, \<open>Fpu\<close>, \<open>KVLib\<close> and \<open>KVSLib\<close>.

  \<^bold>\<open>Theories.\<close>
  \<^item> \<open>Prelude\<close>: results, C arithmetic, generic facts.
  \<^item> \<open>Messages\<close> (\<^verbatim>\<open>message.h\<close>, \<^verbatim>\<open>Van::PackMeta\<close>, \<^verbatim>\<open>UnpackMeta\<close>): the structures and their wire
    format, with a round trip.
  \<^item> \<open>Postoffices\<close> (\<^verbatim>\<open>postoffice.cc\<close>): start, ids and ranks, groups, key ranges, barriers of a caller,
    heartbeats. Groups have the right members, ranges tile the keys, a barrier answer releases all.
  \<^item> \<open>Customers\<close> (\<^verbatim>\<open>customer.cc\<close>, \<^verbatim>\<open>threadsafe_queue.h\<close>): queues, the tracker, the receiving threads as
    a step relation. Requests complete exactly when counted, no message is lost.
  \<^item> \<open>Resenders\<close> (\<^verbatim>\<open>resender.h\<close>): signatures, acknowledgement, retransmission; exactly-once delivery
    over a lossy link, and the cases in which signatures collide.
  \<^item> \<open>Vans\<close>, \<open>Membership\<close>, \<open>Barriers\<close>, \<open>Tsengine\<close>, \<open>Dgt\<close>, \<open>Receivers\<close> (\<^verbatim>\<open>van.cc\<close>): the state of a
    van and sending; registration and recovery of nodes; barriers end to end; the choice of receivers;
    chunks, merging and quantisation; the receiving loops, start and stop.
  \<^item> \<open>Commands\<close> (\<^verbatim>\<open>kvstore_dist_server.h\<close>): commands as pairs of request and data type.
  \<^item> \<open>Sarrays\<close> (\<^verbatim>\<open>sarray.h\<close>): shared arrays on an explicit store, refining lists.
  \<^item> \<open>Slicers\<close>, \<open>Payloads\<close>, \<open>SimpleApps\<close>, \<open>KVWorkers\<close>, \<open>KVServers\<close> (\<^verbatim>\<open>kv_app.h\<close>, \<^verbatim>\<open>simple_app.h\<close>):
    the partition of key-value lists among servers, their encoding in messages, and the applications.
  \<^item> \<open>Pulls\<close>: pushes and pulls end to end: what is sent reaches the owners of the keys, and whatever
    the order of the answers the destination is filled.
  \<^item> \<open>GlobalPushes\<close>: a server's push under DGT, from the value through chunks and channels to the value
    the receiving van hands over.
  \<^item> \<open>Compression\<close> (\<^verbatim>\<open>gradient_compression.cc\<close>): two-bit and bi-sparse compression; what is not sent
    is kept.

  \<^bold>\<open>Loops.\<close> Loops are recursive functions with termination proofs; none needs fuel. Waiting loops end
  with \<open>Blocked\<close> when the given moves are used up, and the forwarding loop of TSEngine terminates
  because each round uses a move.

  \<^bold>\<open>Interfaces.\<close> \<open>node_numbering\<close> (ids and ranks), \<open>message_channel\<close> (queues), \<open>rank_assignment\<close>
  (registration) and \<open>growable_array\<close> (arrays) are locales, each interpreted on the model's own
  definitions; the properties use the facts of the interpretations.

  \<^bold>\<open>Not modelled.\<close> Socket input and output, logging, profiling and command line; deleters of shared
  memory; GPU kernels; the tensor operators, executors, graph passes and language bindings inherited
  from MXNet, which the communication core does not use.
\<close>

end
